theory Spec2Isabelle
  imports Main "HOL-Library.Word"
begin

unbundle bit_operations_syntax

section \<open>The 8086 interpreter (class CPU8086 of src/msdos.js)\<close>

subsection \<open>Flags word (const FLAGS, Registers.getFlag, Registers.setFlag)\<close>

text \<open>
  Every JavaScript number of the interpreter (registers, the flags word, operands, counts,
  addresses) is an integer here, and every mask of the source (& 0xFF, & 0xFFFF, & 0xFFFFF)
  is written out. JavaScript's bitwise operators work on 32-bit integers; all values they
  meet in the code modelled here are non-negative and below 2^31 (or are masked right
  after a shift), where they agree with AND, OR, XOR, NOT, push_bit and drop_bit on the
  integers. Each constant of the table FLAGS is written as in the source, 1 shifted left
  by the bit position.
\<close>

definition FLAGS_CF :: int where "FLAGS_CF = push_bit 0 1"
definition FLAGS_PF :: int where "FLAGS_PF = push_bit 2 1"
definition FLAGS_AF :: int where "FLAGS_AF = push_bit 4 1"
definition FLAGS_ZF :: int where "FLAGS_ZF = push_bit 6 1"
definition FLAGS_SF :: int where "FLAGS_SF = push_bit 7 1"
definition FLAGS_TF :: int where "FLAGS_TF = push_bit 8 1"
definition FLAGS_IF :: int where "FLAGS_IF = push_bit 9 1"
definition FLAGS_DF :: int where "FLAGS_DF = push_bit 10 1"
definition FLAGS_OF :: int where "FLAGS_OF = push_bit 11 1"

text \<open>getFlag(bit): (this.flags & bit) !== 0.\<close>

definition getFlag :: "int \<Rightarrow> int \<Rightarrow> bool" where
  "getFlag fl b = (fl AND b \<noteq> 0)"

text \<open>setFlag(bit, val): if (val) this.flags |= bit; else this.flags &= ~bit.\<close>

definition setFlag :: "int \<Rightarrow> int \<Rightarrow> bool \<Rightarrow> int" where
  "setFlag fl b v = (if v then fl OR b else fl AND NOT b)"

subsection \<open>Parity and the ZF/SF/PF update\<close>

text \<open>
  parity(val): for (v = val & 0xFF; v; v >>= 1) p ^= v & 1; return p === 0.
  The loop variable starts at val & 0xFF, which is never negative, so it is a natural
  number; the loop ends because v >> 1 is smaller than a positive v.
\<close>

function parity_loop :: "nat \<Rightarrow> int \<Rightarrow> int" where
  "parity_loop v p = (if v = 0 then p else parity_loop (drop_bit 1 v) (p XOR int (v AND 1)))"
  by pat_completeness auto
termination
  by (relation "measure (\<lambda>(v, p). v)") (auto simp add: drop_bit_eq_div)

definition parity :: "int \<Rightarrow> bool" where
  "parity val = (parity_loop (nat (val AND 0xFF)) 0 = 0)"

definition updateZSP8 :: "int \<Rightarrow> int \<Rightarrow> int" where
  "updateZSP8 fl r =
     (let v = r AND 0xFF;
          fl1 = setFlag fl FLAGS_ZF (v = 0);
          fl2 = setFlag fl1 FLAGS_SF (v AND 0x80 \<noteq> 0)
      in setFlag fl2 FLAGS_PF (parity v))"

definition updateZSP16 :: "int \<Rightarrow> int \<Rightarrow> int" where
  "updateZSP16 fl r =
     (let v = r AND 0xFFFF;
          fl1 = setFlag fl FLAGS_ZF (v = 0);
          fl2 = setFlag fl1 FLAGS_SF (v AND 0x8000 \<noteq> 0)
      in setFlag fl2 FLAGS_PF (parity v))"

subsection \<open>Shifts and rotates (doShift8, doShift16)\<close>

text \<open>
  The two methods read and write this.reg.flags only, so they take the flags word and
  return the result with the new flags word. Each for-loop of the source is a primitive
  recursion on the number of iterations left, carrying (result, flags); the count is
  between 1 and 31 where a loop or a shift uses it.
\<close>

primrec rol8_loop :: "nat \<Rightarrow> int \<times> int \<Rightarrow> int \<times> int" where
  "rol8_loop 0 s = s"
| "rol8_loop (Suc n) s =
     (let result = fst s; msb = drop_bit 7 result AND 1
      in rol8_loop n ((push_bit 1 result OR msb) AND 0xFF, setFlag (snd s) FLAGS_CF (msb \<noteq> 0)))"

primrec ror8_loop :: "nat \<Rightarrow> int \<times> int \<Rightarrow> int \<times> int" where
  "ror8_loop 0 s = s"
| "ror8_loop (Suc n) s =
     (let result = fst s; lsb = result AND 1
      in ror8_loop n ((push_bit 7 lsb OR drop_bit 1 result) AND 0xFF, setFlag (snd s) FLAGS_CF (lsb \<noteq> 0)))"

primrec rcl8_loop :: "nat \<Rightarrow> int \<times> int \<Rightarrow> int \<times> int" where
  "rcl8_loop 0 s = s"
| "rcl8_loop (Suc n) s =
     (let result = fst s; oldCF = (if getFlag (snd s) FLAGS_CF then 1 else 0);
          fl = setFlag (snd s) FLAGS_CF (result AND 0x80 \<noteq> 0)
      in rcl8_loop n ((push_bit 1 result OR oldCF) AND 0xFF, fl))"

primrec rcr8_loop :: "nat \<Rightarrow> int \<times> int \<Rightarrow> int \<times> int" where
  "rcr8_loop 0 s = s"
| "rcr8_loop (Suc n) s =
     (let result = fst s; oldCF = (if getFlag (snd s) FLAGS_CF then 1 else 0);
          fl = setFlag (snd s) FLAGS_CF (result AND 1 \<noteq> 0)
      in rcr8_loop n ((push_bit 7 oldCF OR drop_bit 1 result) AND 0xFF, fl))"

primrec sar8_loop :: "nat \<Rightarrow> int \<Rightarrow> int \<Rightarrow> int" where
  "sar8_loop 0 signBit result = result"
| "sar8_loop (Suc n) signBit result = sar8_loop n signBit ((drop_bit 1 result OR signBit) AND 0xFF)"

definition doShift8 :: "int \<Rightarrow> int \<Rightarrow> int \<Rightarrow> int \<Rightarrow> int \<times> int" where
  "doShift8 op val cnt0 fl =
     (let v = val AND 0xFF; cnt = cnt0 AND 0x1F in
      if cnt = 0 then (v, fl)
      else if op = 0 then
        (let (result, fl1) = rol8_loop (nat cnt) (v, fl);
             fl2 = (if cnt = 1
                    then setFlag fl1 FLAGS_OF ((drop_bit 7 result AND 1) \<noteq> (if getFlag fl1 FLAGS_CF then 1 else 0))
                    else fl1)
         in (result AND 0xFF, fl2))
      else if op = 1 then
        (let (result, fl1) = ror8_loop (nat cnt) (v, fl);
             fl2 = (if cnt = 1
                    then setFlag fl1 FLAGS_OF ((drop_bit 7 result XOR (drop_bit 6 result AND 1)) \<noteq> 0)
                    else fl1)
         in (result AND 0xFF, fl2))
      else if op = 2 then
        (let (result, fl1) = rcl8_loop (nat cnt) (v, fl);
             fl2 = (if cnt = 1
                    then setFlag fl1 FLAGS_OF ((drop_bit 7 result AND 1) \<noteq> (if getFlag fl1 FLAGS_CF then 1 else 0))
                    else fl1)
         in (result AND 0xFF, fl2))
      else if op = 3 then
        (let (result, fl1) = rcr8_loop (nat cnt) (v, fl);
             fl2 = (if cnt = 1
                    then setFlag fl1 FLAGS_OF ((drop_bit 7 result XOR (drop_bit 6 result AND 1)) \<noteq> 0)
                    else fl1)
         in (result AND 0xFF, fl2))
      else if op = 4 \<or> op = 6 then
        (let fl1 = setFlag fl FLAGS_CF (if cnt \<le> 8 then (drop_bit (nat (8 - cnt)) v AND 1) \<noteq> 0 else False);
             result = push_bit (nat cnt) v AND 0xFF;
             fl2 = updateZSP8 fl1 result;
             fl3 = (if cnt = 1
                    then setFlag fl2 FLAGS_OF ((drop_bit 7 result AND 1) \<noteq> (if getFlag fl2 FLAGS_CF then 1 else 0))
                    else fl2)
         in (result AND 0xFF, fl3))
      else if op = 5 then
        (let fl1 = setFlag fl FLAGS_CF (if cnt \<le> 8 then (drop_bit (nat (cnt - 1)) v AND 1) \<noteq> 0 else False);
             result = drop_bit (nat cnt) v AND 0xFF;
             fl2 = updateZSP8 fl1 result;
             fl3 = (if cnt = 1 then setFlag fl2 FLAGS_OF (v AND 0x80 \<noteq> 0) else fl2)
         in (result AND 0xFF, fl3))
      else if op = 7 then
        (let fl1 = setFlag fl FLAGS_CF ((drop_bit (nat (cnt - 1)) v AND 1) \<noteq> 0);
             signBit = v AND 0x80;
             result = sar8_loop (nat cnt) signBit v;
             fl2 = updateZSP8 fl1 result;
             fl3 = (if cnt = 1 then setFlag fl2 FLAGS_OF False else fl2)
         in (result AND 0xFF, fl3))
      else (v AND 0xFF, fl))"

primrec rol16_loop :: "nat \<Rightarrow> int \<times> int \<Rightarrow> int \<times> int" where
  "rol16_loop 0 s = s"
| "rol16_loop (Suc n) s =
     (let result = fst s; msb = drop_bit 15 result AND 1
      in rol16_loop n ((push_bit 1 result OR msb) AND 0xFFFF, setFlag (snd s) FLAGS_CF (msb \<noteq> 0)))"

primrec ror16_loop :: "nat \<Rightarrow> int \<times> int \<Rightarrow> int \<times> int" where
  "ror16_loop 0 s = s"
| "ror16_loop (Suc n) s =
     (let result = fst s; lsb = result AND 1
      in ror16_loop n ((push_bit 15 lsb OR drop_bit 1 result) AND 0xFFFF, setFlag (snd s) FLAGS_CF (lsb \<noteq> 0)))"

primrec rcl16_loop :: "nat \<Rightarrow> int \<times> int \<Rightarrow> int \<times> int" where
  "rcl16_loop 0 s = s"
| "rcl16_loop (Suc n) s =
     (let result = fst s; oldCF = (if getFlag (snd s) FLAGS_CF then 1 else 0);
          fl = setFlag (snd s) FLAGS_CF (result AND 0x8000 \<noteq> 0)
      in rcl16_loop n ((push_bit 1 result OR oldCF) AND 0xFFFF, fl))"

primrec rcr16_loop :: "nat \<Rightarrow> int \<times> int \<Rightarrow> int \<times> int" where
  "rcr16_loop 0 s = s"
| "rcr16_loop (Suc n) s =
     (let result = fst s; oldCF = (if getFlag (snd s) FLAGS_CF then 1 else 0);
          fl = setFlag (snd s) FLAGS_CF (result AND 1 \<noteq> 0)
      in rcr16_loop n ((push_bit 15 oldCF OR drop_bit 1 result) AND 0xFFFF, fl))"

primrec sar16_loop :: "nat \<Rightarrow> int \<Rightarrow> int \<Rightarrow> int" where
  "sar16_loop 0 signBit result = result"
| "sar16_loop (Suc n) signBit result = sar16_loop n signBit ((drop_bit 1 result OR signBit) AND 0xFFFF)"

definition doShift16 :: "int \<Rightarrow> int \<Rightarrow> int \<Rightarrow> int \<Rightarrow> int \<times> int" where
  "doShift16 op val cnt0 fl =
     (let v = val AND 0xFFFF; cnt = cnt0 AND 0x1F in
      if cnt = 0 then (v, fl)
      else if op = 0 then
        (let (result, fl1) = rol16_loop (nat cnt) (v, fl);
             fl2 = (if cnt = 1
                    then setFlag fl1 FLAGS_OF ((drop_bit 15 result AND 1) \<noteq> (if getFlag fl1 FLAGS_CF then 1 else 0))
                    else fl1)
         in (result AND 0xFFFF, fl2))
      else if op = 1 then
        (let (result, fl1) = ror16_loop (nat cnt) (v, fl);
             fl2 = (if cnt = 1
                    then setFlag fl1 FLAGS_OF ((drop_bit 15 result XOR (drop_bit 14 result AND 1)) \<noteq> 0)
                    else fl1)
         in (result AND 0xFFFF, fl2))
      else if op = 2 then
        (let (result, fl1) = rcl16_loop (nat cnt) (v, fl);
             fl2 = (if cnt = 1
                    then setFlag fl1 FLAGS_OF ((drop_bit 15 result AND 1) \<noteq> (if getFlag fl1 FLAGS_CF then 1 else 0))
                    else fl1)
         in (result AND 0xFFFF, fl2))
      else if op = 3 then
        (let (result, fl1) = rcr16_loop (nat cnt) (v, fl);
             fl2 = (if cnt = 1
                    then setFlag fl1 FLAGS_OF ((drop_bit 15 result XOR (drop_bit 14 result AND 1)) \<noteq> 0)
                    else fl1)
         in (result AND 0xFFFF, fl2))
      else if op = 4 \<or> op = 6 then
        (let fl1 = setFlag fl FLAGS_CF (if cnt \<le> 16 then (drop_bit (nat (16 - cnt)) v AND 1) \<noteq> 0 else False);
             result = push_bit (nat cnt) v AND 0xFFFF;
             fl2 = updateZSP16 fl1 result;
             fl3 = (if cnt = 1
                    then setFlag fl2 FLAGS_OF ((drop_bit 15 result AND 1) \<noteq> (if getFlag fl2 FLAGS_CF then 1 else 0))
                    else fl2)
         in (result AND 0xFFFF, fl3))
      else if op = 5 then
        (let fl1 = setFlag fl FLAGS_CF (if cnt \<le> 16 then (drop_bit (nat (cnt - 1)) v AND 1) \<noteq> 0 else False);
             result = drop_bit (nat cnt) v AND 0xFFFF;
             fl2 = updateZSP16 fl1 result;
             fl3 = (if cnt = 1 then setFlag fl2 FLAGS_OF (v AND 0x8000 \<noteq> 0) else fl2)
         in (result AND 0xFFFF, fl3))
      else if op = 7 then
        (let fl1 = setFlag fl FLAGS_CF ((drop_bit (nat (cnt - 1)) v AND 1) \<noteq> 0);
             signBit = v AND 0x8000;
             result = sar16_loop (nat cnt) signBit v;
             fl2 = updateZSP16 fl1 result;
             fl3 = (if cnt = 1 then setFlag fl2 FLAGS_OF False else fl2)
         in (result AND 0xFFFF, fl3))
      else (v AND 0xFFFF, fl))"

subsection \<open>Machine state (classes Memory, Registers, CPU8086)\<close>

text \<open>
  class Registers: sixteen number fields. class CPU8086 holds reg (a Registers), mem (a
  Memory, whose data is a Uint8Array of 0x100000 bytes, here a function from the masked
  address to the byte) and the interpreter's own fields. The fields the modelled methods
  never read (debug log, video and mouse state, timer) are left out.
\<close>

record registers =
  ax :: int
  bx :: int
  cx :: int
  dx :: int
  si :: int
  di :: int
  bp :: int
  sp :: int
  cs :: int
  ds :: int
  es :: int
  ss :: int
  fs :: int
  gs :: int
  ip :: int
  flags :: int

datatype rep_prefix = REP | REPNE

record cpu =
  reg :: registers
  mem :: "int \<Rightarrow> int"
  halted :: bool
  haltReason :: string
  waitCycles :: int
  segOverride :: "int option"
  repPrefix :: "rep_prefix option"
  lastEA :: int
  eaCached :: bool
  lastStrOpSetsZF :: bool
  biosKeyBuffer :: "int list"

text \<open>new Registers(): the values the constructor assigns.\<close>

definition new_Registers :: registers where
  "new_Registers =
     \<lparr> ax = 0, bx = 0, cx = 0, dx = 0, si = 0, di = 0, bp = 0, sp = 0xFFFE,
       cs = 0xF000, ds = 0, es = 0, ss = 0, fs = 0, gs = 0, ip = 0xFFF0, flags = 0x0002 \<rparr>"

text \<open>new CPU8086(mem): the constructor, for the fields modelled.\<close>

definition new_CPU8086 :: "(int \<Rightarrow> int) \<Rightarrow> cpu" where
  "new_CPU8086 m =
     \<lparr> reg = new_Registers, mem = m, halted = False, haltReason = [], waitCycles = 0,
       segOverride = None, repPrefix = None, lastEA = 0, eaCached = False,
       lastStrOpSetsZF = False, biosKeyBuffer = [] \<rparr>"

text \<open>reset(): a fresh Registers, not halted, no prefix.\<close>

definition reset :: "cpu \<Rightarrow> cpu" where
  "reset c = c\<lparr>reg := new_Registers, halted := False, haltReason := [], waitCycles := 0,
               segOverride := None, repPrefix := None\<rparr>"

text \<open>Memory.read8, write8, read16, write16.\<close>

definition read8 :: "(int \<Rightarrow> int) \<Rightarrow> int \<Rightarrow> int" where
  "read8 m addr = m (addr AND 0xFFFFF)"

definition write8 :: "(int \<Rightarrow> int) \<Rightarrow> int \<Rightarrow> int \<Rightarrow> (int \<Rightarrow> int)" where
  "write8 m addr val = m((addr AND 0xFFFFF) := val AND 0xFF)"

definition read16 :: "(int \<Rightarrow> int) \<Rightarrow> int \<Rightarrow> int" where
  "read16 m addr = read8 m addr OR push_bit 8 (read8 m (addr + 1))"

definition write16 :: "(int \<Rightarrow> int) \<Rightarrow> int \<Rightarrow> int \<Rightarrow> (int \<Rightarrow> int)" where
  "write16 m addr val = write8 (write8 m addr (val AND 0xFF)) (addr + 1) (drop_bit 8 val AND 0xFF)"

text \<open>Registers.segmented(seg, off): ((seg << 4) + (off & 0xFFFF)) & 0xFFFFF.\<close>

definition segmented :: "int \<Rightarrow> int \<Rightarrow> int" where
  "segmented seg off = (push_bit 4 seg + (off AND 0xFFFF)) AND 0xFFFFF"

text \<open>The 8-bit accessors of Registers (get al, get ah, set al, set ah, ...).\<close>

definition get_al :: "registers \<Rightarrow> int" where "get_al r = ax r AND 0xFF"
definition get_ah :: "registers \<Rightarrow> int" where "get_ah r = drop_bit 8 (ax r) AND 0xFF"
definition get_bl :: "registers \<Rightarrow> int" where "get_bl r = bx r AND 0xFF"
definition get_bh :: "registers \<Rightarrow> int" where "get_bh r = drop_bit 8 (bx r) AND 0xFF"
definition get_cl :: "registers \<Rightarrow> int" where "get_cl r = cx r AND 0xFF"
definition get_ch :: "registers \<Rightarrow> int" where "get_ch r = drop_bit 8 (cx r) AND 0xFF"
definition get_dl :: "registers \<Rightarrow> int" where "get_dl r = dx r AND 0xFF"
definition get_dh :: "registers \<Rightarrow> int" where "get_dh r = drop_bit 8 (dx r) AND 0xFF"

definition set_al :: "int \<Rightarrow> registers \<Rightarrow> registers" where
  "set_al v r = r\<lparr>ax := (ax r AND 0xFF00) OR (v AND 0xFF)\<rparr>"
definition set_ah :: "int \<Rightarrow> registers \<Rightarrow> registers" where
  "set_ah v r = r\<lparr>ax := (ax r AND 0x00FF) OR push_bit 8 (v AND 0xFF)\<rparr>"
definition set_bl :: "int \<Rightarrow> registers \<Rightarrow> registers" where
  "set_bl v r = r\<lparr>bx := (bx r AND 0xFF00) OR (v AND 0xFF)\<rparr>"
definition set_bh :: "int \<Rightarrow> registers \<Rightarrow> registers" where
  "set_bh v r = r\<lparr>bx := (bx r AND 0x00FF) OR push_bit 8 (v AND 0xFF)\<rparr>"
definition set_cl :: "int \<Rightarrow> registers \<Rightarrow> registers" where
  "set_cl v r = r\<lparr>cx := (cx r AND 0xFF00) OR (v AND 0xFF)\<rparr>"
definition set_ch :: "int \<Rightarrow> registers \<Rightarrow> registers" where
  "set_ch v r = r\<lparr>cx := (cx r AND 0x00FF) OR push_bit 8 (v AND 0xFF)\<rparr>"
definition set_dl :: "int \<Rightarrow> registers \<Rightarrow> registers" where
  "set_dl v r = r\<lparr>dx := (dx r AND 0xFF00) OR (v AND 0xFF)\<rparr>"
definition set_dh :: "int \<Rightarrow> registers \<Rightarrow> registers" where
  "set_dh v r = r\<lparr>dx := (dx r AND 0x00FF) OR push_bit 8 (v AND 0xFF)\<rparr>"

text \<open>this.reg.getFlag and this.reg.setFlag, called on the interpreter's registers.\<close>

definition cpu_getFlag :: "cpu \<Rightarrow> int \<Rightarrow> bool" where
  "cpu_getFlag c b = getFlag (flags (reg c)) b"

definition cpu_setFlag :: "int \<Rightarrow> bool \<Rightarrow> cpu \<Rightarrow> cpu" where
  "cpu_setFlag b v c = c\<lparr>reg := (reg c)\<lparr>flags := setFlag (flags (reg c)) b v\<rparr>\<rparr>"

subsection \<open>Fetch and stack (fetchByte, fetchWord, fetchSByte, fetchSWord, push, pop)\<close>

definition fetchByte :: "cpu \<Rightarrow> int \<times> cpu" where
  "fetchByte c =
     (let addr = segmented (cs (reg c)) (ip (reg c));
          val = read8 (mem c) addr
      in (val, c\<lparr>reg := (reg c)\<lparr>ip := (ip (reg c) + 1) AND 0xFFFF\<rparr>\<rparr>))"

definition fetchWord :: "cpu \<Rightarrow> int \<times> cpu" where
  "fetchWord c =
     (let (lo, c1) = fetchByte c; (hi, c2) = fetchByte c1
      in (lo OR push_bit 8 hi, c2))"

definition fetchSByte :: "cpu \<Rightarrow> int \<times> cpu" where
  "fetchSByte c = (let (v, c1) = fetchByte c in (if v \<ge> 0x80 then v - 0x100 else v, c1))"

definition fetchSWord :: "cpu \<Rightarrow> int \<times> cpu" where
  "fetchSWord c = (let (v, c1) = fetchWord c in (if v \<ge> 0x8000 then v - 0x10000 else v, c1))"

definition push :: "int \<Rightarrow> cpu \<Rightarrow> cpu" where
  "push val c =
     (let sp' = (sp (reg c) - 2) AND 0xFFFF
      in c\<lparr>reg := (reg c)\<lparr>sp := sp'\<rparr>,
            mem := write16 (mem c) (segmented (ss (reg c)) sp') (val AND 0xFFFF)\<rparr>)"

definition pop :: "cpu \<Rightarrow> int \<times> cpu" where
  "pop c =
     (let val = read16 (mem c) (segmented (ss (reg c)) (sp (reg c)))
      in (val, c\<lparr>reg := (reg c)\<lparr>sp := (sp (reg c) + 2) AND 0xFFFF\<rparr>\<rparr>))"

text \<open>resolveSeg, segAddr: the segment override replaces the default segment.\<close>

definition resolveSeg :: "cpu \<Rightarrow> int \<Rightarrow> int" where
  "resolveSeg c defaultSeg = (case segOverride c of None \<Rightarrow> defaultSeg | Some s \<Rightarrow> s)"

definition segAddr :: "cpu \<Rightarrow> int \<Rightarrow> int \<Rightarrow> int" where
  "segAddr c defaultSeg off = segmented (resolveSeg c defaultSeg) off"

subsection \<open>Subtraction with flags (sub8, sub16)\<close>

text \<open>
  sub8(a, b, borrow) and sub16 write CF, OF, AF, ZF, SF and PF of this.reg.flags and return
  the masked difference; they take and return the flags word.
\<close>

definition sub8 :: "int \<Rightarrow> int \<Rightarrow> int \<Rightarrow> int \<Rightarrow> int \<times> int" where
  "sub8 a0 b0 borrow fl =
     (let a = a0 AND 0xFF; b = b0 AND 0xFF; r = a - b - borrow;
          fl1 = setFlag fl FLAGS_CF (r < 0);
          fl2 = setFlag fl1 FLAGS_OF ((((a XOR b) AND (a XOR (r AND 0xFF))) AND 0x80) \<noteq> 0);
          fl3 = setFlag fl2 FLAGS_AF ((((a XOR b) XOR (r AND 0xFF)) AND 0x10) \<noteq> 0)
      in (r AND 0xFF, updateZSP8 fl3 r))"

definition sub16 :: "int \<Rightarrow> int \<Rightarrow> int \<Rightarrow> int \<Rightarrow> int \<times> int" where
  "sub16 a0 b0 borrow fl =
     (let a = a0 AND 0xFFFF; b = b0 AND 0xFFFF; r = a - b - borrow;
          fl1 = setFlag fl FLAGS_CF (r < 0);
          fl2 = setFlag fl1 FLAGS_OF ((((a XOR b) AND (a XOR (r AND 0xFFFF))) AND 0x8000) \<noteq> 0);
          fl3 = setFlag fl2 FLAGS_AF ((((a XOR b) XOR (r AND 0xFFFF)) AND 0x10) \<noteq> 0)
      in (r AND 0xFFFF, updateZSP16 fl3 r))"

subsection \<open>String instructions and the repeat loop (strStep, siDir, opcodes A4-A7, AA-AF)\<close>

text \<open>
  Each of the ten string opcodes passes a closure to strStep; the closures are the
  constructors of strop and str_body is what each closure does. sets_zf is the value the
  opcode's case assigns to this._lastStrOpSetsZF before it calls strStep.
\<close>

datatype strop = MOVSB | MOVSW | CMPSB | CMPSW | STOSB | STOSW | LODSB | LODSW | SCASB | SCASW

definition siDir :: "cpu \<Rightarrow> int" where
  "siDir c = (if cpu_getFlag c FLAGS_DF then - 1 else 1)"

fun sets_zf :: "strop \<Rightarrow> bool" where
  "sets_zf MOVSB = False"
| "sets_zf MOVSW = False"
| "sets_zf CMPSB = True"
| "sets_zf CMPSW = True"
| "sets_zf STOSB = False"
| "sets_zf STOSW = False"
| "sets_zf LODSB = False"
| "sets_zf LODSW = False"
| "sets_zf SCASB = True"
| "sets_zf SCASW = True"

fun str_body :: "strop \<Rightarrow> cpu \<Rightarrow> cpu" where
  "str_body MOVSB c =
     (let r = reg c;
          v = read8 (mem c) (segAddr c (ds r) (si r));
          m = write8 (mem c) (segmented (es r) (di r)) v;
          d = siDir c
      in c\<lparr>mem := m, reg := r\<lparr>si := (si r + d) AND 0xFFFF, di := (di r + d) AND 0xFFFF\<rparr>\<rparr>)"
| "str_body MOVSW c =
     (let r = reg c;
          v = read16 (mem c) (segAddr c (ds r) (si r));
          m = write16 (mem c) (segmented (es r) (di r)) v;
          d = siDir c * 2
      in c\<lparr>mem := m, reg := r\<lparr>si := (si r + d) AND 0xFFFF, di := (di r + d) AND 0xFFFF\<rparr>\<rparr>)"
| "str_body CMPSB c =
     (let r = reg c;
          a = read8 (mem c) (segAddr c (ds r) (si r));
          b = read8 (mem c) (segmented (es r) (di r));
          fl = snd (sub8 a b 0 (flags r));
          d = siDir (c\<lparr>reg := r\<lparr>flags := fl\<rparr>\<rparr>)
      in c\<lparr>reg := r\<lparr>flags := fl, si := (si r + d) AND 0xFFFF, di := (di r + d) AND 0xFFFF\<rparr>\<rparr>)"
| "str_body CMPSW c =
     (let r = reg c;
          a = read16 (mem c) (segAddr c (ds r) (si r));
          b = read16 (mem c) (segmented (es r) (di r));
          fl = snd (sub16 a b 0 (flags r));
          d = siDir (c\<lparr>reg := r\<lparr>flags := fl\<rparr>\<rparr>) * 2
      in c\<lparr>reg := r\<lparr>flags := fl, si := (si r + d) AND 0xFFFF, di := (di r + d) AND 0xFFFF\<rparr>\<rparr>)"
| "str_body STOSB c =
     (let r = reg c;
          m = write8 (mem c) (segmented (es r) (di r)) (get_al r)
      in c\<lparr>mem := m, reg := r\<lparr>di := (di r + siDir c) AND 0xFFFF\<rparr>\<rparr>)"
| "str_body STOSW c =
     (let r = reg c;
          m = write16 (mem c) (segmented (es r) (di r)) (ax r)
      in c\<lparr>mem := m, reg := r\<lparr>di := (di r + siDir c * 2) AND 0xFFFF\<rparr>\<rparr>)"
| "str_body LODSB c =
     (let r = reg c;
          r1 = set_al (read8 (mem c) (segAddr c (ds r) (si r))) r
      in c\<lparr>reg := r1\<lparr>si := (si r1 + siDir c) AND 0xFFFF\<rparr>\<rparr>)"
| "str_body LODSW c =
     (let r = reg c;
          r1 = r\<lparr>ax := read16 (mem c) (segAddr c (ds r) (si r))\<rparr>
      in c\<lparr>reg := r1\<lparr>si := (si r1 + siDir c * 2) AND 0xFFFF\<rparr>\<rparr>)"
| "str_body SCASB c =
     (let r = reg c;
          b = read8 (mem c) (segmented (es r) (di r));
          fl = snd (sub8 (get_al r) b 0 (flags r))
      in c\<lparr>reg := r\<lparr>flags := fl, di := (di r + siDir (c\<lparr>reg := r\<lparr>flags := fl\<rparr>\<rparr>)) AND 0xFFFF\<rparr>\<rparr>)"
| "str_body SCASW c =
     (let r = reg c;
          b = read16 (mem c) (segmented (es r) (di r));
          fl = snd (sub16 (ax r) b 0 (flags r))
      in c\<lparr>reg := r\<lparr>flags := fl, di := (di r + siDir (c\<lparr>reg := r\<lparr>flags := fl\<rparr>\<rparr>) * 2) AND 0xFFFF\<rparr>\<rparr>)"

lemma cx_str_body: "cx (reg (str_body op c)) = cx (reg c)"
  by (cases op) (simp_all add: Let_def set_al_def)

lemma and_FFFF_mod: "(x :: int) AND 0xFFFF = x mod 65536"
proof -
  have "x AND mask 16 = x mod 2 ^ 16"
    by (simp only: take_bit_eq_mask [symmetric] take_bit_eq_mod)
  then show ?thesis
    by (simp add: mask_eq_exp_minus_1)
qed

text \<open>
  The while loop of strStep for a repeat prefix rep: while (cx !== 0) { op(); cx = (cx - 1)
  & 0xFFFF; if (rep === 'REPNE' && ZF) break; if (rep === 'REP' && !ZF &&
  _lastStrOpSetsZF) break; }. It ends because cx, once masked, only goes down.
\<close>

function strLoop :: "rep_prefix \<Rightarrow> strop \<Rightarrow> cpu \<Rightarrow> cpu" where
  "strLoop rep op c =
     (if cx (reg c) = 0 then c
      else
        (let c1 = str_body op c;
             c2 = c1\<lparr>reg := (reg c1)\<lparr>cx := (cx (reg c1) - 1) AND 0xFFFF\<rparr>\<rparr>
         in if rep = REPNE \<and> cpu_getFlag c2 FLAGS_ZF then c2
            else if rep = REP \<and> \<not> cpu_getFlag c2 FLAGS_ZF \<and> lastStrOpSetsZF c2 then c2
            else strLoop rep op c2))"
  by pat_completeness auto
termination
proof (relation "measure (\<lambda>(rep, op, c). if 0 \<le> cx (reg c) \<and> cx (reg c) < 65536 then nat (cx (reg c)) else 65536)")
  show "wf (measure (\<lambda>(rep, op, c). if 0 \<le> cx (reg c) \<and> cx (reg c) < 65536 then nat (cx (reg c)) else 65536))"
    by simp
next
  fix rep :: rep_prefix and op :: strop and c x xa :: cpu
  assume nz: "cx (reg c) \<noteq> 0" and x: "x = str_body op c"
    and xa: "xa = x\<lparr>reg := (reg x)\<lparr>cx := (cx (reg x) - 1) AND 0xFFFF\<rparr>\<rparr>"
  have "cx (reg xa) = (cx (reg c) - 1) mod 65536"
    by (simp add: xa x cx_str_body and_FFFF_mod)
  with nz show "((rep, op, xa), (rep, op, c))
      \<in> measure (\<lambda>(rep, op, c). if 0 \<le> cx (reg c) \<and> cx (reg c) < 65536 then nat (cx (reg c)) else 65536)"
    by (auto simp add: pos_mod_bound mod_pos_pos_trivial zmod_trivial_iff intro: nat_less_iff)
qed

text \<open>
  strStep(op): without a prefix one run of the closure, otherwise the loop; then both
  prefixes are cleared. str_case is the body of the opcode's case in the switch of _step:
  it assigns _lastStrOpSetsZF and calls strStep.
\<close>

definition strStep :: "strop \<Rightarrow> cpu \<Rightarrow> cpu" where
  "strStep op c =
     (let c1 = (case repPrefix c of None \<Rightarrow> str_body op c | Some rep \<Rightarrow> strLoop rep op c)
      in c1\<lparr>repPrefix := None, segOverride := None\<rparr>)"

definition str_case :: "strop \<Rightarrow> cpu \<Rightarrow> cpu" where
  "str_case op c = strStep op (c\<lparr>lastStrOpSetsZF := sets_zf op\<rparr>)"

subsection \<open>Interrupts (doInterrupt, opcodes CC, CD, CE, CF, 9D, 9E)\<close>

text \<open>
  this.interruptHandlers is a Map from the vector number to a JavaScript closure that
  works on the interpreter; here a handler is a function on the state and the table is a
  parameter of everything that raises an interrupt.
\<close>

type_synonym handlers = "int \<Rightarrow> (cpu \<Rightarrow> cpu) option"

definition doInterrupt :: "handlers \<Rightarrow> int \<Rightarrow> cpu \<Rightarrow> cpu" where
  "doInterrupt H vector c =
     (case H vector of
        Some handler \<Rightarrow>
          (let c0 = handler c in
           if halted c0 then
             (let (v1, c1) = pop c0; (v2, c2) = pop c1; (v3, c3) = pop c2
              in c3\<lparr>reg := (reg c3)\<lparr>flags := v3\<rparr>\<rparr>)
           else
             (let (v1, c1) = pop c0;
                  c1a = c1\<lparr>reg := (reg c1)\<lparr>ip := v1\<rparr>\<rparr>;
                  (v2, c2) = pop c1a;
                  c2a = c2\<lparr>reg := (reg c2)\<lparr>cs := v2\<rparr>\<rparr>;
                  (v3, c3) = pop c2a
              in c3\<lparr>reg := (reg c3)\<lparr>flags := v3\<rparr>\<rparr>))
      | None \<Rightarrow>
          (let ip' = read16 (mem c) (vector * 4);
               cs' = read16 (mem c) (vector * 4 + 2)
           in c\<lparr>reg := (reg c)\<lparr>cs := cs', ip := ip'\<rparr>\<rparr>))"

text \<open>
  The cases of the switch in _step, each as the state change made after the opcode byte
  has been fetched. case 0xCC (INT 3), case 0xCD (INT n), case 0xCE (INTO), case 0xCF
  (IRET), case 0x9D (POPF), case 0x9E (SAHF), case 0xF4 (HLT).
\<close>

definition op_CC :: "handlers \<Rightarrow> cpu \<Rightarrow> cpu" where
  "op_CC H c =
     (let c1 = push (flags (reg c)) c;
          c2 = push (cs (reg c1)) c1;
          c3 = push (ip (reg c2)) c2;
          c4 = cpu_setFlag FLAGS_IF False c3
      in doInterrupt H 3 c4)"

definition op_CD :: "handlers \<Rightarrow> cpu \<Rightarrow> cpu" where
  "op_CD H c =
     (let (vec, c0) = fetchByte c;
          c1 = push (flags (reg c0)) c0;
          c2 = push (cs (reg c1)) c1;
          c3 = push (ip (reg c2)) c2;
          c4 = cpu_setFlag FLAGS_IF False c3
      in doInterrupt H vec c4)"

definition op_CE :: "handlers \<Rightarrow> cpu \<Rightarrow> cpu" where
  "op_CE H c =
     (if cpu_getFlag c FLAGS_OF then
        (let c1 = push (flags (reg c)) c;
             c2 = push (cs (reg c1)) c1;
             c3 = push (ip (reg c2)) c2
         in doInterrupt H 4 c3)
      else c)"

definition op_CF :: "cpu \<Rightarrow> cpu" where
  "op_CF c =
     (let (v1, c1) = pop c;
          c1a = c1\<lparr>reg := (reg c1)\<lparr>ip := v1\<rparr>\<rparr>;
          (v2, c2) = pop c1a;
          c2a = c2\<lparr>reg := (reg c2)\<lparr>cs := v2\<rparr>\<rparr>;
          (v3, c3) = pop c2a
      in c3\<lparr>reg := (reg c3)\<lparr>flags := (v3 AND 0x0FD5) OR 0x0002\<rparr>\<rparr>)"

definition op_9D :: "cpu \<Rightarrow> cpu" where
  "op_9D c = (let (v, c1) = pop c in c1\<lparr>reg := (reg c1)\<lparr>flags := (v AND 0x0FD5) OR 0x0002\<rparr>\<rparr>)"

definition op_9E :: "cpu \<Rightarrow> cpu" where
  "op_9E c =
     c\<lparr>reg := (reg c)\<lparr>flags := ((flags (reg c) AND 0xFF00) OR (get_ah (reg c) AND 0xD5)) OR 0x02\<rparr>\<rparr>"

definition op_F4 :: "cpu \<Rightarrow> cpu" where
  "op_F4 c = c\<lparr>halted := True, haltReason := ''hlt''\<rparr>"

subsection \<open>ModR/M operands (decodeModRM, getReg8, getReg16, calcEA, readRM8, readRM16)\<close>

definition decodeModRM :: "int \<Rightarrow> int \<times> int \<times> int" where
  "decodeModRM byte = (drop_bit 6 byte AND 0x3, drop_bit 3 byte AND 0x7, byte AND 0x7)"

definition getReg8 :: "int \<Rightarrow> registers \<Rightarrow> int" where
  "getReg8 n r =
     (if n = 0 then get_al r else if n = 1 then get_cl r else if n = 2 then get_dl r
      else if n = 3 then get_bl r else if n = 4 then get_ah r else if n = 5 then get_ch r
      else if n = 6 then get_dh r else if n = 7 then get_bh r else 0)"

definition getReg16 :: "int \<Rightarrow> registers \<Rightarrow> int" where
  "getReg16 n r =
     (if n = 0 then ax r else if n = 1 then cx r else if n = 2 then dx r
      else if n = 3 then bx r else if n = 4 then sp r else if n = 5 then bp r
      else if n = 6 then si r else if n = 7 then di r else 0)"

text \<open>
  calcEA(mod, rm): the base and default segment by rm, then the displacement by mod; the
  address is cached in _lastEA. It returns the address and the state (the displacement
  bytes are fetched, so IP moves).
\<close>

definition calcEA :: "int \<Rightarrow> int \<Rightarrow> cpu \<Rightarrow> int \<times> cpu" where
  "calcEA md rm c =
     (let r = reg c;
          (base, defaultSeg, c1) =
            (if rm = 0 then ((bx r + si r) AND 0xFFFF, ds r, c)
             else if rm = 1 then ((bx r + di r) AND 0xFFFF, ds r, c)
             else if rm = 2 then ((bp r + si r) AND 0xFFFF, ss r, c)
             else if rm = 3 then ((bp r + di r) AND 0xFFFF, ss r, c)
             else if rm = 4 then (si r, ds r, c)
             else if rm = 5 then (di r, ds r, c)
             else if rm = 6 then
               (if md = 0 then (let (w, c') = fetchWord c in (w, ds r, c')) else (bp r, ss r, c))
             else if rm = 7 then (bx r, ds r, c)
             else (0, ds r, c));
          (base2, c2) =
            (if md = 1 then (let (d, c') = fetchSByte c1 in ((base + d) AND 0xFFFF, c'))
             else if md = 2 then (let (d, c') = fetchSWord c1 in ((base + d) AND 0xFFFF, c'))
             else (base, c1));
          ea = segmented (resolveSeg c2 defaultSeg) base2
      in (ea, c2\<lparr>lastEA := ea, eaCached := True\<rparr>))"

definition readRM8 :: "int \<Rightarrow> int \<Rightarrow> cpu \<Rightarrow> int \<times> cpu" where
  "readRM8 md rm c =
     (if md = 3 then (getReg8 rm (reg c), c)
      else (let (ea, c1) = calcEA md rm c in (read8 (mem c1) ea, c1)))"

definition readRM16 :: "int \<Rightarrow> int \<Rightarrow> cpu \<Rightarrow> int \<times> cpu" where
  "readRM16 md rm c =
     (if md = 3 then (getReg16 rm (reg c), c)
      else (let (ea, c1) = calcEA md rm c in (read16 (mem c1) ea, c1)))"

subsection \<open>DIV and IDIV (opcodes F6 and F7, sub-opcodes 6 and 7)\<close>

text \<open>
  toSigned8, toSigned16, toSigned32 as in the source. Math.trunc(a / b) and a % b are
  JavaScript's division with truncation towards zero and its remainder (the sign of the
  dividend); Math.floor(a / b) is div. The quotients are computed in double precision in
  the source; for the dividends below 2^32 and divisors below 2^16 met here the rounded
  quotient has the same integer part as the exact one.
\<close>

definition toSigned8 :: "int \<Rightarrow> int" where
  "toSigned8 v = (if v \<ge> 0x80 then v - 0x100 else v)"

definition toSigned16 :: "int \<Rightarrow> int" where
  "toSigned16 v = (if v \<ge> 0x8000 then v - 0x10000 else v)"

definition toSigned32 :: "int \<Rightarrow> int" where
  "toSigned32 v = (if v \<ge> 0x80000000 then v - 0x100000000 else v)"

definition js_trunc_div :: "int \<Rightarrow> int \<Rightarrow> int" where
  "js_trunc_div a b = sgn a * sgn b * (\<bar>a\<bar> div \<bar>b\<bar>)"

definition js_rem :: "int \<Rightarrow> int \<Rightarrow> int" where
  "js_rem a b = a - b * js_trunc_div a b"

text \<open>
  case 0xF6 and case 0xF7 of _step, after the opcode byte: the ModR/M byte is fetched, the
  operand read, and the sub-opcode selects the operation. Sub-opcodes 6 (DIV) and 7 (IDIV)
  are modelled; for the others (TEST, NOT, NEG, MUL, IMUL) the result is None, which
  stands for an instruction outside this development.
\<close>

definition op_F6 :: "handlers \<Rightarrow> cpu \<Rightarrow> cpu option" where
  "op_F6 H c =
     (let (b, c1) = fetchByte c;
          (md, op, rm) = decodeModRM b;
          (a, c2) = readRM8 md rm c1
      in if op = 6 then
           (if a = 0 then Some (doInterrupt H 0 c2)
            else
              (let dividend6 = ax (reg c2); q = dividend6 div a
               in if q > 0xFF then Some (doInterrupt H 0 c2)
                  else Some (c2\<lparr>reg := set_ah (js_rem dividend6 a AND 0xFF) (set_al (q AND 0xFF) (reg c2))\<rparr>)))
         else if op = 7 then
           (if a = 0 then Some (doInterrupt H 0 c2)
            else
              (let dividend = toSigned16 (ax (reg c2)); divisor = toSigned8 a;
                   q = js_trunc_div dividend divisor
               in if q < - 128 \<or> q > 127 then Some (doInterrupt H 0 c2)
                  else Some (c2\<lparr>reg := set_ah (js_rem dividend divisor AND 0xFF) (set_al (q AND 0xFF) (reg c2))\<rparr>)))
         else None)"

definition op_F7 :: "handlers \<Rightarrow> cpu \<Rightarrow> cpu option" where
  "op_F7 H c =
     (let (b, c1) = fetchByte c;
          (md, op, rm) = decodeModRM b;
          (a, c2) = readRM16 md rm c1
      in if op = 6 then
           (if a = 0 then Some (doInterrupt H 0 c2)
            else
              (let dividend = dx (reg c2) * 0x10000 + ax (reg c2); q = dividend div a
               in if q > 0xFFFF then Some (doInterrupt H 0 c2)
                  else Some (c2\<lparr>reg := (reg c2)\<lparr>ax := q AND 0xFFFF, dx := js_rem dividend a AND 0xFFFF\<rparr>\<rparr>)))
         else if op = 7 then
           (if a = 0 then Some (doInterrupt H 0 c2)
            else
              (let dividend = toSigned32 (dx (reg c2) * 0x10000 + ax (reg c2));
                   divisor = toSigned16 a;
                   q = js_trunc_div dividend divisor
               in if q < - 32768 \<or> q > 32767 then Some (doInterrupt H 0 c2)
                  else Some (c2\<lparr>reg := (reg c2)\<lparr>ax := q AND 0xFFFF, dx := js_rem dividend divisor AND 0xFFFF\<rparr>\<rparr>)))
         else None)"

subsection \<open>BIOS services (registerBiosHandlers: INT 13h, INT 16h, INT 19h)\<close>

text \<open>
  The closure registered for INT 16h (keyboard). The switch is on the value of AH at entry.
  biosKeyBuffer.shift() takes the first key of the buffer.
\<close>

definition int16_handler :: "cpu \<Rightarrow> cpu" where
  "int16_handler c =
     (let r = reg c; ah = get_ah r in
      if ah = 0x00 \<or> ah = 0x10 then
        (case biosKeyBuffer c of
           key # rest \<Rightarrow>
             c\<lparr>biosKeyBuffer := rest,
               reg := set_al (key AND 0xFF) (set_ah (drop_bit 8 key AND 0xFF) r)\<rparr>
         | [] \<Rightarrow>
             c\<lparr>reg := r\<lparr>ip := (ip r - 2) AND 0xFFFF\<rparr>, halted := True, haltReason := ''key_wait''\<rparr>)
      else if ah = 0x01 \<or> ah = 0x11 then
        (case biosKeyBuffer c of
           key # rest \<Rightarrow>
             cpu_setFlag FLAGS_ZF False
               (c\<lparr>reg := set_al (key AND 0xFF) (set_ah (drop_bit 8 key AND 0xFF) r)\<rparr>)
         | [] \<Rightarrow> cpu_setFlag FLAGS_ZF True c)
      else if ah = 0x02 then c\<lparr>reg := set_al 0 r\<rparr>
      else c)"

text \<open>
  The closure registered for INT 13h (disk). this.diskReadHandler is a host callback
  (drive, lba, count, bufAddr) that may write guest memory and answers whether the read
  succeeded; no file of the repository assigns it, so it is an optional parameter here.
\<close>

type_synonym disk_read_handler = "int \<Rightarrow> int \<Rightarrow> int \<Rightarrow> int \<Rightarrow> cpu \<Rightarrow> bool \<times> cpu"

definition int13_handler :: "disk_read_handler option \<Rightarrow> cpu \<Rightarrow> cpu" where
  "int13_handler drh c =
     (let r = reg c; ah = get_ah r in
      if ah = 0x00 then cpu_setFlag FLAGS_CF False (c\<lparr>reg := set_ah 0x00 r\<rparr>)
      else if ah = 0x02 then
        (let drive = get_dl r; head = get_dh r;
             cyl = get_ch r OR push_bit 2 (get_cl r AND 0xC0);
             sector = get_cl r AND 0x3F;
             count = get_al r;
             bufAddr = segmented (es r) (bx r);
             lba = (cyl * 2 + head) * 18 + (sector - 1)
         in case drh of
              Some h \<Rightarrow>
                (let (ok, c1) = h drive lba count bufAddr c;
                     c2 = c1\<lparr>reg := set_ah (if ok then 0x00 else 0x04) (reg c1)\<rparr>;
                     c3 = cpu_setFlag FLAGS_CF (\<not> ok) c2
                 in if ok then c3\<lparr>reg := set_al count (reg c3)\<rparr> else c3)
            | None \<Rightarrow> cpu_setFlag FLAGS_CF True (c\<lparr>reg := set_ah 0x80 r\<rparr>))
      else if ah = 0x08 then
        (let drive = get_dl r in
         if drive = 0x00 then
           cpu_setFlag FLAGS_CF False
             (c\<lparr>reg := set_dl 1 (set_dh 1 (set_cl 18 (set_ch 79 (set_bl 4 (set_ah 0 r)))))\<rparr>)
         else if drive = 0x80 then
           cpu_setFlag FLAGS_CF True
             (c\<lparr>reg := set_dl 0 (set_dh 0 (set_cl 0 (set_ch 0 (set_ah 0 r))))\<rparr>)
         else cpu_setFlag FLAGS_CF True (c\<lparr>reg := set_ah 0x01 r\<rparr>))
      else if ah = 0x15 then cpu_setFlag FLAGS_CF False (c\<lparr>reg := set_ah 0x01 r\<rparr>)
      else cpu_setFlag FLAGS_CF True (c\<lparr>reg := set_ah 0x01 r\<rparr>))"

text \<open>
  The closure registered for INT 19h (bootstrap). It loads the registers for a one-sector
  read, calls this.doInterrupt(0x13) and, when CF is clear afterwards, sets CS:IP to
  0000:7C00. The table H is the interpreter's handler table, in which the inner
  doInterrupt looks vector 13h up.
\<close>

definition int19_handler :: "handlers \<Rightarrow> cpu \<Rightarrow> cpu" where
  "int19_handler H c =
     (let r1 = set_dh 0x00 (set_cl 0x01 (set_ch 0x00 (set_al 0x01 (set_ah 0x02 (set_dl 0x00 (reg c))))));
          c1 = c\<lparr>reg := r1\<lparr>es := 0x0000, bx := 0x7C00\<rparr>\<rparr>;
          c2 = doInterrupt H 0x13 c1
      in if \<not> cpu_getFlag c2 FLAGS_CF
         then c2\<lparr>reg := set_dl 0x00 ((reg c2)\<lparr>cs := 0x0000, ip := 0x7C00\<rparr>)\<rparr>
         else c2)"

text \<open>
  The entries of the table that registerBiosHandlers builds for the vectors 13h, 16h and
  19h. The closure of 19h looks 13h up in the same table; that lookup is written out. The
  other vectors registerBiosHandlers fills (10h, 21h, ...) are outside this development
  and no statement below raises them.
\<close>

definition disk_handlers :: "disk_read_handler option \<Rightarrow> handlers" where
  "disk_handlers drh = (\<lambda>v. if v = 0x13 then Some (int13_handler drh) else None)"

definition bios_handlers :: "disk_read_handler option \<Rightarrow> handlers" where
  "bios_handlers drh =
     (\<lambda>v. if v = 0x13 then Some (int13_handler drh)
          else if v = 0x16 then Some int16_handler
          else if v = 0x19 then Some (int19_handler (disk_handlers drh))
          else None)"

subsection \<open>One instruction (step, _step)\<close>

text \<open>
  exec_op is the switch of _step for the opcodes modelled above; None stands for an opcode
  outside this development. priv_step is _step: it fetches the opcode, clears _eaCached,
  and for a prefix opcode records the prefix and decodes the next byte. A chain of prefix
  bytes that never ends makes the source recurse for ever; the recursion is a partial
  function whose value is then None.
\<close>

definition exec_op :: "handlers \<Rightarrow> int \<Rightarrow> cpu \<Rightarrow> cpu option" where
  "exec_op H opcode c =
     (if opcode = 0x9D then Some (op_9D c)
      else if opcode = 0x9E then Some (op_9E c)
      else if opcode = 0xA4 then Some (str_case MOVSB c)
      else if opcode = 0xA5 then Some (str_case MOVSW c)
      else if opcode = 0xA6 then Some (str_case CMPSB c)
      else if opcode = 0xA7 then Some (str_case CMPSW c)
      else if opcode = 0xAA then Some (str_case STOSB c)
      else if opcode = 0xAB then Some (str_case STOSW c)
      else if opcode = 0xAC then Some (str_case LODSB c)
      else if opcode = 0xAD then Some (str_case LODSW c)
      else if opcode = 0xAE then Some (str_case SCASB c)
      else if opcode = 0xAF then Some (str_case SCASW c)
      else if opcode = 0xCC then Some (op_CC H c)
      else if opcode = 0xCD then Some (op_CD H c)
      else if opcode = 0xCE then Some (op_CE H c)
      else if opcode = 0xCF then Some (op_CF c)
      else if opcode = 0xF4 then Some (op_F4 c)
      else if opcode = 0xF6 then op_F6 H c
      else if opcode = 0xF7 then op_F7 H c
      else None)"

partial_function (option) priv_step :: "handlers \<Rightarrow> cpu \<Rightarrow> cpu option" where
  "priv_step H c =
     (let c2 = (snd (fetchByte c))\<lparr>eaCached := False\<rparr>; opcode = fst (fetchByte c) in
      if opcode = 0x26 then priv_step H (c2\<lparr>segOverride := Some (es (reg c2))\<rparr>)
      else if opcode = 0x2E then priv_step H (c2\<lparr>segOverride := Some (cs (reg c2))\<rparr>)
      else if opcode = 0x36 then priv_step H (c2\<lparr>segOverride := Some (ss (reg c2))\<rparr>)
      else if opcode = 0x3E then priv_step H (c2\<lparr>segOverride := Some (ds (reg c2))\<rparr>)
      else if opcode = 0x64 then priv_step H (c2\<lparr>segOverride := Some (fs (reg c2))\<rparr>)
      else if opcode = 0x65 then priv_step H (c2\<lparr>segOverride := Some (gs (reg c2))\<rparr>)
      else if opcode = 0xF0 then priv_step H c2
      else if opcode = 0xF2 then priv_step H (c2\<lparr>repPrefix := Some REPNE\<rparr>)
      else if opcode = 0xF3 then priv_step H (c2\<lparr>repPrefix := Some REP\<rparr>)
      else exec_op H opcode c2)"

text \<open>
  step(): nothing when halted; one tick of a pending INT 15h wait; otherwise both prefixes
  are cleared and _step runs. (The boolean that step returns, !this.halted, can be read
  off the state.)
\<close>

definition step :: "handlers \<Rightarrow> cpu \<Rightarrow> cpu option" where
  "step H c =
     (if halted c then Some c
      else if waitCycles c > 0 then Some (c\<lparr>waitCycles := waitCycles c - 1\<rparr>)
      else priv_step H (c\<lparr>segOverride := None, repPrefix := None\<rparr>))"

subsection \<open>Vocabulary of the statements about interrupts and division\<close>

text \<open>
  int_frame_bytes c: the six byte addresses that three pushes starting from the stack
  pointer of c write (the frame of an INT).
\<close>

definition int_frame_bytes :: "cpu \<Rightarrow> int set" where
  "int_frame_bytes c =
     (let a1 = segmented (ss (reg c)) ((sp (reg c) - 2) AND 0xFFFF);
          a2 = segmented (ss (reg c)) ((sp (reg c) - 4) AND 0xFFFF);
          a3 = segmented (ss (reg c)) ((sp (reg c) - 6) AND 0xFFFF)
      in {a1, (a1 + 1) AND 0xFFFFF, a2, (a2 + 1) AND 0xFFFFF, a3, (a3 + 1) AND 0xFFFFF})"



text \<open>
  The operands on which a division traps: a zero divisor, or a quotient that does not fit
  the destination (8 or 16 bits, unsigned for DIV, two's complement for IDIV). a is the
  r/m operand, r the registers holding the dividend.
\<close>

definition div8_traps :: "int \<Rightarrow> registers \<Rightarrow> bool" where
  "div8_traps a r = (a = 0 \<or> ax r div a > 0xFF)"

definition idiv8_traps :: "int \<Rightarrow> registers \<Rightarrow> bool" where
  "idiv8_traps a r =
     (a = 0 \<or> js_trunc_div (toSigned16 (ax r)) (toSigned8 a) < - 128
            \<or> js_trunc_div (toSigned16 (ax r)) (toSigned8 a) > 127)"

definition div16_traps :: "int \<Rightarrow> registers \<Rightarrow> bool" where
  "div16_traps a r = (a = 0 \<or> (dx r * 0x10000 + ax r) div a > 0xFFFF)"

definition idiv16_traps :: "int \<Rightarrow> registers \<Rightarrow> bool" where
  "idiv16_traps a r =
     (a = 0 \<or> js_trunc_div (toSigned32 (dx r * 0x10000 + ax r)) (toSigned16 a) < - 32768
            \<or> js_trunc_div (toSigned32 (dx r * 0x10000 + ax r)) (toSigned16 a) > 32767)"

text \<open>
  int0_taken c c': from c the instruction ended in c' with AX and DX as they were, halted
  as it was, and CS:IP loaded from entry 0 of the interrupt vector table.
\<close>

definition int0_taken :: "cpu \<Rightarrow> cpu \<Rightarrow> bool" where
  "int0_taken c c' =
     (ax (reg c') = ax (reg c) \<and> dx (reg c') = dx (reg c) \<and> halted c' = halted c
      \<and> cs (reg c') = read16 (mem c) 2 \<and> ip (reg c') = read16 (mem c) 0)"

subsection \<open>Concrete machines used in the examples\<close>

text \<open>
  After reset (CS:IP = F000:FFF0, SS:SP = 0000:FFFE, flags 0x0002), with a few bytes of
  memory set and the rest zero.
  repne_movsb_state: F2 A4 (REPNE MOVSB) at CS:IP, CX = 2, SI = 0x100, DI = 0x200, ZF set.
\<close>

definition repne_movsb_state :: cpu where
  "repne_movsb_state =
     (new_CPU8086 ((\<lambda>a. 0)(0xFFFF0 := 0xF2, 0xFFFF1 := 0xA4, 0x100 := 0x41, 0x101 := 0x42)))
       \<lparr>reg := new_Registers\<lparr>cx := 2, si := 0x100, di := 0x200, flags := 0x0042\<rparr>\<rparr>"

text \<open>int19_state: CD 19 (INT 19h) at CS:IP.\<close>

definition int19_state :: cpu where
  "int19_state = new_CPU8086 ((\<lambda>a. 0)(0xFFFF0 := 0xCD, 0xFFFF1 := 0x19))"




definition int16_overlap_state :: cpu where
  "int16_overlap_state =
     (new_CPU8086 ((\<lambda>a. 0)(0xFFFF0 := 0xCD, 0xFFFF1 := 0x16)))
       \<lparr>reg := new_Registers\<lparr>ss := 0xF000, sp := 0xFFF2\<rparr>\<rparr>"

text \<open>
  int16_state ah: CD 16 (INT 16h) at CS:IP with AH = ah and an empty key buffer.
  after_opcode c: the state once the opcode byte has been fetched.
\<close>

definition int16_state :: "int \<Rightarrow> cpu" where
  "int16_state ah =
     (new_CPU8086 ((\<lambda>a. 0)(0xFFFF0 := 0xCD, 0xFFFF1 := 0x16)))
       \<lparr>reg := new_Registers\<lparr>ax := push_bit 8 ah\<rparr>\<rparr>"

definition after_opcode :: "cpu \<Rightarrow> cpu" where
  "after_opcode c = snd (fetchByte c)"

text \<open>
  div_zero_state: F6 F3 (DIV BL) at CS:IP with BX = 0 and AX = 0x1234; entry 0 of the vector
  table holds F000:FF00, as installBIOS writes it.
\<close>

definition div_zero_state :: cpu where
  "div_zero_state =
     (new_CPU8086 ((\<lambda>a. 0)(0xFFFF0 := 0xF6, 0xFFFF1 := 0xF3, 0 := 0x00, 1 := 0xFF, 2 := 0x00, 3 := 0xF0)))
       \<lparr>reg := new_Registers\<lparr>ax := 0x1234\<rparr>\<rparr>"

section \<open>The FAT12 volume (class FAT12Disk of src/msdos.js)\<close>

subsection \<open>Geometry, sector cache and backing store\<close>

text \<open>
  The definitions follow the class FAT12Disk at lines 5070-5318 of src/msdos.js, the one
  the specification describes; where the two older copies of the class (lines 5-330, and
  src/dist/msdos.js) differ in what is used below, they are given too.
  The shell's FAT12Disk keeps a 1.44 MB volume sector by sector: this._cache maps a sector
  number to a Uint8Array(512), this._dirty is the set of the sectors written since the last
  flush, and localStorage holds, under the key msdos_s<n>, the base64 text of sector n.
  Sector numbers, offsets, cluster numbers and bytes are natural numbers. A Uint8Array is the
  list of its bytes; the arrays of the cache are shared objects that w8 updates in place,
  which is an update of the cache entry here. The backing store maps n to the character
  codes of atob(localStorage.getItem('msdos_s' + n)); no entry stands for null.
  The constants are the fields that the constructor sets.
\<close>

definition SECTOR_SIZE :: nat where "SECTOR_SIZE = 512"
definition TOTAL_SECTORS :: nat where "TOTAL_SECTORS = 2880"
definition SECTORS_PER_FAT :: nat where "SECTORS_PER_FAT = 9"
definition NUM_FATS :: nat where "NUM_FATS = 2"
definition ROOT_ENTRY_COUNT :: nat where "ROOT_ENTRY_COUNT = 224"
definition SECTORS_PER_CLUSTER :: nat where "SECTORS_PER_CLUSTER = 1"
definition RESERVED_SECTORS :: nat where "RESERVED_SECTORS = 1"
definition FAT1_START :: nat where "FAT1_START = 1"
definition FAT2_START :: nat where "FAT2_START = 1 + SECTORS_PER_FAT"
definition ROOT_START :: nat where "ROOT_START = 1 + SECTORS_PER_FAT * 2"

text \<open>ROOT_SECTORS = Math.ceil(ROOT_ENTRY_COUNT * 32 / SECTOR_SIZE).\<close>

definition ROOT_SECTORS :: nat where
  "ROOT_SECTORS = (ROOT_ENTRY_COUNT * 32 + SECTOR_SIZE - 1) div SECTOR_SIZE"

definition DATA_START :: nat where "DATA_START = ROOT_START + ROOT_SECTORS"

record disk =
  cache :: "nat \<rightharpoonup> nat list"
  dirty :: "nat set"
  store :: "nat \<rightharpoonup> nat list"

text \<open>The constructor: an empty cache and dirty set, over the localStorage given.\<close>

definition new_FAT12Disk :: "(nat \<rightharpoonup> nat list) \<Rightarrow> disk" where
  "new_FAT12Disk st = \<lparr>cache = Map.empty, dirty = {}, store = st\<rparr>"

text \<open>
  load_sector bin: const arr = new Uint8Array(512); for (i < 512) arr[i] = bin.charCodeAt(i).
  Past the end of bin, charCodeAt gives NaN, which a Uint8Array stores as 0.
\<close>

definition load_sector :: "nat list \<Rightarrow> nat list" where
  "load_sector bin = map (\<lambda>i. if i < length bin then (bin ! i) mod 256 else 0) [0..<512]"

text \<open>
  _sec(n): the cached array of sector n; a sector that is not cached is first loaded from
  localStorage (an absent or empty item gives 512 zero bytes) and entered into the cache.
  So a read changes the cache.
\<close>

definition priv_sec :: "disk \<Rightarrow> nat \<Rightarrow> nat list \<times> disk" where
  "priv_sec d n =
     (case cache d n of
        Some a \<Rightarrow> (a, d)
      | None \<Rightarrow>
          (let a = (case store d n of
                      None \<Rightarrow> replicate 512 0
                    | Some bin \<Rightarrow> if bin = [] then replicate 512 0 else load_sector bin)
           in (a, d\<lparr>cache := (cache d)(n \<mapsto> a)\<rparr>)))"

text \<open>
  r8, w8, r16, w16, r32, w32. Every call of r8 and w8 in the class passes an offset below
  512. w8 stores v & 0xFF and adds the sector to the dirty set. r32 ends with >>> 0, the
  value as an unsigned 32-bit number.
\<close>

definition r8 :: "disk \<Rightarrow> nat \<Rightarrow> nat \<Rightarrow> nat \<times> disk" where
  "r8 d s ofs = (case priv_sec d s of (a, d1) \<Rightarrow> (a ! ofs, d1))"

definition w8 :: "disk \<Rightarrow> nat \<Rightarrow> nat \<Rightarrow> nat \<Rightarrow> disk" where
  "w8 d s ofs v =
     (case priv_sec d s of (a, d1) \<Rightarrow>
        d1\<lparr>cache := (cache d1)(s \<mapsto> a[ofs := v AND 0xFF]), dirty := insert s (dirty d1)\<rparr>)"

definition r16 :: "disk \<Rightarrow> nat \<Rightarrow> nat \<Rightarrow> nat \<times> disk" where
  "r16 d s ofs =
     (case r8 d s ofs of (lo, d1) \<Rightarrow>
      case r8 d1 s (ofs + 1) of (hi, d2) \<Rightarrow> (lo OR push_bit 8 hi, d2))"

definition w16 :: "disk \<Rightarrow> nat \<Rightarrow> nat \<Rightarrow> nat \<Rightarrow> disk" where
  "w16 d s ofs v = w8 (w8 d s ofs (v AND 0xFF)) s (ofs + 1) ((drop_bit 8 v) AND 0xFF)"

definition r32 :: "disk \<Rightarrow> nat \<Rightarrow> nat \<Rightarrow> nat \<times> disk" where
  "r32 d s ofs =
     (case r16 d s ofs of (lo, d1) \<Rightarrow>
      case r16 d1 s (ofs + 2) of (hi, d2) \<Rightarrow> ((lo OR push_bit 16 hi) mod 2 ^ 32, d2))"

definition w32 :: "disk \<Rightarrow> nat \<Rightarrow> nat \<Rightarrow> nat \<Rightarrow> disk" where
  "w32 d s ofs v = w16 (w16 d s ofs (v AND 0xFFFF)) s (ofs + 2) ((drop_bit 16 v) AND 0xFFFF)"

text \<open>
  flush(): every dirty sector is fetched with _sec and stored under its key (btoa of its
  512 bytes); then the dirty set is cleared. The sectors are independent of each other, so
  the order in which the set is walked does not matter.
\<close>

definition flush :: "disk \<Rightarrow> disk" where
  "flush d =
     d\<lparr>cache := (\<lambda>n. if n \<in> dirty d then Some (fst (priv_sec d n)) else cache d n),
       store := (\<lambda>n. if n \<in> dirty d then Some (fst (priv_sec d n)) else store d n),
       dirty := {}\<rparr>"

text \<open>wipeStorage(): removes the items of the sectors 0..2879, empties cache and dirty set.\<close>

definition wipeStorage :: "disk \<Rightarrow> disk" where
  "wipeStorage d =
     d\<lparr>store := (\<lambda>n. if n < TOTAL_SECTORS then None else store d n),
       cache := Map.empty, dirty := {}\<rparr>"

text \<open>
  format(). const b = this._sec(0) is the cached array of sector 0, so b[i] = v is a write
  to the cache entry that does not touch the dirty set (poke0); the calls of w16 on sector
  0 in between write the same array and mark the sector dirty.
\<close>

definition poke0 :: "disk \<Rightarrow> nat \<Rightarrow> nat \<Rightarrow> disk" where
  "poke0 d ofs v =
     (case cache d 0 of
        Some b \<Rightarrow> d\<lparr>cache := (cache d)(0 \<mapsto> b[ofs := v AND 0xFF])\<rparr>
      | None \<Rightarrow> d)"

definition oem :: "nat list" where
  "oem = [0x4D, 0x59, 0x44, 0x4F, 0x53, 0x31, 0x2E, 0x30]"

definition format :: "disk \<Rightarrow> disk" where
  "format d0 =
     (let d = snd (priv_sec (wipeStorage d0) 0);
          d = poke0 (poke0 (poke0 d 0 0xEB) 1 0x3C) 2 0x90;
          d = fold (\<lambda>i d. poke0 d (3 + i) (oem ! i)) [0..<8] d;
          d = w16 d 0 11 512;
          d = poke0 d 13 1;
          d = w16 d 0 14 1;
          d = poke0 d 16 2;
          d = w16 d 0 17 224;
          d = w16 d 0 19 2880;
          d = poke0 d 21 0xF0;
          d = w16 d 0 22 9;
          d = w16 d 0 24 18;
          d = w16 d 0 26 2;
          d = w8 (w8 (w8 d FAT1_START 0 0xF0) FAT1_START 1 0xFF) FAT1_START 2 0xFF;
          d = w8 (w8 (w8 d FAT2_START 0 0xF0) FAT2_START 1 0xFF) FAT2_START 2 0xFF
      in flush d)"

subsection \<open>The file allocation table (getFAT, setFAT, allocCluster, c2s)\<close>

text \<open>
  getFAT(c): the 12-bit entry of cluster c, read from the first FAT. The entry starts at
  byte c + (c >> 1) of the FAT; its second byte can be the first byte of the next sector.
\<close>

definition getFAT :: "disk \<Rightarrow> nat \<Rightarrow> nat \<times> disk" where
  "getFAT d c =
     (let off = c + drop_bit 1 c; s = FAT1_START + off div 512; ofs = off mod 512 in
      case r8 d s ofs of (lo, d1) \<Rightarrow>
      case (if ofs + 1 < 512 then r8 d1 s (ofs + 1) else r8 d1 (s + 1) 0) of (hi, d2) \<Rightarrow>
        (let v = lo OR push_bit 8 hi in
         (if c AND 1 \<noteq> 0 then drop_bit 4 v else v AND 0xFFF, d2)))"

text \<open>
  setFAT(c, val): reads the two bytes from the first FAT, replaces the 12 bits of the
  entry, and writes the two bytes to the first FAT and, at the same offset, to the second.
\<close>

definition setFAT :: "disk \<Rightarrow> nat \<Rightarrow> nat \<Rightarrow> disk" where
  "setFAT d c val =
     (let off = c + drop_bit 1 c; s = FAT1_START + off div 512; ofs = off mod 512 in
      case r8 d s ofs of (lo, d1) \<Rightarrow>
      case (if ofs + 1 < 512 then r8 d1 s (ofs + 1) else r8 d1 (s + 1) 0) of (hi, d2) \<Rightarrow>
        (let cur0 = lo OR push_bit 8 hi;
             cur = (if c AND 1 \<noteq> 0 then (cur0 AND 0x000F) OR push_bit 4 val
                    else (cur0 AND 0xF000) OR (val AND 0xFFF));
             d3 = w8 d2 s ofs (cur AND 0xFF);
             d4 = (if ofs + 1 < 512 then w8 d3 s (ofs + 1) ((drop_bit 8 cur) AND 0xFF)
                   else w8 d3 (s + 1) 0 ((drop_bit 8 cur) AND 0xFF));
             s2 = FAT2_START + off div 512; ofs2 = off mod 512;
             d5 = w8 d4 s2 ofs2 (cur AND 0xFF)
         in if ofs2 + 1 < 512 then w8 d5 s2 (ofs2 + 1) ((drop_bit 8 cur) AND 0xFF)
            else w8 d5 (s2 + 1) 0 ((drop_bit 8 cur) AND 0xFF)))"

text \<open>
  allocCluster(): maxCluster = 2 + (TOTAL_SECTORS - DATA_START) / SECTORS_PER_CLUSTER; for
  (c = 2; c < maxCluster; c++) if (getFAT(c) === 0) return c; return -1. The result -1 is
  None. alloc_from is the loop from c on.
\<close>

definition maxCluster :: nat where
  "maxCluster = 2 + (TOTAL_SECTORS - DATA_START) div SECTORS_PER_CLUSTER"

function alloc_from :: "disk \<Rightarrow> nat \<Rightarrow> nat option \<times> disk" where
  "alloc_from d c =
     (if c < maxCluster then
        (case getFAT d c of (v, d1) \<Rightarrow> if v = 0 then (Some c, d1) else alloc_from d1 (c + 1))
      else (None, d))"
  by pat_completeness auto
termination
  by (relation "measure (\<lambda>(d, c). maxCluster - c)") auto

definition allocCluster :: "disk \<Rightarrow> nat option \<times> disk" where
  "allocCluster d = alloc_from d 2"

text \<open>c2s(c) = DATA_START + c - 2; it is only called with c >= 2.\<close>

definition c2s :: "nat \<Rightarrow> nat" where
  "c2s c = DATA_START + c - 2"

text \<open>
  src/ holds two more definitions of allocCluster: in the class FAT12Disk at lines 5-330
  of src/msdos.js and in the one of src/dist/msdos.js. Both scan up to max =
  Math.floor(SECTORS_PER_FAT * 512 * 2 / 3). The first has a getFAT of its own (bo =
  Math.floor(c * 3 / 2), the second byte read at the sector and offset of bo + 1) and
  c2s(c) = DATA_START + (c - 2) * SECTORS_PER_CLUSTER; dist/msdos.js has the getFAT and the
  c2s above. _sec and r8 are the same in all three classes.
\<close>

definition max_first :: nat where
  "max_first = (SECTORS_PER_FAT * 512 * 2) div 3"

definition getFAT_first :: "disk \<Rightarrow> nat \<Rightarrow> nat \<times> disk" where
  "getFAT_first d c =
     (let bo = (c * 3) div 2;
          sn = FAT1_START + bo div 512; so = bo mod 512;
          sn2 = FAT1_START + (bo + 1) div 512; so2 = (bo + 1) mod 512 in
      case r8 d sn so of (lo, d1) \<Rightarrow>
      case r8 d1 sn2 so2 of (hi, d2) \<Rightarrow>
        (let val = lo OR push_bit 8 hi in
         (if c AND 1 \<noteq> 0 then drop_bit 4 val else val AND 0xFFF, d2)))"

function alloc_from_first :: "disk \<Rightarrow> nat \<Rightarrow> nat option \<times> disk" where
  "alloc_from_first d c =
     (if c < max_first then
        (case getFAT_first d c of (v, d1) \<Rightarrow>
           if v = 0 then (Some c, d1) else alloc_from_first d1 (c + 1))
      else (None, d))"
  by pat_completeness auto
termination
  by (relation "measure (\<lambda>(d, c). max_first - c)") auto

definition allocCluster_first :: "disk \<Rightarrow> nat option \<times> disk" where
  "allocCluster_first d = alloc_from_first d 2"

definition c2s_first :: "nat \<Rightarrow> nat" where
  "c2s_first c = DATA_START + (c - 2) * SECTORS_PER_CLUSTER"

definition max_dist :: nat where
  "max_dist = (SECTORS_PER_FAT * 512 * 2) div 3"

function alloc_from_dist :: "disk \<Rightarrow> nat \<Rightarrow> nat option \<times> disk" where
  "alloc_from_dist d c =
     (if c < max_dist then
        (case getFAT d c of (v, d1) \<Rightarrow> if v = 0 then (Some c, d1) else alloc_from_dist d1 (c + 1))
      else (None, d))"
  by pat_completeness auto
termination
  by (relation "measure (\<lambda>(d, c). max_dist - c)") auto

definition allocCluster_dist :: "disk \<Rightarrow> nat option \<times> disk" where
  "allocCluster_dist d = alloc_from_dist d 2"

subsection \<open>Directories (_readEntry, _enumEntries, _resolveDirSectors, _allocEntry, _writeName83)\<close>

text \<open>
  A JavaScript string is the list of its UTF-16 code units: String.fromCharCode(c) of a
  byte c is the unit c, and charCodeAt gives a unit back. The method that puts a string
  into upper case is a built-in of the host; every function that calls it takes it as the
  parameter U, and the statements proved about these functions hold for every U.
\<close>

type_synonym jsstring = "nat list"

type_synonym upper = "jsstring \<Rightarrow> jsstring"

text \<open>
  The object that _readEntry returns. The fields are first, name, attr, cluster, size, sec
  and slot in the source; here each carries the prefix ent.
\<close>

record dirent =
  ent_first :: nat
  ent_name :: jsstring
  ent_attr :: nat
  ent_cluster :: nat
  ent_size :: nat
  ent_sec :: nat
  ent_slot :: nat

text \<open>
  read_chars: for (i in the given offsets) { c = r8(sec, i); if (c === 0x20) break; n +=
  String.fromCharCode(c); }, the loop that _readEntry runs over the 8 bytes of the name and
  over the 3 bytes of the extension.
\<close>

fun read_chars :: "disk \<Rightarrow> nat \<Rightarrow> nat list \<Rightarrow> jsstring \<Rightarrow> jsstring \<times> disk" where
  "read_chars d s [] acc = (acc, d)"
| "read_chars d s (i # is) acc =
     (case r8 d s i of (c, d1) \<Rightarrow>
        if c = 0x20 then (acc, d1) else read_chars d1 s is (acc @ [c]))"

definition priv_readEntry :: "disk \<Rightarrow> nat \<Rightarrow> nat \<Rightarrow> dirent \<times> disk" where
  "priv_readEntry d s slot =
     (let off = slot * 32 in
      case read_chars d s (map (\<lambda>i. off + i) [0..<8]) [] of (n, d1) \<Rightarrow>
      case read_chars d1 s (map (\<lambda>i. off + i) [8..<11]) [] of (e, d2) \<Rightarrow>
      case r8 d2 s off of (f, d3) \<Rightarrow>
      case r8 d3 s (off + 11) of (a, d4) \<Rightarrow>
      case r16 d4 s (off + 26) of (cl, d5) \<Rightarrow>
      case r32 d5 s (off + 28) of (sz, d6) \<Rightarrow>
        (\<lparr>ent_first = f, ent_name = (if e \<noteq> [] then n @ [0x2E] @ e else n), ent_attr = a,
          ent_cluster = cl, ent_size = sz, ent_sec = s, ent_slot = slot\<rparr>, d6))"

text \<open>
  _enumEntries(secs): the entries of the sectors, in order. A slot whose first byte is 0x00
  ends the whole enumeration (return res); a first byte 0xE5 and the attribute 0x0F skip
  the slot. enum_slots is the inner loop over the slots of one sector; its boolean tells
  whether it returned.
\<close>

fun enum_slots :: "disk \<Rightarrow> nat \<Rightarrow> nat list \<Rightarrow> dirent list \<Rightarrow> dirent list \<times> bool \<times> disk" where
  "enum_slots d s [] res = (res, False, d)"
| "enum_slots d s (slot # slots) res =
     (case r8 d s (slot * 32) of (f, d1) \<Rightarrow>
        if f = 0x00 then (res, True, d1)
        else if f = 0xE5 then enum_slots d1 s slots res
        else
          (case r8 d1 s (slot * 32 + 11) of (a, d2) \<Rightarrow>
             if a = 0x0F then enum_slots d2 s slots res
             else (case priv_readEntry d2 s slot of (e, d3) \<Rightarrow> enum_slots d3 s slots (res @ [e]))))"

fun enum_secs :: "disk \<Rightarrow> nat list \<Rightarrow> dirent list \<Rightarrow> dirent list \<times> disk" where
  "enum_secs d [] res = (res, d)"
| "enum_secs d (s # secs) res =
     (case enum_slots d s [0..<16] res of (res1, returned, d1) \<Rightarrow>
        if returned then (res1, d1) else enum_secs d1 secs res1)"

definition priv_enumEntries :: "disk \<Rightarrow> nat list \<Rightarrow> dirent list \<times> disk" where
  "priv_enumEntries d secs = enum_secs d secs []"

text \<open>
  chain_secs: while (c >= 2 && c < 0xFF8) { secs.push(c2s(c)); c = getFAT(c); }. On a FAT
  whose chain from c runs into a cycle the loop never ends; the value is then None.
\<close>

partial_function (option) chain_secs :: "disk \<Rightarrow> nat \<Rightarrow> nat list \<Rightarrow> (nat list \<times> disk) option" where
  "chain_secs d c secs =
     (if 2 \<le> c \<and> c < 0xFF8 then
        (case getFAT d c of (n, d1) \<Rightarrow> chain_secs d1 n (secs @ [c2s c]))
      else Some (secs, d))"

text \<open>
  _resolveDirSectors(parts): the sectors of the directory that the path names, from the
  root; null (None inside) when a component names no entry with the directory attribute
  (compared in upper case), or its chain is empty. resolve_loop is the loop over the
  components.
\<close>

definition root_secs :: "nat list" where
  "root_secs = map (\<lambda>i. ROOT_START + i) [0..<ROOT_SECTORS]"

fun resolve_loop :: "upper \<Rightarrow> disk \<Rightarrow> nat list \<Rightarrow> jsstring list \<Rightarrow> (nat list option \<times> disk) option" where
  "resolve_loop U d secs [] = Some (Some secs, d)"
| "resolve_loop U d secs (nm # parts) =
     (case priv_enumEntries d secs of (entries, d1) \<Rightarrow>
      case find (\<lambda>e. ent_attr e AND 0x10 \<noteq> 0 \<and> U (ent_name e) = U nm) entries of
        None \<Rightarrow> Some (None, d1)
      | Some e \<Rightarrow>
          (case chain_secs d1 (ent_cluster e) [] of
             None \<Rightarrow> None
           | Some (secs1, d2) \<Rightarrow>
               if secs1 = [] then Some (None, d2) else resolve_loop U d2 secs1 parts))"

definition priv_resolveDirSectors :: "upper \<Rightarrow> disk \<Rightarrow> jsstring list \<Rightarrow> (nat list option \<times> disk) option" where
  "priv_resolveDirSectors U d parts =
     (if parts = [] then Some (Some root_secs, d) else resolve_loop U d root_secs parts)"

text \<open>
  _allocEntry(sectors): the first slot whose first byte is 0x00 or 0xE5; {sec: -1, slot: 0}
  is None.
\<close>

fun alloc_slots :: "disk \<Rightarrow> nat \<Rightarrow> nat list \<Rightarrow> (nat \<times> nat) option \<times> disk" where
  "alloc_slots d s [] = (None, d)"
| "alloc_slots d s (slot # slots) =
     (case r8 d s (slot * 32) of (f, d1) \<Rightarrow>
        if f = 0x00 \<or> f = 0xE5 then (Some (s, slot), d1) else alloc_slots d1 s slots)"

fun priv_allocEntry :: "disk \<Rightarrow> nat list \<Rightarrow> (nat \<times> nat) option \<times> disk" where
  "priv_allocEntry d [] = (None, d)"
| "priv_allocEntry d (s # sectors) =
     (case alloc_slots d s [0..<16] of
        (Some r, d1) \<Rightarrow> (Some r, d1)
      | (None, d1) \<Rightarrow> priv_allocEntry d1 sectors)"

text \<open>
  _writeName83(sec, off, name): the part before the last dot, in upper case, cut to 8
  characters, and the part after it cut to 3, each padded with blanks.
\<close>

fun lastIndexOf :: "nat \<Rightarrow> jsstring \<Rightarrow> nat option" where
  "lastIndexOf ch [] = None"
| "lastIndexOf ch (x # xs) =
     (case lastIndexOf ch xs of
        Some k \<Rightarrow> Some (k + 1)
      | None \<Rightarrow> if x = ch then Some 0 else None)"

definition priv_writeName83 :: "upper \<Rightarrow> disk \<Rightarrow> nat \<Rightarrow> nat \<Rightarrow> jsstring \<Rightarrow> disk" where
  "priv_writeName83 U d s off nm =
     (let dot = lastIndexOf 0x2E nm;
          n = take 8 (U (case dot of Some k \<Rightarrow> take k nm | None \<Rightarrow> nm));
          e = take 3 (U (case dot of Some k \<Rightarrow> drop (k + 1) nm | None \<Rightarrow> []));
          d1 = fold (\<lambda>i d. w8 d s (off + i) (if i < length n then n ! i else 0x20)) [0..<8] d
      in fold (\<lambda>i d. w8 d s (off + 8 + i) (if i < length e then e ! i else 0x20)) [0..<3] d1)"

subsection \<open>Files (readFile, writeFile, deleteEntry, renameEntry, mkdir)\<close>

text \<open>
  read_bytes: for (i < take) buf.push(r8(sec, i)), and read_chain, the loop of readFile
  along the cluster chain: while (c >= 2 && c < 0xFF8) { take = min(512, rem); ...; rem -=
  take; c = getFAT(c); }. readFile returns null (None inside) when the directory does not
  resolve or holds no entry of that name without the directory attribute. The outer None
  is a chain that never ends.
\<close>

fun read_bytes :: "disk \<Rightarrow> nat \<Rightarrow> nat list \<Rightarrow> nat list \<Rightarrow> nat list \<times> disk" where
  "read_bytes d s [] buf = (buf, d)"
| "read_bytes d s (i # is) buf = (case r8 d s i of (b, d1) \<Rightarrow> read_bytes d1 s is (buf @ [b]))"

partial_function (option) read_chain :: "disk \<Rightarrow> nat \<Rightarrow> nat \<Rightarrow> nat list \<Rightarrow> (nat list \<times> disk) option" where
  "read_chain d c rem buf =
     (if 2 \<le> c \<and> c < 0xFF8 then
        (case read_bytes d (c2s c) [0..<min 512 rem] buf of (buf1, d1) \<Rightarrow>
         case getFAT d1 c of (n, d2) \<Rightarrow> read_chain d2 n (rem - min 512 rem) buf1)
      else Some (buf, d))"

definition readFile :: "upper \<Rightarrow> disk \<Rightarrow> jsstring list \<Rightarrow> jsstring \<Rightarrow> (nat list option \<times> disk) option" where
  "readFile U d parts nm =
     (case priv_resolveDirSectors U d parts of
        None \<Rightarrow> None
      | Some (None, d1) \<Rightarrow> Some (None, d1)
      | Some (Some secs, d1) \<Rightarrow>
          (case priv_enumEntries d1 secs of (entries, d2) \<Rightarrow>
           case find (\<lambda>e. \<not> (ent_attr e AND 0x10 \<noteq> 0) \<and> U (ent_name e) = U nm) entries of
             None \<Rightarrow> Some (None, d2)
           | Some f \<Rightarrow>
               (case read_chain d2 (ent_cluster f) (ent_size f) [] of
                  None \<Rightarrow> None
                | Some (buf, d3) \<Rightarrow> Some (Some buf, d3))))"

text \<open>
  deleteEntry(parts, name): marks the entry of that name 0xE5 and frees its chain:
  while (c >= 2 && c < 0xFF8) { n = getFAT(c); setFAT(c, 0); c = n; } (free_chain). It
  returns false without a flush when the directory or the entry is missing.
\<close>

partial_function (option) free_chain :: "disk \<Rightarrow> nat \<Rightarrow> disk option" where
  "free_chain d c =
     (if 2 \<le> c \<and> c < 0xFF8 then
        (case getFAT d c of (n, d1) \<Rightarrow> free_chain (setFAT d1 c 0) n)
      else Some d)"

definition deleteEntry :: "upper \<Rightarrow> disk \<Rightarrow> jsstring list \<Rightarrow> jsstring \<Rightarrow> (bool \<times> disk) option" where
  "deleteEntry U d parts nm =
     (case priv_resolveDirSectors U d parts of
        None \<Rightarrow> None
      | Some (None, d1) \<Rightarrow> Some (False, d1)
      | Some (Some secs, d1) \<Rightarrow>
          (case priv_enumEntries d1 secs of (entries, d2) \<Rightarrow>
           case find (\<lambda>e. U (ent_name e) = U nm) entries of
             None \<Rightarrow> Some (False, d2)
           | Some f \<Rightarrow>
               (case free_chain (w8 d2 (ent_sec f) (ent_slot f * 32) 0xE5) (ent_cluster f) of
                  None \<Rightarrow> None
                | Some d3 \<Rightarrow> Some (True, flush d3))))"

text \<open>renameEntry(parts, oldName, newName).\<close>

definition renameEntry :: "upper \<Rightarrow> disk \<Rightarrow> jsstring list \<Rightarrow> jsstring \<Rightarrow> jsstring \<Rightarrow> (bool \<times> disk) option" where
  "renameEntry U d parts oldName newName =
     (case priv_resolveDirSectors U d parts of
        None \<Rightarrow> None
      | Some (None, d1) \<Rightarrow> Some (False, d1)
      | Some (Some secs, d1) \<Rightarrow>
          (case priv_enumEntries d1 secs of (entries, d2) \<Rightarrow>
           case find (\<lambda>e. U (ent_name e) = U oldName) entries of
             None \<Rightarrow> Some (False, d2)
           | Some f \<Rightarrow> Some (True, flush (priv_writeName83 U d2 (ent_sec f) (ent_slot f * 32) newName))))"

text \<open>
  The errors that writeFile and mkdir throw, and the fields of new Date() that they read
  (getMonth() counts from 0). dos_time and dos_date are the two packed words.
\<close>

datatype fat_error = Directory_not_found | Disk_full | Directory_full | Path_not_found | Already_exists

record jsdate =
  getHours :: nat
  getMinutes :: nat
  getSeconds :: nat
  getFullYear :: int
  getMonth :: nat
  getDate :: nat

definition dos_time :: "jsdate \<Rightarrow> nat" where
  "dos_time now =
     push_bit 11 (getHours now AND 31) OR push_bit 5 (getMinutes now AND 63)
       OR ((drop_bit 1 (getSeconds now)) AND 31)"

definition dos_date :: "jsdate \<Rightarrow> nat" where
  "dos_date now =
     push_bit 9 (nat ((getFullYear now - 1980) AND 127)) OR push_bit 5 (getMonth now + 1)
       OR (getDate now AND 31)"

text \<open>
  write_entry: the tail that writeFile and mkdir share word for word: 32 zero bytes, the
  name, the attribute, time and date, the first cluster and the size, then flush.
\<close>

definition write_entry :: "upper \<Rightarrow> disk \<Rightarrow> nat \<Rightarrow> nat \<Rightarrow> jsstring \<Rightarrow> nat \<Rightarrow> jsdate \<Rightarrow> nat \<Rightarrow> nat \<Rightarrow> disk" where
  "write_entry U d s slot nm a now cl sz =
     (let eoff = slot * 32;
          d1 = fold (\<lambda>i d. w8 d s (eoff + i) 0) [0..<32] d;
          d2 = priv_writeName83 U d1 s eoff nm;
          d3 = w8 d2 s (eoff + 11) a;
          d4 = w16 d3 s (eoff + 22) (dos_time now);
          d5 = w16 d4 s (eoff + 24) (dos_date now);
          d6 = w16 d5 s (eoff + 26) cl;
          d7 = w32 d6 s (eoff + 28) sz
      in flush d7)"

text \<open>
  zero_sector: for (i < 512) w8(sec, i, 0). write_chunk: for (i < take) w8(sec, i,
  data[off + i]).
\<close>

definition zero_sector :: "disk \<Rightarrow> nat \<Rightarrow> disk" where
  "zero_sector d s = fold (\<lambda>i d. w8 d s i 0) [0..<512] d"

definition write_chunk :: "disk \<Rightarrow> nat \<Rightarrow> nat list \<Rightarrow> nat \<Rightarrow> nat \<Rightarrow> disk" where
  "write_chunk d s dat off tk = fold (\<lambda>i d. w8 d s i (dat ! (off + i))) [0..<tk] d"

text \<open>
  write_loop: the loop of writeFile over the data, while (off < data.length). first and
  prev start as -1, which is None. Each round takes the cluster that allocCluster returns,
  links it behind prev, clears its sector and copies up to 512 bytes. The cluster's own
  FAT entry is not written before the next round calls allocCluster.
\<close>

function write_loop ::
  "disk \<Rightarrow> nat list \<Rightarrow> nat option \<Rightarrow> nat option \<Rightarrow> nat \<Rightarrow> (fat_error + nat option \<times> nat option) \<times> disk" where
  "write_loop d dat first prev off =
     (if off < length dat then
        (case allocCluster d of
           (None, d1) \<Rightarrow> (Inl Disk_full, d1)
         | (Some c, d1) \<Rightarrow>
             (let first1 = (case first of None \<Rightarrow> Some c | Some f \<Rightarrow> Some f);
                  d2 = (case prev of Some p \<Rightarrow> setFAT d1 p c | None \<Rightarrow> d1);
                  s = c2s c;
                  d3 = zero_sector d2 s;
                  tk = min 512 (length dat - off);
                  d4 = write_chunk d3 s dat off tk
              in write_loop d4 dat first1 (Some c) (off + tk)))
      else (Inr (first, prev), d))"
  by pat_completeness auto
termination
  by (relation "measure (\<lambda>(d, dat, first, prev, off). length dat - off)") auto

text \<open>
  writeFile(parts, name, data). An error thrown is Some err in the first component; the
  volume keeps what was written before the throw. After the loop prev is the last cluster
  (the loop ran at least once), so the case None of the last setFAT does not occur.
\<close>

definition writeFile ::
  "upper \<Rightarrow> disk \<Rightarrow> jsstring list \<Rightarrow> jsstring \<Rightarrow> nat list \<Rightarrow> jsdate \<Rightarrow> (fat_error option \<times> disk) option" where
  "writeFile U d parts nm dat now =
     (case deleteEntry U d parts nm of
        None \<Rightarrow> None
      | Some (deleted, d1) \<Rightarrow>
          (case priv_resolveDirSectors U d1 parts of
             None \<Rightarrow> None
           | Some (None, d2) \<Rightarrow> Some (Some Directory_not_found, d2)
           | Some (Some secs, d2) \<Rightarrow>
               (case (if length dat > 0 then
                        (case write_loop d2 dat None None 0 of
                           (Inl err, d3) \<Rightarrow> (Inl err, d3)
                         | (Inr (first, prev), d3) \<Rightarrow>
                             (Inr first, (case prev of Some p \<Rightarrow> setFAT d3 p 0xFFF | None \<Rightarrow> d3)))
                      else (Inr None, d2)) of
                  (Inl err, d4) \<Rightarrow> Some (Some err, d4)
                | (Inr first, d4) \<Rightarrow>
                    (case priv_allocEntry d4 secs of
                       (None, d5) \<Rightarrow> Some (Some Directory_full, d5)
                     | (Some (s, slot), d5) \<Rightarrow>
                         Some (None, write_entry U d5 s slot nm 0x20 now
                                 (case first of None \<Rightarrow> 0 | Some f \<Rightarrow> f) (length dat))))))"

text \<open>mkdir(parts, name).\<close>

definition mkdir :: "upper \<Rightarrow> disk \<Rightarrow> jsstring list \<Rightarrow> jsstring \<Rightarrow> jsdate \<Rightarrow> (fat_error option \<times> disk) option" where
  "mkdir U d parts nm now =
     (case priv_resolveDirSectors U d parts of
        None \<Rightarrow> None
      | Some (None, d1) \<Rightarrow> Some (Some Path_not_found, d1)
      | Some (Some secs, d1) \<Rightarrow>
          (case priv_enumEntries d1 secs of (entries, d2) \<Rightarrow>
           case find (\<lambda>e. U (ent_name e) = U nm) entries of
             Some existing \<Rightarrow> Some (Some Already_exists, d2)
           | None \<Rightarrow>
               (case allocCluster d2 of
                  (None, d3) \<Rightarrow> Some (Some Disk_full, d3)
                | (Some c, d3) \<Rightarrow>
                    (let d4 = zero_sector (setFAT d3 c 0xFFF) (c2s c) in
                     case priv_allocEntry d4 secs of
                       (None, d5) \<Rightarrow> Some (Some Directory_full, d5)
                     | (Some (s, slot), d5) \<Rightarrow>
                         Some (None, write_entry U d5 s slot nm 0x10 now c 0)))))"

subsection \<open>Vocabulary of the statements about the volume\<close>

text \<open>
  sec_view d n: the content of sector n as _sec gives it, from the cache or else from the
  store. faulted d d': d' has the store, the dirty set and the content of every sector of
  d; it can differ from d only by sectors that were loaded into the cache.
\<close>

type_synonym view = "nat \<Rightarrow> nat list"

definition sec_view :: "disk \<Rightarrow> view" where
  "sec_view d n = fst (priv_sec d n)"

definition faulted :: "disk \<Rightarrow> disk \<Rightarrow> bool" where
  "faulted d d' = (store d' = store d \<and> dirty d' = dirty d \<and> (\<forall>n. sec_view d' n = sec_view d n))"

text \<open>
  What a volume holds, as a function of the content V of its sectors alone (no cache, no
  store, no loop that may fail to end). These definitions follow the specification's
  description of the FAT12 layout, not the methods of the class:
  fat_entry V c is the 12-bit entry of cluster c: the word at byte c + c div 2 of the first
  FAT (its second byte can lie in the next sector), the low 12 bits for even c, the high
  12 bits for odd c. fat_chain k V c is the list of the clusters from c on, each the FAT
  entry of the one before, up to the first value outside 2..0xFF7; it is None when the
  chain has not ended after k links.
\<close>

definition fat_entry :: "view \<Rightarrow> nat \<Rightarrow> nat" where
  "fat_entry V c =
     (let off = c + c div 2;
          lo = V (FAT1_START + off div 512) ! (off mod 512);
          hi = V (FAT1_START + (off + 1) div 512) ! ((off + 1) mod 512);
          w = lo OR push_bit 8 hi
      in if odd c then drop_bit 4 w else w AND 0xFFF)"

fun fat_chain :: "nat \<Rightarrow> view \<Rightarrow> nat \<Rightarrow> nat list option" where
  "fat_chain 0 V c = (if 2 \<le> c \<and> c < 0xFF8 then None else Some [])"
| "fat_chain (Suc k) V c =
     (if 2 \<le> c \<and> c < 0xFF8 then map_option (Cons c) (fat_chain k V (fat_entry V c))
      else Some [])"

text \<open>
  A directory is a list of sectors of 16 slots of 32 bytes each; a slot is named by its
  sector and its index there. slot_byte V p i is byte i of slot p. The entries of a
  directory are the slots before the first one whose byte 0 is 0x00, without those whose
  byte 0 is 0xE5 or whose attribute (byte 11) is 0x0F. The name of an entry is bytes 0-7 up
  to the first blank, followed, when bytes 8-10 do not begin with a blank, by a dot and
  bytes 8-10 up to the first blank. The start cluster is the 16-bit word at byte 26, the
  size the 32-bit word at byte 28.
\<close>

definition slot_byte :: "view \<Rightarrow> nat \<times> nat \<Rightarrow> nat \<Rightarrow> nat" where
  "slot_byte V p i = V (fst p) ! (snd p * 32 + i)"

definition name_field :: "nat list \<Rightarrow> jsstring" where
  "name_field bs = takeWhile (\<lambda>b. b \<noteq> 0x20) bs"

definition entry_at :: "view \<Rightarrow> nat \<times> nat \<Rightarrow> dirent" where
  "entry_at V p =
     (let b = slot_byte V p;
          n = name_field (map b [0..<8]);
          e = name_field (map b [8..<11])
      in \<lparr>ent_first = b 0,
          ent_name = (if e \<noteq> [] then n @ [0x2E] @ e else n),
          ent_attr = b 11,
          ent_cluster = b 26 OR push_bit 8 (b 27),
          ent_size = ((b 28 OR push_bit 8 (b 29)) OR push_bit 16 (b 30 OR push_bit 8 (b 31))) mod 2 ^ 32,
          ent_sec = fst p, ent_slot = snd p\<rparr>)"

definition dir_slots :: "nat list \<Rightarrow> (nat \<times> nat) list" where
  "dir_slots secs = List.product secs [0..<16]"

definition live_slot :: "view \<Rightarrow> nat \<times> nat \<Rightarrow> bool" where
  "live_slot V p = (slot_byte V p 0 \<noteq> 0x00)"

definition kept_slot :: "view \<Rightarrow> nat \<times> nat \<Rightarrow> bool" where
  "kept_slot V p = (slot_byte V p 0 \<noteq> 0xE5 \<and> slot_byte V p 11 \<noteq> 0x0F)"

definition dir_entries :: "view \<Rightarrow> nat list \<Rightarrow> dirent list" where
  "dir_entries V secs =
     map (entry_at V) (filter (kept_slot V) (takeWhile (live_slot V) (dir_slots secs)))"

text \<open>
  find_subdir U V secs nm: the first entry of the directory with the directory attribute
  (bit 4) whose name equals nm in upper case; find_file: the first one without the
  directory attribute. dir_of_path U k V secs parts: the sectors of the directory that the
  path parts names, starting from the directory secs: Some (Some secs') when every
  component names a subdirectory with a non-empty cluster chain, Some None when some
  component does not, and None when the chain of a subdirectory on the way has not ended
  after k links. chain_bytes V ch sz: at most sz bytes, the first 512 (or what is left of
  sz) of the sector of each cluster in ch.
\<close>

definition find_subdir :: "upper \<Rightarrow> view \<Rightarrow> nat list \<Rightarrow> jsstring \<Rightarrow> dirent option" where
  "find_subdir U V secs nm =
     find (\<lambda>e. ent_attr e AND 0x10 \<noteq> 0 \<and> U (ent_name e) = U nm) (dir_entries V secs)"

definition find_file :: "upper \<Rightarrow> view \<Rightarrow> nat list \<Rightarrow> jsstring \<Rightarrow> dirent option" where
  "find_file U V secs nm =
     find (\<lambda>e. \<not> (ent_attr e AND 0x10 \<noteq> 0) \<and> U (ent_name e) = U nm) (dir_entries V secs)"

fun dir_of_path :: "upper \<Rightarrow> nat \<Rightarrow> view \<Rightarrow> nat list \<Rightarrow> jsstring list \<Rightarrow> nat list option option" where
  "dir_of_path U k V secs [] = Some (Some secs)"
| "dir_of_path U k V secs (nm # parts) =
     (case find_subdir U V secs nm of
        None \<Rightarrow> Some None
      | Some e \<Rightarrow>
          (case fat_chain k V (ent_cluster e) of
             None \<Rightarrow> None
           | Some ch \<Rightarrow> if ch = [] then Some None else dir_of_path U k V (map c2s ch) parts))"

fun chain_bytes :: "view \<Rightarrow> nat list \<Rightarrow> nat \<Rightarrow> nat list" where
  "chain_bytes V [] rem = []"
| "chain_bytes V (c # ch) rem =
     map (\<lambda>i. V (c2s c) ! i) [0..<min 512 rem] @ chain_bytes V ch (rem - min 512 rem)"

subsection \<open>Concrete volumes used in the examples\<close>

text \<open>
  blank_disk: a new FAT12Disk over an empty localStorage.
  In the next three the first slot of the root directory (sector 19) is in use and the
  second is not. looping_disk: the first FAT begins F0 FF FF 02 00, so the entry of cluster
  2 is 2, and the slot is the file X of size 1 that starts at cluster 2.
  looping_dir_disk: the same FAT, and the slot is the directory D that starts at cluster 2.
  one_file_disk: the FAT begins F0 FF FF FF 0F (cluster 2 ends its chain), the slot is the
  file X of size 1 at cluster 2, and sector 33, that of cluster 2, begins with 0x41.
\<close>

definition blank_disk :: disk where
  "blank_disk = new_FAT12Disk Map.empty"

definition entry_X :: "nat list" where
  "entry_X = [0x58, 0x20, 0x20, 0x20, 0x20, 0x20, 0x20, 0x20, 0x20, 0x20, 0x20, 0x20,
              0, 0, 0, 0, 0, 0, 0, 0, 0, 0, 0, 0, 0, 0, 2, 0, 1, 0, 0, 0]"

definition entry_D :: "nat list" where
  "entry_D = [0x44, 0x20, 0x20, 0x20, 0x20, 0x20, 0x20, 0x20, 0x20, 0x20, 0x20, 0x10,
              0, 0, 0, 0, 0, 0, 0, 0, 0, 0, 0, 0, 0, 0, 2, 0, 0, 0, 0, 0]"

definition looping_disk :: disk where
  "looping_disk = new_FAT12Disk [1 \<mapsto> [0xF0, 0xFF, 0xFF, 0x02, 0x00], 19 \<mapsto> entry_X]"

definition looping_dir_disk :: disk where
  "looping_dir_disk = new_FAT12Disk [1 \<mapsto> [0xF0, 0xFF, 0xFF, 0x02, 0x00], 19 \<mapsto> entry_D]"

definition one_file_disk :: disk where
  "one_file_disk =
     new_FAT12Disk [1 \<mapsto> [0xF0, 0xFF, 0xFF, 0xFF, 0x0F], 19 \<mapsto> entry_X, 33 \<mapsto> [0x41]]"

text \<open>
  full_disk: every cluster of the data area is in use. The first FAT is F0 FF FF, then FF
  up to byte 4272 and 0F at byte 4273 (the entries of the clusters 2..2848 are 0xFFF), and
  zero from there on; the sectors 1..9 of the store hold these 4608 bytes.
  formatted_disk: a new FAT12Disk over an empty localStorage, after format().
\<close>

definition full_fat :: "nat list" where
  "full_fat = [0xF0] @ replicate 4272 0xFF @ [0x0F] @ replicate 334 0"

definition full_disk :: disk where
  "full_disk =
     new_FAT12Disk (\<lambda>n. if 1 \<le> n \<and> n \<le> 9 then Some (take 512 (drop ((n - 1) * 512) full_fat)) else None)"

definition formatted_disk :: disk where
  "formatted_disk = format (new_FAT12Disk Map.empty)"

text \<open>
  ascii_upper: what the built-in toUpperCase gives on a string whose code units are all
  below 0x80 (there it maps a-z to A-Z and nothing else). The examples use it on such
  strings only.
\<close>

definition ascii_upper :: upper where
  "ascii_upper s = map (\<lambda>c. if 0x61 \<le> c \<and> c \<le> 0x7A then c - 0x20 else c) s"

section \<open>Properties of the interpreter\<close>

subsection \<open>Reading and writing single flags\<close>

lemma getFlag_bit: "getFlag f (push_bit n 1) = bit f n"
  unfolding getFlag_def push_bit_of_1 by (simp add: and_exp_eq_0_iff_not_bit)

lemma bit_setFlag:
  "bit (setFlag f (push_bit n 1) v) m = (if m = n then v else bit f m)"
  unfolding setFlag_def push_bit_of_1
  by (auto simp add: bit_simps)

lemma getFlag_setFlag:
  "getFlag (setFlag f (push_bit n 1) v) (push_bit m 1)
     = (if m = n then v else getFlag f (push_bit m 1))"
  by (simp only: getFlag_bit bit_setFlag)

lemma OF_setFlag_CF [simp]: "getFlag (setFlag f FLAGS_CF v) FLAGS_OF = getFlag f FLAGS_OF"
  unfolding FLAGS_CF_def FLAGS_OF_def by (subst getFlag_setFlag) simp_all

lemma OF_setFlag_ZF [simp]: "getFlag (setFlag f FLAGS_ZF v) FLAGS_OF = getFlag f FLAGS_OF"
  unfolding FLAGS_ZF_def FLAGS_OF_def by (subst getFlag_setFlag) simp_all

lemma OF_setFlag_SF [simp]: "getFlag (setFlag f FLAGS_SF v) FLAGS_OF = getFlag f FLAGS_OF"
  unfolding FLAGS_SF_def FLAGS_OF_def by (subst getFlag_setFlag) simp_all

lemma OF_setFlag_PF [simp]: "getFlag (setFlag f FLAGS_PF v) FLAGS_OF = getFlag f FLAGS_OF"
  unfolding FLAGS_PF_def FLAGS_OF_def by (subst getFlag_setFlag) simp_all

lemma OF_setFlag_OF [simp]: "getFlag (setFlag f FLAGS_OF v) FLAGS_OF = v"
  unfolding FLAGS_OF_def by (subst getFlag_setFlag) simp_all

lemma OF_updateZSP8 [simp]: "getFlag (updateZSP8 f r) FLAGS_OF = getFlag f FLAGS_OF"
  by (simp add: updateZSP8_def Let_def)

lemma OF_updateZSP16 [simp]: "getFlag (updateZSP16 f r) FLAGS_OF = getFlag f FLAGS_OF"
  by (simp add: updateZSP16_def Let_def)

subsection \<open>Shift and rotate: the count mask and the overflow flag\<close>

lemma OF_rol8_loop [simp]: "getFlag (snd (rol8_loop n s)) FLAGS_OF = getFlag (snd s) FLAGS_OF"
  by (induction n arbitrary: s) (simp_all add: Let_def)

lemma OF_ror8_loop [simp]: "getFlag (snd (ror8_loop n s)) FLAGS_OF = getFlag (snd s) FLAGS_OF"
  by (induction n arbitrary: s) (simp_all add: Let_def)

lemma OF_rcl8_loop [simp]: "getFlag (snd (rcl8_loop n s)) FLAGS_OF = getFlag (snd s) FLAGS_OF"
  by (induction n arbitrary: s) (simp_all add: Let_def)

lemma OF_rcr8_loop [simp]: "getFlag (snd (rcr8_loop n s)) FLAGS_OF = getFlag (snd s) FLAGS_OF"
  by (induction n arbitrary: s) (simp_all add: Let_def)

lemma OF_rol16_loop [simp]: "getFlag (snd (rol16_loop n s)) FLAGS_OF = getFlag (snd s) FLAGS_OF"
  by (induction n arbitrary: s) (simp_all add: Let_def)

lemma OF_ror16_loop [simp]: "getFlag (snd (ror16_loop n s)) FLAGS_OF = getFlag (snd s) FLAGS_OF"
  by (induction n arbitrary: s) (simp_all add: Let_def)

lemma OF_rcl16_loop [simp]: "getFlag (snd (rcl16_loop n s)) FLAGS_OF = getFlag (snd s) FLAGS_OF"
  by (induction n arbitrary: s) (simp_all add: Let_def)

lemma OF_rcr16_loop [simp]: "getFlag (snd (rcr16_loop n s)) FLAGS_OF = getFlag (snd s) FLAGS_OF"
  by (induction n arbitrary: s) (simp_all add: Let_def)

lemma msb8_of_masked: "((val AND 0xFF) AND 0x80 \<noteq> 0) = bit (val :: int) 7"
proof -
  have "(val AND 0xFF) AND 0x80 = val AND (0xFF AND 0x80)"
    by (simp only: and.assoc)
  also have "\<dots> = val AND 2 ^ 7"
    by simp
  finally show ?thesis
    by (simp only: and_exp_eq_0_iff_not_bit) simp
qed

lemma msb16_of_masked: "((val AND 0xFFFF) AND 0x8000 \<noteq> 0) = bit (val :: int) 15"
proof -
  have "(val AND 0xFFFF) AND 0x8000 = val AND (0xFFFF AND 0x8000)"
    by (simp only: and.assoc)
  also have "\<dots> = val AND 2 ^ 15"
    by simp
  finally show ?thesis
    by (simp only: and_exp_eq_0_iff_not_bit) simp
qed

lemma doShift8_mask: "doShift8 op val cnt fl = doShift8 op val (cnt AND 0x1F) fl"
  by (simp add: doShift8_def)

lemma doShift16_mask: "doShift16 op val cnt fl = doShift16 op val (cnt AND 0x1F) fl"
  by (simp add: doShift16_def)

lemma doShift8_zero: "cnt AND 0x1F = 0 \<Longrightarrow> doShift8 op val cnt fl = (val AND 0xFF, fl)"
  by (simp add: doShift8_def)

lemma doShift16_zero: "cnt AND 0x1F = 0 \<Longrightarrow> doShift16 op val cnt fl = (val AND 0xFFFF, fl)"
  by (simp add: doShift16_def)

lemma doShift8_OF_ge2:
  "2 \<le> cnt AND 0x1F \<Longrightarrow> getFlag (snd (doShift8 op val cnt fl)) FLAGS_OF = getFlag fl FLAGS_OF"
  by (simp add: doShift8_def Let_def split_beta)

lemma doShift16_OF_ge2:
  "2 \<le> cnt AND 0x1F \<Longrightarrow> getFlag (snd (doShift16 op val cnt fl)) FLAGS_OF = getFlag fl FLAGS_OF"
  by (simp add: doShift16_def Let_def split_beta)

lemma doShift8_SHR1:
  "cnt AND 0x1F = 1 \<Longrightarrow> getFlag (snd (doShift8 5 val cnt fl)) FLAGS_OF = bit val 7"
  using msb8_of_masked [of val] by (simp add: doShift8_def Let_def)

lemma doShift16_SHR1:
  "cnt AND 0x1F = 1 \<Longrightarrow> getFlag (snd (doShift16 5 val cnt fl)) FLAGS_OF = bit val 15"
  using msb16_of_masked [of val] by (simp add: doShift16_def Let_def)

lemma doShift8_SAR1:
  "cnt AND 0x1F = 1 \<Longrightarrow> \<not> getFlag (snd (doShift8 7 val cnt fl)) FLAGS_OF"
  by (simp add: doShift8_def Let_def)

lemma doShift16_SAR1:
  "cnt AND 0x1F = 1 \<Longrightarrow> \<not> getFlag (snd (doShift16 7 val cnt fl)) FLAGS_OF"
  by (simp add: doShift16_def Let_def)

text \<open>
  Claim C7. For every shift or rotate (sub-opcode op, byte or word width) the count is
  used only through its low five bits; a masked count of 0 returns the operand (masked to
  its width) and the flags word unchanged; with a masked count of 1 SHR (op 5) sets OF to
  the most significant bit of the original operand and SAR (op 7) clears OF; with a masked
  count of 2 or more OF keeps the value it had before the instruction.
\<close>

theorem shift_count_mask_and_OF:
  "doShift8 op val cnt fl = doShift8 op val (cnt AND 0x1F) fl
   \<and> doShift16 op val cnt fl = doShift16 op val (cnt AND 0x1F) fl
   \<and> (cnt AND 0x1F = 0 \<longrightarrow>
        doShift8 op val cnt fl = (val AND 0xFF, fl) \<and> doShift16 op val cnt fl = (val AND 0xFFFF, fl))
   \<and> (cnt AND 0x1F = 1 \<longrightarrow>
        getFlag (snd (doShift8 5 val cnt fl)) FLAGS_OF = bit val 7
        \<and> getFlag (snd (doShift16 5 val cnt fl)) FLAGS_OF = bit val 15
        \<and> \<not> getFlag (snd (doShift8 7 val cnt fl)) FLAGS_OF
        \<and> \<not> getFlag (snd (doShift16 7 val cnt fl)) FLAGS_OF)
   \<and> (2 \<le> cnt AND 0x1F \<longrightarrow>
        getFlag (snd (doShift8 op val cnt fl)) FLAGS_OF = getFlag fl FLAGS_OF
        \<and> getFlag (snd (doShift16 op val cnt fl)) FLAGS_OF = getFlag fl FLAGS_OF)"
proof (intro conjI impI)
  show "doShift8 op val cnt fl = doShift8 op val (cnt AND 0x1F) fl"
    by (rule doShift8_mask)
  show "doShift16 op val cnt fl = doShift16 op val (cnt AND 0x1F) fl"
    by (rule doShift16_mask)
next
  assume "cnt AND 0x1F = 0"
  then show "doShift8 op val cnt fl = (val AND 0xFF, fl)"
    and "doShift16 op val cnt fl = (val AND 0xFFFF, fl)"
    by (rule doShift8_zero, rule doShift16_zero)
next
  assume one: "cnt AND 0x1F = 1"
  show "getFlag (snd (doShift8 5 val cnt fl)) FLAGS_OF = bit val 7"
    using one by (rule doShift8_SHR1)
  show "getFlag (snd (doShift16 5 val cnt fl)) FLAGS_OF = bit val 15"
    using one by (rule doShift16_SHR1)
  show "\<not> getFlag (snd (doShift8 7 val cnt fl)) FLAGS_OF"
    using one by (rule doShift8_SAR1)
  show "\<not> getFlag (snd (doShift16 7 val cnt fl)) FLAGS_OF"
    using one by (rule doShift16_SAR1)
next
  assume "2 \<le> cnt AND 0x1F"
  then show "getFlag (snd (doShift8 op val cnt fl)) FLAGS_OF = getFlag fl FLAGS_OF"
    and "getFlag (snd (doShift16 op val cnt fl)) FLAGS_OF = getFlag fl FLAGS_OF"
    by (rule doShift8_OF_ge2, rule doShift16_OF_ge2)
qed

text \<open>
  The three cases at concrete inputs: SHR of 0x80 by 32 (masked count 0), by 33 (masked
  count 1, OF becomes 1) and a rotate by 34 (masked count 2, OF stays 0), starting from
  the reset flags word 0x0002.
\<close>

theorem shift_count_mask_and_OF_witness:
  "(32 :: int) AND 0x1F = 0 \<and> doShift8 5 0x80 32 2 = (0x80, 2)
   \<and> (33 :: int) AND 0x1F = 1 \<and> getFlag (snd (doShift8 5 0x80 33 2)) FLAGS_OF
   \<and> 2 \<le> (34 :: int) AND 0x1F \<and> \<not> getFlag (snd (doShift16 0 0x80 34 2)) FLAGS_OF"
proof -
  have z: "(32 :: int) AND 0x1F = 0" and o: "(33 :: int) AND 0x1F = 1"
    and t: "2 \<le> (34 :: int) AND 0x1F"
    by simp_all
  have nof: "\<not> getFlag 2 FLAGS_OF"
    by (simp add: getFlag_def FLAGS_OF_def)
  from shift_count_mask_and_OF [of 5 "0x80" 32 2] z
  have "doShift8 5 0x80 32 2 = (0x80 AND 0xFF, 2)" by blast
  then have a: "doShift8 5 0x80 32 2 = (0x80, 2)" by simp
  from shift_count_mask_and_OF [of 5 "0x80" 33 2] o
  have "getFlag (snd (doShift8 5 0x80 33 2)) FLAGS_OF = bit (0x80 :: int) 7" by blast
  moreover have "bit (0x80 :: int) 7" by (simp add: bit_iff_odd)
  ultimately have b: "getFlag (snd (doShift8 5 0x80 33 2)) FLAGS_OF" by (simp only:)
  from shift_count_mask_and_OF [of 0 "0x80" 34 2] t nof
  have c: "\<not> getFlag (snd (doShift16 0 0x80 34 2)) FLAGS_OF" by blast
  from z o t a b c show ?thesis by simp
qed

subsection \<open>Masks as remainders\<close>

lemma and_FFFFF_mod: "(x :: int) AND 0xFFFFF = x mod 1048576"
proof -
  have "x AND mask 20 = x mod 2 ^ 20"
    by (simp only: take_bit_eq_mask [symmetric] take_bit_eq_mod)
  then show ?thesis
    by (simp add: mask_eq_exp_minus_1)
qed

lemma segmented_mod: "segmented s off = (16 * s + off mod 65536) mod 1048576"
  by (simp add: segmented_def and_FFFFF_mod and_FFFF_mod push_bit_eq_mult mult.commute)

lemma segmented_mask_off [simp]: "segmented s (off AND 0xFFFF) = segmented s off"
  by (simp add: segmented_def)

lemma segmented_masked [simp]: "segmented s off AND 0xFFFFF = segmented s off"
  by (simp add: segmented_def)

lemma segmented_off_cong: "a mod 65536 = b mod 65536 \<Longrightarrow> segmented s a = segmented s b"
  by (simp add: segmented_mod)

lemma mod_neq:
  fixes a b :: int
  assumes "a - b \<noteq> 0" "\<bar>a - b\<bar> < 1048576"
  shows "a mod 1048576 \<noteq> b mod 1048576"
proof
  assume "a mod 1048576 = b mod 1048576"
  then have "1048576 dvd (a - b)" by (simp add: mod_eq_dvd_iff)
  with assms show False
    by (metis abs_0 dvd_abs_iff zdvd_not_zless zero_less_abs_iff)
qed

lemma mod_wrap:
  fixes t d :: int
  assumes "0 \<le> t" "t < 65536" "0 \<le> d" "d < 65536"
  shows "(t + d) mod 65536 = (if t + d < 65536 then t + d else t + d - 65536)"
proof (cases "t + d < 65536")
  case True
  with assms show ?thesis by (simp add: mod_pos_pos_trivial)
next
  case False
  have "(t + d - 65536) mod 65536 = t + d - 65536"
    using assms False by (intro mod_pos_pos_trivial) linarith+
  moreover have "(t + d - 65536) mod 65536 = (t + d) mod 65536"
    by simp
  ultimately have "(t + d) mod 65536 = t + d - 65536"
    by (simp only:)
  with False show ?thesis by (simp only: if_False)
qed

lemma off_ne:
  fixes x d e1 e2 :: int
  assumes d: "d = 2 \<or> d = 4" and e: "0 \<le> e1" "e1 \<le> 1" "0 \<le> e2" "e2 \<le> 1"
  shows "(x + d) mod 65536 + e1 \<noteq> x mod 65536 + e2"
proof -
  define t where "t = x mod 65536"
  have t: "0 \<le> t" "t < 65536" by (simp_all add: t_def)
  have "(x + d) mod 65536 = (t + d) mod 65536" by (simp add: t_def mod_simps)
  also have "\<dots> = (if t + d < 65536 then t + d else t + d - 65536)"
    using t d by (intro mod_wrap) auto
  finally have "(x + d) mod 65536 = (if t + d < 65536 then t + d else t + d - 65536)" .
  then show ?thesis
    unfolding t_def [symmetric] using d e t by (auto split: if_splits)
qed

lemma seg_bytes_distinct:
  fixes s x d e1 e2 :: int
  assumes d: "d = 2 \<or> d = 4" and e: "0 \<le> e1" "e1 \<le> 1" "0 \<le> e2" "e2 \<le> 1"
  shows "(segmented s (x + d) + e1) AND 0xFFFFF \<noteq> (segmented s x + e2) AND 0xFFFFF"
proof -
  have ne: "(x + d) mod 65536 + e1 \<noteq> x mod 65536 + e2"
    using d e by (rule off_ne)
  have l: "(segmented s (x + d) + e1) mod 1048576 = (16 * s + (x + d) mod 65536 + e1) mod 1048576"
    by (simp add: segmented_mod mod_simps)
  have r: "(segmented s x + e2) mod 1048576 = (16 * s + x mod 65536 + e2) mod 1048576"
    by (simp add: segmented_mod mod_simps)
  have "(16 * s + (x + d) mod 65536 + e1) mod 1048576 \<noteq> (16 * s + x mod 65536 + e2) mod 1048576"
  proof (rule mod_neq)
    show "16 * s + (x + d) mod 65536 + e1 - (16 * s + x mod 65536 + e2) \<noteq> 0"
      using ne by linarith
    have "0 \<le> (x + d) mod 65536" "(x + d) mod 65536 < 65536" "0 \<le> x mod 65536" "x mod 65536 < 65536"
      by simp_all
    then show "\<bar>16 * s + (x + d) mod 65536 + e1 - (16 * s + x mod 65536 + e2)\<bar> < 1048576"
      using e by linarith
  qed
  then show ?thesis
    unfolding and_FFFFF_mod l r .
qed

subsection \<open>Memory: a word read back, and words that do not overlap\<close>

lemma bytes_join_norm: "(v::int) AND 255 OR push_bit 8 (drop_bit 8 v) AND 65280 = v AND 65535"
proof -
  have m8: "(255::int) = mask 8" and m16: "(65535::int) = mask 16"
    and m88: "(65280::int) = push_bit 8 (mask 8)"
    by (simp_all add: mask_eq_exp_minus_1)
  show ?thesis
    unfolding m8 m16 m88
    by (rule bit_eqI) (auto simp add: bit_simps)
qed

lemma succ_mod_neq: "((a::int) + 1) AND 0xFFFFF \<noteq> a AND 0xFFFFF"
  unfolding and_FFFFF_mod by (rule mod_neq) simp_all

lemma read16_write16_same: "read16 (write16 m a v) a = v AND 0xFFFF"
  using succ_mod_neq [of a]
  by (simp add: read16_def write16_def read8_def write8_def bytes_join_norm)

lemma read16_write16_other:
  assumes "a AND 0xFFFFF \<noteq> b AND 0xFFFFF" "a AND 0xFFFFF \<noteq> (b + 1) AND 0xFFFFF"
    "(a + 1) AND 0xFFFFF \<noteq> b AND 0xFFFFF" "(a + 1) AND 0xFFFFF \<noteq> (b + 1) AND 0xFFFFF"
  shows "read16 (write16 m b v) a = read16 m a"
  using assms by (simp add: read16_def write16_def read8_def write8_def)

lemma read16_write16_above:
  assumes d: "d = 2 \<or> d = 4"
  shows "read16 (write16 m (segmented s x) v) (segmented s (x + d)) = read16 m (segmented s (x + d))"
proof (rule read16_write16_other)
  show "segmented s (x + d) AND 0xFFFFF \<noteq> segmented s x AND 0xFFFFF"
    using seg_bytes_distinct [OF d, of 0 0 s x] by simp
  show "segmented s (x + d) AND 0xFFFFF \<noteq> (segmented s x + 1) AND 0xFFFFF"
    using seg_bytes_distinct [OF d, of 0 1 s x] by simp
  show "(segmented s (x + d) + 1) AND 0xFFFFF \<noteq> segmented s x AND 0xFFFFF"
    using seg_bytes_distinct [OF d, of 1 0 s x] by simp
  show "(segmented s (x + d) + 1) AND 0xFFFFF \<noteq> (segmented s x + 1) AND 0xFFFFF"
    using seg_bytes_distinct [OF d, of 1 1 s x] by simp
qed

lemma read16_write16_above2:
  "read16 (write16 m (segmented s x) v) (segmented s (x + 2)) = read16 m (segmented s (x + 2))"
  by (rule read16_write16_above) simp

lemma read16_write16_above4:
  "read16 (write16 m (segmented s x) v) (segmented s (x + 4)) = read16 m (segmented s (x + 4))"
  by (rule read16_write16_above) simp

lemma read8_write16_other:
  "a AND 0xFFFFF \<noteq> b AND 0xFFFFF \<Longrightarrow> a AND 0xFFFFF \<noteq> (b + 1) AND 0xFFFFF
   \<Longrightarrow> read8 (write16 m b v) a = read8 m a"
  by (simp add: read8_def write16_def write8_def)

subsection \<open>Stack arithmetic\<close>

lemma sp_down2: "((((x::int) - 2) AND 0xFFFF) - 2) AND 0xFFFF = (x - 4) AND 0xFFFF"
  by (simp add: and_FFFF_mod mod_simps)

lemma sp_down3: "((((x::int) - 4) AND 0xFFFF) - 2) AND 0xFFFF = (x - 6) AND 0xFFFF"
  by (simp add: and_FFFF_mod mod_simps)

lemma sp_up1: "((((x::int) - 6) AND 0xFFFF) + 2) AND 0xFFFF = (x - 4) AND 0xFFFF"
  by (simp add: and_FFFF_mod mod_simps)

lemma sp_up2: "((((x::int) - 4) AND 0xFFFF) + 2) AND 0xFFFF = (x - 2) AND 0xFFFF"
  by (simp add: and_FFFF_mod mod_simps)

lemma sp_up3: "0 \<le> (x::int) \<Longrightarrow> x < 65536 \<Longrightarrow> (((x - 2) AND 0xFFFF) + 2) AND 0xFFFF = x"
  by (simp add: and_FFFF_mod mod_simps)

lemma ip_rewind:
  "0 \<le> (x::int) \<Longrightarrow> x < 65536 \<Longrightarrow> (((((x + 1) AND 0xFFFF) + 1) AND 0xFFFF) - 2) AND 0xFFFF = x"
  by (simp add: and_FFFF_mod mod_simps)

lemma push_fields [simp]:
  "sp (reg (push v c)) = (sp (reg c) - 2) AND 0xFFFF"
  "ss (reg (push v c)) = ss (reg c)"
  "cs (reg (push v c)) = cs (reg c)"
  "ip (reg (push v c)) = ip (reg c)"
  "flags (reg (push v c)) = flags (reg c)"
  "ax (reg (push v c)) = ax (reg c)"
  "dx (reg (push v c)) = dx (reg c)"
  "halted (push v c) = halted c"
  "haltReason (push v c) = haltReason c"
  "biosKeyBuffer (push v c) = biosKeyBuffer c"
  by (simp_all add: push_def Let_def)

lemma fetchByte_fields [simp]:
  "fst (fetchByte c) = read8 (mem c) (segmented (cs (reg c)) (ip (reg c)))"
  "ip (reg (snd (fetchByte c))) = (ip (reg c) + 1) AND 0xFFFF"
  "sp (reg (snd (fetchByte c))) = sp (reg c)"
  "ss (reg (snd (fetchByte c))) = ss (reg c)"
  "cs (reg (snd (fetchByte c))) = cs (reg c)"
  "flags (reg (snd (fetchByte c))) = flags (reg c)"
  "ax (reg (snd (fetchByte c))) = ax (reg c)"
  "dx (reg (snd (fetchByte c))) = dx (reg c)"
  "mem (snd (fetchByte c)) = mem c"
  "halted (snd (fetchByte c)) = halted c"
  "haltReason (snd (fetchByte c)) = haltReason c"
  "biosKeyBuffer (snd (fetchByte c)) = biosKeyBuffer c"
  "segOverride (snd (fetchByte c)) = segOverride c"
  by (simp_all add: fetchByte_def Let_def)

text \<open>The three words of an interrupt frame, read back from the stack.\<close>

lemma mem_push3:
  "mem (push z (push y (push x c)))
     = write16 (write16 (write16 (mem c) (segmented (ss (reg c)) (sp (reg c) - 6 + 4)) (x AND 0xFFFF))
                  (segmented (ss (reg c)) (sp (reg c) - 6 + 2)) (y AND 0xFFFF))
         (segmented (ss (reg c)) (sp (reg c) - 6)) (z AND 0xFFFF)"
  by (simp add: push_def Let_def sp_down2 sp_down3)



lemma push3_bot:
  "read16 (mem (push z (push y (push x c)))) (segmented (ss (reg c)) (sp (reg c) - 2)) = x AND 0xFFFF"
proof -
  have e: "segmented (ss (reg c)) (sp (reg c) - 6 + 4) = segmented (ss (reg c)) (sp (reg c) - 6 + 2 + 2)"
    by simp
  have "read16 (mem (push z (push y (push x c)))) (segmented (ss (reg c)) (sp (reg c) - 6 + 4)) = (x AND 0xFFFF) AND 0xFFFF"
    unfolding mem_push3
    apply (simp only: read16_write16_above4)
    apply (simp only: e read16_write16_above2)
    apply (simp only: e [symmetric] read16_write16_same)
    done
  then show ?thesis by simp
qed

subsection \<open>Flags and registers that the helpers leave alone\<close>

lemma TF_setFlag_IF [simp]: "getFlag (setFlag f FLAGS_IF v) FLAGS_TF = getFlag f FLAGS_TF"
  unfolding FLAGS_IF_def FLAGS_TF_def by (subst getFlag_setFlag) simp_all

lemma IF_setFlag_IF [simp]: "getFlag (setFlag f FLAGS_IF v) FLAGS_IF = v"
  unfolding FLAGS_IF_def by (subst getFlag_setFlag) simp_all

lemma flag_consts:
  "FLAGS_CF = 1" "FLAGS_ZF = 64" "FLAGS_TF = 256" "FLAGS_IF = 512" "FLAGS_DF = 1024" "FLAGS_OF = 2048"
  by (simp_all add: FLAGS_CF_def FLAGS_ZF_def FLAGS_TF_def FLAGS_IF_def FLAGS_DF_def FLAGS_OF_def)

lemmas reg8_defs =
  get_al_def get_ah_def get_bl_def get_bh_def get_cl_def get_ch_def get_dl_def get_dh_def
  set_al_def set_ah_def set_bl_def set_bh_def set_cl_def set_ch_def set_dl_def set_dh_def

lemma pop_fields [simp]:
  "fst (pop c) = read16 (mem c) (segmented (ss (reg c)) (sp (reg c)))"
  "sp (reg (snd (pop c))) = (sp (reg c) + 2) AND 0xFFFF"
  "ss (reg (snd (pop c))) = ss (reg c)"
  "mem (snd (pop c)) = mem c"
  by (simp_all add: pop_def Let_def)

lemma fetchWord_fields [simp]:
  "ax (reg (snd (fetchWord c))) = ax (reg c)"
  "dx (reg (snd (fetchWord c))) = dx (reg c)"
  "mem (snd (fetchWord c)) = mem c"
  "halted (snd (fetchWord c)) = halted c"
  by (simp_all add: fetchWord_def split_beta)

lemma calcEA_fields [simp]:
  "ax (reg (snd (calcEA md rm c))) = ax (reg c)"
  "dx (reg (snd (calcEA md rm c))) = dx (reg c)"
  "mem (snd (calcEA md rm c)) = mem c"
  "halted (snd (calcEA md rm c)) = halted c"
  by (simp_all add: calcEA_def Let_def split_beta fetchSByte_def fetchSWord_def)

lemma readRM_fields [simp]:
  "ax (reg (snd (readRM8 md rm c))) = ax (reg c)"
  "dx (reg (snd (readRM8 md rm c))) = dx (reg c)"
  "mem (snd (readRM8 md rm c)) = mem c"
  "halted (snd (readRM8 md rm c)) = halted c"
  "ax (reg (snd (readRM16 md rm c))) = ax (reg c)"
  "dx (reg (snd (readRM16 md rm c))) = dx (reg c)"
  "mem (snd (readRM16 md rm c)) = mem c"
  "halted (snd (readRM16 md rm c)) = halted c"
  by (simp_all add: readRM8_def readRM16_def split_beta)

lemma doInterrupt_ivt:
  "H v = None \<Longrightarrow>
   doInterrupt H v c = c\<lparr>reg := (reg c)\<lparr>cs := read16 (mem c) (v * 4 + 2), ip := read16 (mem c) (v * 4)\<rparr>\<rparr>"
  by (simp add: doInterrupt_def Let_def)

lemma sp_six:
  "0 \<le> (x::int) \<Longrightarrow> x < 65536 \<Longrightarrow>
   (((((((x - 6) AND 0xFFFF) + 2) AND 0xFFFF) + 2) AND 0xFFFF) + 2) AND 0xFFFF = x"
  by (simp add: and_FFFF_mod mod_simps)

lemma int_frame_bytes_cong:
  "ss (reg c1) = ss (reg c) \<Longrightarrow> sp (reg c1) = sp (reg c) \<Longrightarrow> int_frame_bytes c1 = int_frame_bytes c"
  by (simp add: int_frame_bytes_def)

lemma frame_pushes:
  assumes "a AND 0xFFFFF \<notin> int_frame_bytes c"
  shows "read8 (mem (push z (push y (push x c)))) a = read8 (mem c) a"
  using assms
  by (simp add: push_def Let_def int_frame_bytes_def sp_down2 sp_down3 read8_write16_other)


subsection \<open>Repeat prefixes on MOVS, LODS and STOS\<close>

declare strLoop.simps [simp del]

text \<open>
  With the prefix F2 the loop of strStep leaves after the first iteration whenever ZF is
  set after the body, whatever the string instruction.
\<close>

lemma strLoop_REPNE_ZF:
  assumes "cx (reg c) \<noteq> 0" and "getFlag (flags (reg (str_body op c))) FLAGS_ZF"
  shows "strLoop REPNE op c
         = (str_body op c)\<lparr>reg := (reg (str_body op c))\<lparr>cx := (cx (reg (str_body op c)) - 1) AND 0xFFFF\<rparr>\<rparr>"
  using assms by (subst strLoop.simps) (simp add: Let_def cpu_getFlag_def)

text \<open>
  Claim C1 at a concrete input. REPNE MOVSB (F2 A4) with CX = 2 and ZF already set: one
  step of the interpreter copies one byte and stops with CX = 1 and DI = 0x201; the byte
  at 0x201 is not written. The loop of strStep tests ZF for the prefix F2 whatever the
  instruction; only the test for F3 asks for _lastStrOpSetsZF.
\<close>

theorem repne_movsb_stops_on_stale_ZF:
  "\<exists>c'. step (\<lambda>v. None) repne_movsb_state = Some c'
        \<and> cx (reg c') = 1 \<and> di (reg c') = 0x201 \<and> mem c' 0x200 = 0x41 \<and> mem c' 0x201 = 0"
  apply (simp add: step_def repne_movsb_state_def new_CPU8086_def new_Registers_def)
  apply (subst priv_step.simps)
  apply (simp add: fetchByte_def segmented_def read8_def Let_def)
  apply (subst priv_step.simps)
  apply (simp add: fetchByte_def segmented_def read8_def Let_def exec_op_def str_case_def
      strStep_def)
  apply (subst strLoop_REPNE_ZF)
    apply simp
   apply (simp add: Let_def siDir_def cpu_getFlag_def getFlag_def flag_consts)
  apply (subst strLoop_REPNE_ZF)
    apply simp
   apply (simp add: Let_def siDir_def cpu_getFlag_def getFlag_def flag_consts)
  apply (subst strLoop_REPNE_ZF)
    apply simp
   apply (simp add: Let_def siDir_def cpu_getFlag_def getFlag_def flag_consts)
  apply (subst strLoop_REPNE_ZF)
    apply simp
   apply (simp add: Let_def siDir_def cpu_getFlag_def getFlag_def flag_consts)
  apply (simp add: Let_def cpu_getFlag_def siDir_def segAddr_def resolveSeg_def segmented_def
      read8_def write8_def getFlag_def flag_consts)
  done

subsection \<open>INT n, INT 3 and INTO\<close>









subsection \<open>DIV and IDIV: the divide error\<close>

text \<open>
  Claim C3. The interrupt vector 0 has no synthetic handler (registerBiosHandlers registers
  none). For DIV and IDIV, byte and word form, with any r/m operand: when the divisor is
  zero or the quotient does not fit, the instruction ends with AX and DX unchanged, halted
  unchanged (so still false), and CS:IP loaded from entry 0 of the vector table.
\<close>

theorem div_trap_raises_int0:
  assumes nh: "H 0 = None"
    and dec: "decodeModRM (fst (fetchByte c)) = (md, op, rm)"
  shows "(op = 6 \<and> div8_traps (fst (readRM8 md rm (snd (fetchByte c)))) (reg c) \<longrightarrow>
            (\<exists>c'. op_F6 H c = Some c' \<and> int0_taken c c'))
       \<and> (op = 7 \<and> idiv8_traps (fst (readRM8 md rm (snd (fetchByte c)))) (reg c) \<longrightarrow>
            (\<exists>c'. op_F6 H c = Some c' \<and> int0_taken c c'))
       \<and> (op = 6 \<and> div16_traps (fst (readRM16 md rm (snd (fetchByte c)))) (reg c) \<longrightarrow>
            (\<exists>c'. op_F7 H c = Some c' \<and> int0_taken c c'))
       \<and> (op = 7 \<and> idiv16_traps (fst (readRM16 md rm (snd (fetchByte c)))) (reg c) \<longrightarrow>
            (\<exists>c'. op_F7 H c = Some c' \<and> int0_taken c c'))"
  using dec
  by (auto simp add: op_F6_def op_F7_def split_beta Let_def doInterrupt_ivt [of H 0, OF nh]
      int0_taken_def div8_traps_def idiv8_traps_def div16_traps_def idiv16_traps_def
      simp del: fetchByte_fields(1))

text \<open>
  DIV BL with BL = 0 on the machine div_zero_state: AX keeps 0x1234, the interpreter is
  not halted and CS:IP = F000:FF00, the address in entry 0 of the vector table.
\<close>

theorem div_trap_raises_int0_witness:
  "bios_handlers None 0 = None
   \<and> decodeModRM (fst (fetchByte (after_opcode div_zero_state))) = (3, 6, 3)
   \<and> div8_traps (fst (readRM8 3 3 (snd (fetchByte (after_opcode div_zero_state))))) (reg (after_opcode div_zero_state))
   \<and> (\<exists>c'. op_F6 (bios_handlers None) (after_opcode div_zero_state) = Some c'
          \<and> ax (reg c') = 0x1234 \<and> \<not> halted c' \<and> cs (reg c') = 0xF000 \<and> ip (reg c') = 0xFF00)"
proof -
  let ?H = "bios_handlers None"
  let ?c = "after_opcode div_zero_state"
  have h: "?H 0 = None"
    by (simp add: bios_handlers_def)
  have b: "fst (fetchByte ?c) = 0xF3"
    by (simp add: after_opcode_def div_zero_state_def new_CPU8086_def new_Registers_def
        segmented_def read8_def)
  have dec: "decodeModRM (fst (fetchByte ?c)) = (3, 6, 3)"
    unfolding b by (simp add: decodeModRM_def)
  have a: "fst (readRM8 3 3 (snd (fetchByte ?c))) = 0"
    by (simp add: readRM8_def getReg8_def get_bl_def after_opcode_def div_zero_state_def
        new_CPU8086_def new_Registers_def fetchByte_def Let_def)
  have t: "div8_traps (fst (readRM8 3 3 (snd (fetchByte ?c)))) (reg ?c)"
    unfolding a by (simp add: div8_traps_def)
  have v: "ax (reg ?c) = 0x1234" "\<not> halted ?c" "read16 (mem ?c) 2 = 0xF000" "read16 (mem ?c) 0 = 0xFF00"
    by (simp_all add: after_opcode_def div_zero_state_def new_CPU8086_def new_Registers_def
        read16_def read8_def)
  from div_trap_raises_int0 [of ?H ?c 3 6 3, OF h dec] t
  obtain c' where "op_F6 ?H ?c = Some c'" "int0_taken ?c c'"
    by blast
  with v have "op_F6 ?H ?c = Some c' \<and> ax (reg c') = 0x1234 \<and> \<not> halted c'
      \<and> cs (reg c') = 0xF000 \<and> ip (reg c') = 0xFF00"
    by (simp add: int0_taken_def)
  then have "\<exists>c'. op_F6 ?H ?c = Some c' \<and> ax (reg c') = 0x1234 \<and> \<not> halted c'
      \<and> cs (reg c') = 0xF000 \<and> ip (reg c') = 0xFF00"
    by blast
  with h dec t show ?thesis by blast
qed

subsection \<open>Bit 1 of the flags word\<close>

text \<open>
  Claim C6 at a concrete input. From the reset state, with the BIOS handlers registered,
  one step that executes INT 19h ends with the flags word 0: bit 1 is lost. The bootstrap
  handler calls doInterrupt(0x13), which pops the frame of the INT 19h; the outer
  doInterrupt then pops three more words, and assigns the third to the flags without the
  mask that IRET and POPF apply.
\<close>

theorem int19_loses_reserved_flag_bit:
  "\<exists>c'. step (bios_handlers None) int19_state = Some c'
        \<and> flags (reg int19_state) AND 2 = 2 \<and> flags (reg c') AND 2 = 0"
  apply (simp add: step_def int19_state_def new_CPU8086_def new_Registers_def)
  apply (subst priv_step.simps)
  apply (simp add: fetchByte_def segmented_def read8_def Let_def exec_op_def op_CD_def
      push_def pop_def write16_def write8_def read16_def cpu_setFlag_def cpu_getFlag_def
      setFlag_def getFlag_def flag_consts doInterrupt_def bios_handlers_def disk_handlers_def
      int19_handler_def int13_handler_def reg8_defs split_beta)
  done

subsection \<open>INT 16h on an empty key buffer\<close>

lemma op_CD_keywait:
  assumes h: "H 0x16 = Some int16_handler"
    and code: "read8 (mem c) (segmented (cs (reg c)) (ip (reg c))) = 0x16"
    and ah: "get_ah (reg c) = 0x00"
    and empty: "biosKeyBuffer c = []"
  shows "halted (op_CD H c) \<and> haltReason (op_CD H c) = ''key_wait''
         \<and> sp (reg (op_CD H c)) = (((((((sp (reg c) - 6) AND 0xFFFF) + 2) AND 0xFFFF) + 2) AND 0xFFFF) + 2) AND 0xFFFF
         \<and> cs (reg (op_CD H c)) = cs (reg c)
         \<and> ip (reg (op_CD H c)) = (((ip (reg c) + 1) AND 0xFFFF) - 2) AND 0xFFFF
         \<and> mem (op_CD H c)
             = mem (push ((ip (reg c) + 1) AND 0xFFFF) (push (cs (reg c)) (push (flags (reg c)) (snd (fetchByte c)))))"
  using assms
  by (simp add: op_CD_def split_beta Let_def doInterrupt_def cpu_setFlag_def int16_handler_def
      get_ah_def pop_def sp_down2 sp_down3)

lemma pop3_of_pushes:
  assumes wf: "0 \<le> sp (reg c)" "sp (reg c) < 65536"
    and c': "mem c' = mem (push z (push y (push x c)))"
       "ss (reg c') = ss (reg c)" "sp (reg c') = (sp (reg c) - 6) AND 0xFFFF"
  shows "fst (pop (snd (pop (snd (pop c'))))) = x AND 0xFFFF"
    "sp (reg (snd (pop (snd (pop (snd (pop c'))))))) = sp (reg c)"
proof -
  have a: "segmented (ss (reg c)) (((sp (reg c) - 6) AND 0xFFFF) + 2) = segmented (ss (reg c)) (sp (reg c) - 4)"
    by (rule segmented_off_cong) (simp add: and_FFFF_mod mod_simps)
  have b: "segmented (ss (reg c)) (((sp (reg c) - 4) AND 0xFFFF) + 2) = segmented (ss (reg c)) (sp (reg c) - 2)"
    by (rule segmented_off_cong) (simp add: and_FFFF_mod mod_simps)
  show "fst (pop (snd (pop (snd (pop c'))))) = x AND 0xFFFF"
    using wf by (simp add: c' a b sp_up1 sp_up2 sp_up3 push3_bot)
  show "sp (reg (snd (pop (snd (pop (snd (pop c'))))))) = sp (reg c)"
    using wf by (simp add: c' sp_up1 sp_up2 sp_up3)
qed

lemma op_CD_keywait_flags:
  assumes h: "H 0x16 = Some int16_handler"
    and code: "read8 (mem c) (segmented (cs (reg c)) (ip (reg c))) = 0x16"
    and ah: "get_ah (reg c) = 0x00"
    and empty: "biosKeyBuffer c = []"
    and wf: "0 \<le> sp (reg c)" "sp (reg c) < 65536"
  shows "flags (reg (op_CD H c)) = flags (reg c) AND 0xFFFF"
proof -
  let ?c0 = "snd (fetchByte c)"
  let ?p = "push (ip (reg ?c0)) (push (cs (reg ?c0)) (push (flags (reg ?c0)) ?c0))"
  let ?e = "int16_handler (cpu_setFlag FLAGS_IF False ?p)"
  have w: "0 \<le> sp (reg ?c0)" "sp (reg ?c0) < 65536" using wf by simp_all
  have e: "mem ?e = mem ?p" "ss (reg ?e) = ss (reg ?c0)" "sp (reg ?e) = (sp (reg ?c0) - 6) AND 0xFFFF"
    using ah empty
    by (simp_all add: int16_handler_def Let_def cpu_setFlag_def get_ah_def sp_down2 sp_down3)
  have "flags (reg (op_CD H c)) = fst (pop (snd (pop (snd (pop ?e)))))"
    using h code ah empty
    by (simp add: op_CD_def split_beta Let_def doInterrupt_def int16_handler_def cpu_setFlag_def
        get_ah_def)
  also have "\<dots> = flags (reg ?c0) AND 0xFFFF"
    by (rule pop3_of_pushes [OF w e])
  finally show ?thesis by simp
qed

text \<open>
  Claim C8 as stated fails in two ways. The tag that the handler stores is 'key_wait', with
  an underscore, not "key-wait". And when the six bytes of the interrupt frame lie on the
  instruction (SS:SP = F000:FFF2 with CD 16 at F000:FFF0), the step halts with CS:IP =
  F000:FFF0 again, but the two bytes there are then 02 00, the flags word that was pushed.
\<close>

theorem int16_key_wait_tag_and_overwritten_instruction:
  "(\<exists>c'. step (bios_handlers None) (int16_state 0) = Some c' \<and> halted c'
         \<and> haltReason c' = ''key_wait'' \<and> haltReason c' \<noteq> ''key-wait'')
   \<and> (\<exists>c'. step (bios_handlers None) int16_overlap_state = Some c' \<and> halted c'
         \<and> read8 (mem int16_overlap_state) 0xFFFF0 = 0xCD \<and> read8 (mem int16_overlap_state) 0xFFFF1 = 0x16
         \<and> cs (reg c') = 0xF000 \<and> ip (reg c') = 0xFFF0 \<and> sp (reg c') = 0xFFF2
         \<and> read8 (mem c') 0xFFFF0 = 0x02 \<and> read8 (mem c') 0xFFFF1 = 0x00)"
proof (intro conjI)
  show "\<exists>c'. step (bios_handlers None) (int16_state 0) = Some c' \<and> halted c'
         \<and> haltReason c' = ''key_wait'' \<and> haltReason c' \<noteq> ''key-wait''"
    apply (simp add: step_def int16_state_def new_CPU8086_def new_Registers_def)
    apply (subst priv_step.simps)
    apply (simp add: fetchByte_def segmented_def read8_def Let_def exec_op_def op_CD_def
        push_def pop_def write16_def write8_def read16_def cpu_setFlag_def cpu_getFlag_def
        setFlag_def getFlag_def flag_consts doInterrupt_def bios_handlers_def
        int16_handler_def reg8_defs split_beta)
    done
  show "\<exists>c'. step (bios_handlers None) int16_overlap_state = Some c' \<and> halted c'
         \<and> read8 (mem int16_overlap_state) 0xFFFF0 = 0xCD \<and> read8 (mem int16_overlap_state) 0xFFFF1 = 0x16
         \<and> cs (reg c') = 0xF000 \<and> ip (reg c') = 0xFFF0 \<and> sp (reg c') = 0xFFF2
         \<and> read8 (mem c') 0xFFFF0 = 0x02 \<and> read8 (mem c') 0xFFFF1 = 0x00"
    apply (simp add: step_def int16_overlap_state_def new_CPU8086_def new_Registers_def)
    apply (subst priv_step.simps)
    apply (simp add: fetchByte_def segmented_def read8_def Let_def exec_op_def op_CD_def
        push_def pop_def write16_def write8_def read16_def cpu_setFlag_def cpu_getFlag_def
        setFlag_def getFlag_def flag_consts doInterrupt_def bios_handlers_def
        int16_handler_def reg8_defs split_beta)
    done
qed

text \<open>
  Claim C8, amended. The keyboard handler is registered for vector 16h, the interpreter is
  running, CS:IP address the bytes CD 16, AH = 0x00 and the key buffer is empty (IP and SP
  are 16-bit values). Then one step ends halted with haltReason 'key_wait'. The flags word,
  CS and the offset behind the instruction have been pushed: memory is what these three
  pushes leave, so it differs from before in the six bytes of the frame at most. The three
  words have been taken off again: SP is as before, and so are the flags (16 bits), CS and
  IP, so CS:IP address the instruction again. When none of the six frame bytes is one of
  the two bytes of the instruction, these still read CD 16.
\<close>

theorem int16_key_wait_pushes_frame_and_rearms:
  assumes h: "H 0x16 = Some int16_handler"
    and run: "\<not> halted c" "waitCycles c \<le> 0"
    and code: "read8 (mem c) (segmented (cs (reg c)) (ip (reg c))) = 0xCD"
              "read8 (mem c) (segmented (cs (reg c)) ((ip (reg c) + 1) AND 0xFFFF)) = 0x16"
    and ah: "get_ah (reg c) = 0x00"
    and empty: "biosKeyBuffer c = []"
    and wf: "0 \<le> ip (reg c)" "ip (reg c) < 65536" "0 \<le> sp (reg c)" "sp (reg c) < 65536"
  shows "\<exists>c'. step H c = Some c' \<and> halted c' \<and> haltReason c' = ''key_wait''
           \<and> mem c' = mem (push ((ip (reg c) + 2) AND 0xFFFF) (push (cs (reg c)) (push (flags (reg c)) c)))
           \<and> sp (reg c') = sp (reg c) \<and> flags (reg c') = flags (reg c) AND 0xFFFF
           \<and> cs (reg c') = cs (reg c) \<and> ip (reg c') = ip (reg c)
           \<and> (\<forall>a. a AND 0xFFFFF \<notin> int_frame_bytes c \<longrightarrow> read8 (mem c') a = read8 (mem c) a)
           \<and> (segmented (cs (reg c)) (ip (reg c)) AND 0xFFFFF \<notin> int_frame_bytes c
              \<and> segmented (cs (reg c)) ((ip (reg c) + 1) AND 0xFFFF) AND 0xFFFFF \<notin> int_frame_bytes c
              \<longrightarrow> read8 (mem c') (segmented (cs (reg c')) (ip (reg c'))) = 0xCD
                \<and> read8 (mem c') (segmented (cs (reg c')) ((ip (reg c') + 1) AND 0xFFFF)) = 0x16)"
proof -
  define c1 where "c1 = (snd (fetchByte (c\<lparr>segOverride := None, repPrefix := None\<rparr>)))\<lparr>eaCached := False\<rparr>"
  have st: "step H c = Some (op_CD H c1)"
    using run code(1)
    by (simp add: step_def c1_def priv_step.simps [of H "c\<lparr>segOverride := None, repPrefix := None\<rparr>"]
        Let_def exec_op_def)
  have a1: "read8 (mem c1) (segmented (cs (reg c1)) (ip (reg c1))) = 0x16"
    using code(2) by (simp add: c1_def)
  have a2: "get_ah (reg c1) = 0x00"
    using ah by (simp add: c1_def get_ah_def)
  have a3: "biosKeyBuffer c1 = []"
    using empty by (simp add: c1_def)
  have r: "sp (reg c1) = sp (reg c)" "cs (reg c1) = cs (reg c)" "ip (reg c1) = (ip (reg c) + 1) AND 0xFFFF"
    "ss (reg c1) = ss (reg c)" "mem c1 = mem c" "flags (reg c1) = flags (reg c)"
    by (simp_all add: c1_def)
  have w1: "0 \<le> sp (reg c1)" "sp (reg c1) < 65536" using wf r by simp_all
  note k = op_CD_keywait [of H c1, OF h a1 a2 a3]
  have fl: "flags (reg (op_CD H c1)) = flags (reg c) AND 0xFFFF"
    using op_CD_keywait_flags [of H c1, OF h a1 a2 a3 w1] r by simp
  have fr: "int_frame_bytes (snd (fetchByte c1)) = int_frame_bytes c"
    by (rule int_frame_bytes_cong) (simp_all add: r)
  have ret: "(((ip (reg c) + 1) AND 0xFFFF) + 1) AND 0xFFFF = (ip (reg c) + 2) AND 0xFFFF"
    by (simp add: and_FFFF_mod mod_simps add.commute)
  have pm: "mem (push z (push y (push x (snd (fetchByte c1))))) = mem (push z (push y (push x c)))" for x y z
    by (simp add: push_def Let_def r)
  have mm: "mem (op_CD H c1)
      = mem (push ((ip (reg c) + 2) AND 0xFFFF) (push (cs (reg c)) (push (flags (reg c)) c)))"
    using k by (simp add: r ret pm)
  have m: "\<forall>a. a AND 0xFFFFF \<notin> int_frame_bytes c \<longrightarrow> read8 (mem (op_CD H c1)) a = read8 (mem c) a"
    using k fr by (simp add: frame_pushes r)
  have s: "sp (reg (op_CD H c1)) = sp (reg c)"
    using k wf by (simp add: r sp_six)
  have i: "ip (reg (op_CD H c1)) = ip (reg c)"
    using k wf by (simp add: r ip_rewind)
  have cc: "cs (reg (op_CD H c1)) = cs (reg c)"
    using k by (simp add: r)
  have b: "segmented (cs (reg c)) (ip (reg c)) AND 0xFFFFF \<notin> int_frame_bytes c
              \<and> segmented (cs (reg c)) ((ip (reg c) + 1) AND 0xFFFF) AND 0xFFFFF \<notin> int_frame_bytes c
      \<longrightarrow> read8 (mem (op_CD H c1)) (segmented (cs (reg (op_CD H c1))) (ip (reg (op_CD H c1)))) = 0xCD
        \<and> read8 (mem (op_CD H c1)) (segmented (cs (reg (op_CD H c1))) ((ip (reg (op_CD H c1)) + 1) AND 0xFFFF)) = 0x16"
    using m code by (simp add: i cc)
  from k have hh: "halted (op_CD H c1)" "haltReason (op_CD H c1) = ''key_wait''" by blast+
  show ?thesis
    using st hh mm s fl cc i m b by (intro exI [of _ "op_CD H c1"]) (simp only: simp_thms)
qed

text \<open>
  On the machine int16_state 0 (CD 16 at F000:FFF0, AH = 0, no key, SS:SP = 0000:FFFE): the
  step halts with 'key_wait'; SP = 0xFFFE, the flags 0x0002 and IP = 0xFFF0 again; the frame
  02 00, 00 F0, F2 FF is in memory below SP; and the two bytes at CS:IP still read CD 16.
\<close>

theorem int16_key_wait_pushes_frame_and_rearms_witness:
  "\<exists>c'. step (bios_handlers None) (int16_state 0) = Some c' \<and> halted c' \<and> haltReason c' = ''key_wait''
        \<and> sp (reg c') = 0xFFFE \<and> flags (reg c') = 0x0002 \<and> cs (reg c') = 0xF000 \<and> ip (reg c') = 0xFFF0
        \<and> read16 (mem c') 0xFFFC = 0x0002 \<and> read16 (mem c') 0xFFFA = 0xF000 \<and> read16 (mem c') 0xFFF8 = 0xFFF2
        \<and> read8 (mem c') (segmented (cs (reg c')) (ip (reg c'))) = 0xCD
        \<and> read8 (mem c') (segmented (cs (reg c')) ((ip (reg c') + 1) AND 0xFFFF)) = 0x16"
proof -
  let ?H = "bios_handlers None"
  let ?c = "int16_state 0"
  have h: "?H 0x16 = Some int16_handler"
    by (simp add: bios_handlers_def)
  have v: "\<not> halted ?c" "waitCycles ?c \<le> 0"
    "read8 (mem ?c) (segmented (cs (reg ?c)) (ip (reg ?c))) = 0xCD"
    "read8 (mem ?c) (segmented (cs (reg ?c)) ((ip (reg ?c) + 1) AND 0xFFFF)) = 0x16"
    "get_ah (reg ?c) = 0x00" "biosKeyBuffer ?c = []"
    "0 \<le> ip (reg ?c)" "ip (reg ?c) < 65536" "0 \<le> sp (reg ?c)" "sp (reg ?c) < 65536"
    by (simp_all add: int16_state_def new_CPU8086_def new_Registers_def segmented_def read8_def get_ah_def)
  have w: "sp (reg ?c) = 0xFFFE" "cs (reg ?c) = 0xF000" "ip (reg ?c) = 0xFFF0" "flags (reg ?c) = 0x0002"
    "segmented (cs (reg ?c)) (ip (reg ?c)) AND 0xFFFFF \<notin> int_frame_bytes ?c"
    "segmented (cs (reg ?c)) ((ip (reg ?c) + 1) AND 0xFFFF) AND 0xFFFFF \<notin> int_frame_bytes ?c"
    by (simp_all add: int16_state_def new_CPU8086_def new_Registers_def segmented_def read8_def
        int_frame_bytes_def Let_def)
  have p: "read16 (mem (push ((ip (reg ?c) + 2) AND 0xFFFF) (push (cs (reg ?c)) (push (flags (reg ?c)) ?c)))) 0xFFFC = 0x0002"
    "read16 (mem (push ((ip (reg ?c) + 2) AND 0xFFFF) (push (cs (reg ?c)) (push (flags (reg ?c)) ?c)))) 0xFFFA = 0xF000"
    "read16 (mem (push ((ip (reg ?c) + 2) AND 0xFFFF) (push (cs (reg ?c)) (push (flags (reg ?c)) ?c)))) 0xFFF8 = 0xFFF2"
    by (simp_all add: int16_state_def new_CPU8086_def new_Registers_def segmented_def push_def Let_def
        read16_def read8_def write16_def write8_def)
  from int16_key_wait_pushes_frame_and_rearms [of ?H ?c, OF h v]
  obtain c' where c': "step ?H ?c = Some c'" "halted c'" "haltReason c' = ''key_wait''"
    "mem c' = mem (push ((ip (reg ?c) + 2) AND 0xFFFF) (push (cs (reg ?c)) (push (flags (reg ?c)) ?c)))"
    "sp (reg c') = sp (reg ?c)" "flags (reg c') = flags (reg ?c) AND 0xFFFF"
    "cs (reg c') = cs (reg ?c)" "ip (reg c') = ip (reg ?c)"
    "segmented (cs (reg ?c)) (ip (reg ?c)) AND 0xFFFFF \<notin> int_frame_bytes ?c
       \<and> segmented (cs (reg ?c)) ((ip (reg ?c) + 1) AND 0xFFFF) AND 0xFFFFF \<notin> int_frame_bytes ?c
     \<longrightarrow> read8 (mem c') (segmented (cs (reg c')) (ip (reg c'))) = 0xCD
        \<and> read8 (mem c') (segmented (cs (reg c')) ((ip (reg c') + 1) AND 0xFFFF)) = 0x16"
    by blast
  from c'(9) w(5,6) have b: "read8 (mem c') (segmented (cs (reg c')) (ip (reg c'))) = 0xCD"
    "read8 (mem c') (segmented (cs (reg c')) ((ip (reg c') + 1) AND 0xFFFF)) = 0x16"
    by blast+
  have f: "flags (reg c') = 0x0002" using c'(6) w(4) by simp
  have q: "read16 (mem c') 0xFFFC = 0x0002" "read16 (mem c') 0xFFFA = 0xF000" "read16 (mem c') 0xFFF8 = 0xFFF2"
    unfolding c'(4) by (rule p)+
  from c'(1,2,3,5,7,8) w(1,2,3) f q b show ?thesis
    by (intro exI [of _ c']) (simp only: simp_thms)
qed

section \<open>Properties of the FAT12 volume\<close>

subsection \<open>Reads change nothing but the cache\<close>

lemma load_sector_nth:
  "i < 512 \<Longrightarrow> load_sector bin ! i = (if i < length bin then bin ! i mod 256 else 0)"
  by (simp add: load_sector_def)

lemma load_sector_bytes:
  "i < 512 \<Longrightarrow> \<forall>x\<in>set bin. x < 256 \<Longrightarrow>
   load_sector bin ! i = (if i < length bin then bin ! i else 0)"
  by (simp add: load_sector_nth)

lemma faulted_refl [simp]: "faulted d d"
  by (simp add: faulted_def)

lemma faulted_trans: "faulted d d1 \<Longrightarrow> faulted d1 d2 \<Longrightarrow> faulted d d2"
  by (simp add: faulted_def)

lemma faulted_view: "faulted d d' \<Longrightarrow> sec_view d' = sec_view d"
  by (auto simp add: faulted_def)

lemma priv_sec_faulted: "faulted d (snd (priv_sec d n))"
  by (auto simp add: faulted_def sec_view_def priv_sec_def Let_def split: option.splits)

lemma r8_faulted: "faulted d (snd (r8 d s ofs))"
  using priv_sec_faulted [of d s] by (simp add: r8_def split_beta)

lemma r8_val: "fst (r8 d s ofs) = sec_view d s ! ofs"
  by (simp add: r8_def split_beta sec_view_def)

lemma r16_faulted: "faulted d (snd (r16 d s ofs))"
  unfolding r16_def split_beta snd_conv
  by (rule faulted_trans [OF r8_faulted r8_faulted])

lemma r16_val: "fst (r16 d s ofs) = sec_view d s ! ofs OR push_bit 8 (sec_view d s ! (ofs + 1))"
  by (simp add: r16_def split_beta r8_val faulted_view [OF r8_faulted])

lemma r32_faulted: "faulted d (snd (r32 d s ofs))"
  unfolding r32_def split_beta snd_conv
  by (rule faulted_trans [OF r16_faulted r16_faulted])

lemma r32_val:
  "fst (r32 d s ofs)
     = ((sec_view d s ! ofs OR push_bit 8 (sec_view d s ! (ofs + 1)))
        OR push_bit 16 (sec_view d s ! (ofs + 2) OR push_bit 8 (sec_view d s ! (ofs + 3)))) mod 2 ^ 32"
  by (simp add: r32_def split_beta r16_val faulted_view [OF r16_faulted] add.assoc numeral_3_eq_3)

lemma getFAT_faulted: "faulted d (snd (getFAT d c))"
  unfolding getFAT_def Let_def split_beta snd_conv
  by (auto intro: faulted_trans [OF r8_faulted r8_faulted])

lemma next_byte:
  "(if off mod 512 + 1 < 512 then (V :: view) (s + off div 512) ! (off mod 512 + 1)
    else V (s + off div 512 + 1) ! 0)
   = V (s + (off + 1) div 512) ! ((off + 1) mod 512)"
proof (cases "off mod 512 + 1 < (512::nat)")
  case True
  then have "(off + 1) div 512 = off div 512" "(off + 1) mod 512 = off mod 512 + 1"
    by (simp_all add: mod_Suc div_Suc)
  with True show ?thesis by simp
next
  case False
  then have "(off + 1) div 512 = off div 512 + 1" "(off + 1) mod 512 = 0"
    by (simp_all add: mod_Suc div_Suc)
  with False show ?thesis by simp
qed

lemma and1_cases: "(c::nat) AND 1 = (if odd c then 1 else 0)"
  by (simp add: and_one_eq mod_2_eq_odd)

lemma getFAT_val: "fst (getFAT d c) = fat_entry (sec_view d) c"
proof -
  have "fst (getFAT d c)
      = (let off = c + c div 2;
             lo = sec_view d (FAT1_START + off div 512) ! (off mod 512);
             hi = (if off mod 512 + 1 < 512 then sec_view d (FAT1_START + off div 512) ! (off mod 512 + 1)
                   else sec_view d (FAT1_START + off div 512 + 1) ! 0);
             w = lo OR push_bit 8 hi
         in if odd c then drop_bit 4 w else w AND 0xFFF)"
    unfolding getFAT_def Let_def split_beta fst_conv r8_val faulted_view [OF r8_faulted]
      and1_cases drop_bit_eq_div
    by (simp add: if_distrib [of fst] r8_val faulted_view [OF r8_faulted] cong: if_cong)
  then show ?thesis
    unfolding fat_entry_def Let_def next_byte .
qed

lemma getFAT_first_faulted: "faulted d (snd (getFAT_first d c))"
  unfolding getFAT_first_def Let_def split_beta snd_conv
  by (auto intro: faulted_trans [OF r8_faulted r8_faulted])

lemma getFAT_first_val: "fst (getFAT_first d c) = fat_entry (sec_view d) c"
proof -
  have "(c * 3) div 2 = c + c div 2" by presburger
  then show ?thesis
    unfolding getFAT_first_def fat_entry_def Let_def split_beta fst_conv r8_val
      faulted_view [OF r8_faulted] and1_cases
    by simp
qed

lemmas geometry_defs =
  SECTOR_SIZE_def TOTAL_SECTORS_def SECTORS_PER_FAT_def ROOT_ENTRY_COUNT_def
  SECTORS_PER_CLUSTER_def FAT1_START_def FAT2_START_def ROOT_START_def ROOT_SECTORS_def
  DATA_START_def

lemma upt_values:
  "[0..<3] = [0, 1, 2]"
  "[0..<8] = [0, 1, 2, 3, 4, 5, 6, 7]"
  "[8..<11] = [8, 9, 10]"
  "[0..<14] = [0, 1, 2, 3, 4, 5, 6, 7, 8, 9, 10, 11, 12, 13]"
  "[0..<16] = [0, 1, 2, 3, 4, 5, 6, 7, 8, 9, 10, 11, 12, 13, 14, 15]"
  "[0..<32] = [0, 1, 2, 3, 4, 5, 6, 7, 8, 9, 10, 11, 12, 13, 14, 15, 16, 17, 18, 19, 20, 21,
               22, 23, 24, 25, 26, 27, 28, 29, 30, 31]"
  by code_simp+

subsection \<open>allocCluster\<close>

lemma maxCluster_value: "maxCluster = 2849"
  by (simp add: maxCluster_def geometry_defs)

lemma max_first_value: "max_first = 3072"
  by (simp add: max_first_def geometry_defs)

lemma max_dist_value: "max_dist = 3072"
  by (simp add: max_dist_def geometry_defs)

declare alloc_from.simps [simp del]
declare alloc_from_first.simps [simp del]
declare alloc_from_dist.simps [simp del]

text \<open>
  Each of the three loops returns the first cluster below its bound whose entry in the
  first FAT is zero, and touches nothing but the cache.
\<close>

lemma alloc_from_find:
  "fst (alloc_from d c) = find (\<lambda>k. fat_entry (sec_view d) k = 0) [c..<maxCluster]
   \<and> faulted d (snd (alloc_from d c))"
proof (induction d c rule: alloc_from.induct)
  case (1 d c)
  show ?case
  proof (cases "c < maxCluster")
    case False
    then show ?thesis by (subst (1 2) alloc_from.simps) simp
  next
    case True
    obtain v d1 where g: "getFAT d c = (v, d1)" by (cases "getFAT d c")
    have f1: "faulted d d1" using getFAT_faulted [of d c] g by simp
    have v: "v = fat_entry (sec_view d) c" using getFAT_val [of d c] g by simp
    have u: "[c..<maxCluster] = c # [c + 1..<maxCluster]" using True by (simp add: upt_conv_Cons)
    show ?thesis
    proof (cases "v = 0")
      case True
      with \<open>c < maxCluster\<close> g f1 v u show ?thesis by (subst (1 2) alloc_from.simps) simp
    next
      case False
      from 1 [OF True g [symmetric] False] faulted_view [OF f1]
      have "fst (alloc_from d1 (c + 1)) = find (\<lambda>k. fat_entry (sec_view d) k = 0) [c + 1..<maxCluster]"
        and "faulted d1 (snd (alloc_from d1 (c + 1)))"
        by simp_all
      with f1 True g False v u faulted_trans [OF f1] show ?thesis
        by (subst (1 2) alloc_from.simps) simp
    qed
  qed
qed

lemma alloc_from_first_find:
  "fst (alloc_from_first d c) = find (\<lambda>k. fat_entry (sec_view d) k = 0) [c..<max_first]
   \<and> faulted d (snd (alloc_from_first d c))"
proof (induction d c rule: alloc_from_first.induct)
  case (1 d c)
  show ?case
  proof (cases "c < max_first")
    case False
    then show ?thesis by (subst (1 2) alloc_from_first.simps) simp
  next
    case True
    obtain v d1 where g: "getFAT_first d c = (v, d1)" by (cases "getFAT_first d c")
    have f1: "faulted d d1" using getFAT_first_faulted [of d c] g by simp
    have v: "v = fat_entry (sec_view d) c" using getFAT_first_val [of d c] g by simp
    have u: "[c..<max_first] = c # [c + 1..<max_first]" using True by (simp add: upt_conv_Cons)
    show ?thesis
    proof (cases "v = 0")
      case True
      with \<open>c < max_first\<close> g f1 v u show ?thesis by (subst (1 2) alloc_from_first.simps) simp
    next
      case False
      from 1 [OF True g [symmetric] False] faulted_view [OF f1]
      have "fst (alloc_from_first d1 (c + 1)) = find (\<lambda>k. fat_entry (sec_view d) k = 0) [c + 1..<max_first]"
        and "faulted d1 (snd (alloc_from_first d1 (c + 1)))"
        by simp_all
      with f1 True g False v u faulted_trans [OF f1] show ?thesis
        by (subst (1 2) alloc_from_first.simps) simp
    qed
  qed
qed

lemma alloc_from_dist_find:
  "fst (alloc_from_dist d c) = find (\<lambda>k. fat_entry (sec_view d) k = 0) [c..<max_dist]
   \<and> faulted d (snd (alloc_from_dist d c))"
proof (induction d c rule: alloc_from_dist.induct)
  case (1 d c)
  show ?case
  proof (cases "c < max_dist")
    case False
    then show ?thesis by (subst (1 2) alloc_from_dist.simps) simp
  next
    case True
    obtain v d1 where g: "getFAT d c = (v, d1)" by (cases "getFAT d c")
    have f1: "faulted d d1" using getFAT_faulted [of d c] g by simp
    have v: "v = fat_entry (sec_view d) c" using getFAT_val [of d c] g by simp
    have u: "[c..<max_dist] = c # [c + 1..<max_dist]" using True by (simp add: upt_conv_Cons)
    show ?thesis
    proof (cases "v = 0")
      case True
      with \<open>c < max_dist\<close> g f1 v u show ?thesis by (subst (1 2) alloc_from_dist.simps) simp
    next
      case False
      from 1 [OF True g [symmetric] False] faulted_view [OF f1]
      have "fst (alloc_from_dist d1 (c + 1)) = find (\<lambda>k. fat_entry (sec_view d) k = 0) [c + 1..<max_dist]"
        and "faulted d1 (snd (alloc_from_dist d1 (c + 1)))"
        by simp_all
      with f1 True g False v u faulted_trans [OF f1] show ?thesis
        by (subst (1 2) alloc_from_dist.simps) simp
    qed
  qed
qed

lemma allocCluster_faulted: "faulted d (snd (allocCluster d))"
  by (simp add: allocCluster_def alloc_from_find)

lemma allocCluster_find:
  "fst (allocCluster d) = find (\<lambda>k. fat_entry (sec_view d) k = 0) [2..<2849]"
  by (simp add: allocCluster_def alloc_from_find maxCluster_value del: upt_rec_numeral)

text \<open>The first FAT of full_disk.\<close>

lemma full_fat_nth:
  "j < 4608 \<Longrightarrow>
   full_fat ! j = (if j = 0 then 0xF0 else if j \<le> 4272 then 0xFF else if j = 4273 then 0x0F else 0)"
  by (auto simp add: full_fat_def nth_append nth_Cons')

lemma full_disk_byte:
  assumes "j < 4608"
  shows "sec_view full_disk (FAT1_START + j div 512) ! (j mod 512) = full_fat ! j"
proof -
  let ?n = "1 + j div 512"
  define bin where "bin = take 512 (drop (j div 512 * 512) full_fat)"
  have n: "1 \<le> ?n" "?n \<le> 9" using assms by simp_all
  have len: "length full_fat = 4608" by (simp add: full_fat_def)
  have le: "j div 512 * 512 + 512 \<le> 4608" using assms by simp
  have l: "length bin = 512" using len le by (simp add: bin_def)
  have ne: "bin \<noteq> []" using l by auto
  have s: "sec_view full_disk ?n = load_sector bin"
    using n ne by (simp add: sec_view_def priv_sec_def full_disk_def new_FAT12Disk_def Let_def bin_def)
  have b: "full_fat ! j < 256" using assms by (simp add: full_fat_nth)
  have "bin ! (j mod 512) = full_fat ! (j div 512 * 512 + j mod 512)"
    using len le by (simp add: bin_def)
  then have e: "bin ! (j mod 512) = full_fat ! j" by simp
  have "load_sector bin ! (j mod 512) = full_fat ! j"
    using b by (simp add: load_sector_nth l e)
  with s show ?thesis by (simp add: FAT1_START_def)
qed

lemma full_disk_entry:
  assumes "c < 3071"
  shows "fat_entry (sec_view full_disk) c
       = (let off = c + c div 2; w = full_fat ! off OR push_bit 8 (full_fat ! (off + 1))
          in if odd c then drop_bit 4 w else w AND 0xFFF)"
proof -
  have "c + c div 2 < 4608" "c + c div 2 + 1 < 4608" using assms by simp_all
  then show ?thesis
    unfolding fat_entry_def Let_def by (simp only: full_disk_byte)
qed

lemma full_disk_used: "2 \<le> c \<Longrightarrow> c < 2849 \<Longrightarrow> fat_entry (sec_view full_disk) c = 0xFFF"
proof -
  assume c: "2 \<le> c" "c < 2849"
  show ?thesis
  proof (cases "c = 2848")
    case True
    then show ?thesis by (simp add: full_disk_entry full_fat_nth Let_def)
  next
    case False
    with c have "c + c div 2 \<noteq> 0" "c + c div 2 \<le> 4272" "c + c div 2 + 1 \<le> 4272" "c < 3071"
      by simp_all
    then show ?thesis by (simp add: full_disk_entry full_fat_nth Let_def)
  qed
qed

lemma full_disk_free: "fat_entry (sec_view full_disk) 2849 = 0"
  by (simp add: full_disk_entry full_fat_nth Let_def)

lemma find_append_None: "find P xs = None \<Longrightarrow> find P (xs @ ys) = find P ys"
  by (induction xs) (simp_all split: if_splits)

lemma find_first_at:
  assumes "c \<le> r" "r < m" "P r" "\<forall>k. c \<le> k \<and> k < r \<longrightarrow> \<not> P k"
  shows "find P [c..<m] = Some r"
proof -
  have "[c..<m] = [c..<r] @ [r..<m]"
    using assms(1,2) upt_add_eq_append [of c r "m - r"] by simp
  moreover have "[r..<m] = r # [Suc r..<m]"
    using assms(2) by (rule upt_conv_Cons)
  moreover have "find P [c..<r] = None" using assms(4) by (simp add: find_None_iff)
  ultimately show ?thesis using assms(3) by (simp add: find_append_None)
qed

text \<open>
  Claim C9 fails for two of the three definitions of allocCluster in src/. On full_disk no
  cluster from 2 to 2848 has the entry 0 in the first FAT, and 2849 is the bound of the
  claim: 2 + (TOTAL_SECTORS - DATA_START) / SECTORS_PER_CLUSTER. The allocCluster of
  src/msdos.js, lines 5148-5152, returns -1. The allocCluster of the first class of
  src/msdos.js (lines 116-120) and that of src/dist/msdos.js return the cluster 2849,
  whose sector, by the c2s of their classes, is 2880 = TOTAL_SECTORS, one past the last
  sector of the volume.
\<close>

theorem allocCluster_first_definition_returns_cluster_2849:
  "find (\<lambda>c. fst (getFAT full_disk c) = 0) [2..<2849] = None
   \<and> 2 + (TOTAL_SECTORS - DATA_START) div SECTORS_PER_CLUSTER = 2849
   \<and> fst (allocCluster full_disk) = None
   \<and> fst (allocCluster_first full_disk) = Some 2849 \<and> c2s_first 2849 = TOTAL_SECTORS
   \<and> fst (allocCluster_dist full_disk) = Some 2849 \<and> c2s 2849 = TOTAL_SECTORS"
proof -
  let ?P = "\<lambda>k. fat_entry (sec_view full_disk) k = 0"
  have none: "find ?P [2..<2849] = None"
    by (simp add: find_None_iff full_disk_used del: upt_rec_numeral)
  have some: "find ?P [2..<3072] = Some 2849"
    by (rule find_first_at) (simp_all add: full_disk_free full_disk_used)
  have 1: "find (\<lambda>c. fst (getFAT full_disk c) = 0) [2..<2849] = None"
    using none by (simp add: getFAT_val del: upt_rec_numeral)
  have 2: "2 + (TOTAL_SECTORS - DATA_START) div SECTORS_PER_CLUSTER = 2849"
    by (simp add: geometry_defs)
  have 3: "fst (allocCluster full_disk) = None"
    using none by (simp add: allocCluster_find del: upt_rec_numeral)
  have 4: "fst (allocCluster_first full_disk) = Some 2849"
    using some by (simp add: allocCluster_first_def alloc_from_first_find max_first_value del: upt_rec_numeral)
  have 5: "fst (allocCluster_dist full_disk) = Some 2849"
    using some by (simp add: allocCluster_dist_def alloc_from_dist_find max_dist_value del: upt_rec_numeral)
  have 6: "c2s_first 2849 = TOTAL_SECTORS" "c2s 2849 = TOTAL_SECTORS"
    by (simp_all add: c2s_first_def c2s_def geometry_defs)
  from 1 2 3 4 5 6 show ?thesis by (simp only: simp_thms)
qed

subsection \<open>Directory and chain walks\<close>

text \<open>
  Each reading method returns what the description of the volume says, as a function of
  the sector contents, and leaves a volume that differs by cached sectors only.
\<close>

lemma read_chars_val:
  "fst (read_chars d s is acc) = acc @ name_field (map (\<lambda>i. sec_view d s ! i) is)
   \<and> faulted d (snd (read_chars d s is acc))"
proof (induction "is" arbitrary: d acc)
  case Nil
  show ?case by (simp add: name_field_def)
next
  case (Cons i "is")
  obtain c d1 where r: "r8 d s i = (c, d1)" by (cases "r8 d s i")
  have f1: "faulted d d1" using r8_faulted [of d s i] r by simp
  have c: "c = sec_view d s ! i" using r8_val [of d s i] r by simp
  show ?case
    using f1 c Cons [of d1 "acc @ [c]"] faulted_view [OF f1] faulted_trans [OF f1]
    by (simp add: r name_field_def)
qed

lemma priv_readEntry_faulted: "faulted d (snd (priv_readEntry d s slot))"
  unfolding priv_readEntry_def Let_def split_beta snd_conv
  apply (rule faulted_trans [OF read_chars_val [THEN conjunct2]])
  apply (rule faulted_trans [OF read_chars_val [THEN conjunct2]])
  apply (rule faulted_trans [OF r8_faulted])
  apply (rule faulted_trans [OF r8_faulted])
  apply (rule faulted_trans [OF r16_faulted])
  apply (rule r32_faulted)
  done

lemma slot_byte_fn: "slot_byte V (s, slot) = (\<lambda>i. V s ! (slot * 32 + i))"
  by (rule ext) (simp add: slot_byte_def)

lemma priv_readEntry_val: "fst (priv_readEntry d s slot) = entry_at (sec_view d) (s, slot)"
proof -
  let ?V = "sec_view d"
  obtain n d1 where a1: "read_chars d s (map (\<lambda>i. slot * 32 + i) [0..<8]) [] = (n, d1)"
    by (cases "read_chars d s (map (\<lambda>i. slot * 32 + i) [0..<8]) []")
  obtain e d2 where a2: "read_chars d1 s (map (\<lambda>i. slot * 32 + i) [8..<11]) [] = (e, d2)"
    by (cases "read_chars d1 s (map (\<lambda>i. slot * 32 + i) [8..<11]) []")
  obtain f d3 where a3: "r8 d2 s (slot * 32) = (f, d3)" by (cases "r8 d2 s (slot * 32)")
  obtain a d4 where a4: "r8 d3 s (slot * 32 + 11) = (a, d4)" by (cases "r8 d3 s (slot * 32 + 11)")
  obtain cl d5 where a5: "r16 d4 s (slot * 32 + 26) = (cl, d5)" by (cases "r16 d4 s (slot * 32 + 26)")
  obtain sz d6 where a6: "r32 d5 s (slot * 32 + 28) = (sz, d6)" by (cases "r32 d5 s (slot * 32 + 28)")
  have f1: "faulted d d1" using read_chars_val [of d s _ "[]"] a1 by (metis snd_conv)
  have f2: "faulted d d2" using read_chars_val [of d1 s _ "[]"] a2 f1 by (metis snd_conv faulted_trans)
  have f3: "faulted d d3" using r8_faulted [of d2 s] a3 f2 by (metis snd_conv faulted_trans)
  have f4: "faulted d d4" using r8_faulted [of d3 s] a4 f3 by (metis snd_conv faulted_trans)
  have f5: "faulted d d5" using r16_faulted [of d4 s] a5 f4 by (metis snd_conv faulted_trans)
  have n: "n = name_field (map (slot_byte ?V (s, slot)) [0..<8])"
    using read_chars_val [of d s "map (\<lambda>i. slot * 32 + i) [0..<8]" "[]"] a1
    by (simp add: slot_byte_fn o_def del: upt_rec_numeral)
  have e: "e = name_field (map (slot_byte ?V (s, slot)) [8..<11])"
    using read_chars_val [of d1 s "map (\<lambda>i. slot * 32 + i) [8..<11]" "[]"] a2 faulted_view [OF f1]
    by (simp add: slot_byte_fn o_def del: upt_rec_numeral)
  have f: "f = slot_byte ?V (s, slot) 0"
    using r8_val [of d2 s "slot * 32"] a3 faulted_view [OF f2] by (simp add: slot_byte_def)
  have a: "a = slot_byte ?V (s, slot) 11"
    using r8_val [of d3 s "slot * 32 + 11"] a4 faulted_view [OF f3] by (simp add: slot_byte_def)
  have cl: "cl = slot_byte ?V (s, slot) 26 OR push_bit 8 (slot_byte ?V (s, slot) 27)"
    using r16_val [of d4 s "slot * 32 + 26"] a5 faulted_view [OF f4]
    by (simp add: slot_byte_def add.commute)
  have sz: "sz = ((slot_byte ?V (s, slot) 28 OR push_bit 8 (slot_byte ?V (s, slot) 29))
               OR push_bit 16 (slot_byte ?V (s, slot) 30 OR push_bit 8 (slot_byte ?V (s, slot) 31))) mod 2 ^ 32"
    using r32_val [of d5 s "slot * 32 + 28"] a6 faulted_view [OF f5]
    by (simp add: slot_byte_def add.commute)
  show ?thesis
    unfolding priv_readEntry_def Let_def a1 a2 a3 a4 a5 a6 prod.case fst_conv entry_at_def
    by (simp only: n e f a cl sz fst_conv snd_conv)
qed

lemma enum_slots_val:
  "fst (enum_slots d s slots res)
     = res @ map (entry_at (sec_view d))
               (filter (kept_slot (sec_view d)) (takeWhile (live_slot (sec_view d)) (map (Pair s) slots)))
   \<and> fst (snd (enum_slots d s slots res)) = (\<not> list_all (live_slot (sec_view d)) (map (Pair s) slots))
   \<and> faulted d (snd (snd (enum_slots d s slots res)))"
proof (induction slots arbitrary: d res)
  case Nil
  show ?case by simp
next
  case (Cons slot slots)
  let ?V = "sec_view d"
  obtain f d1 where r1: "r8 d s (slot * 32) = (f, d1)" by (cases "r8 d s (slot * 32)")
  obtain a d2 where r2: "r8 d1 s (slot * 32 + 11) = (a, d2)" by (cases "r8 d1 s (slot * 32 + 11)")
  obtain e d3 where r3: "priv_readEntry d2 s slot = (e, d3)" by (cases "priv_readEntry d2 s slot")
  have f1: "faulted d d1" using r8_faulted [of d s "slot * 32"] r1 by simp
  have f2: "faulted d d2" using r8_faulted [of d1 s "slot * 32 + 11"] r2 f1 by (auto intro: faulted_trans)
  have f3: "faulted d d3" using priv_readEntry_faulted [of d2 s slot] r3 f2 by (auto intro: faulted_trans)
  have f: "f = slot_byte ?V (s, slot) 0" using r8_val [of d s "slot * 32"] r1 by (simp add: slot_byte_def)
  have a: "a = slot_byte ?V (s, slot) 11"
    using r8_val [of d1 s "slot * 32 + 11"] r2 faulted_view [OF f1] by (simp add: slot_byte_def)
  have e: "e = entry_at ?V (s, slot)"
    using priv_readEntry_val [of d2 s slot] r3 faulted_view [OF f2] by simp
  show ?case
  proof (cases "f = 0")
    case True
    with f f1 show ?thesis by (simp add: r1 live_slot_def)
  next
    case nz: False
    show ?thesis
    proof (cases "f = 0xE5")
      case True
      with nz f Cons [of d1 res] faulted_view [OF f1] faulted_trans [OF f1] show ?thesis
        by (simp add: r1 live_slot_def kept_slot_def)
    next
      case ne5: False
      show ?thesis
      proof (cases "a = 0x0F")
        case True
        with nz ne5 f a Cons [of d2 res] faulted_view [OF f2] faulted_trans [OF f2] show ?thesis
          by (simp add: r1 r2 live_slot_def kept_slot_def)
      next
        case False
        with nz ne5 f a e Cons [of d3 "res @ [e]"] faulted_view [OF f3] faulted_trans [OF f3]
        show ?thesis
          by (simp add: r1 r2 r3 live_slot_def kept_slot_def)
      qed
    qed
  qed
qed

lemma enum_secs_val:
  "fst (enum_secs d secs res)
     = res @ map (entry_at (sec_view d))
               (filter (kept_slot (sec_view d)) (takeWhile (live_slot (sec_view d)) (dir_slots secs)))
   \<and> faulted d (snd (enum_secs d secs res))"
proof (induction secs arbitrary: d res)
  case Nil
  show ?case by (simp add: dir_slots_def)
next
  case (Cons s secs)
  let ?V = "sec_view d"
  let ?row = "map (Pair s) [0..<16]"
  obtain res1 returned d1 where r: "enum_slots d s [0..<16] res = (res1, returned, d1)"
    by (cases "enum_slots d s [0..<16] res")
  from enum_slots_val [of d s "[0..<16]" res] r
  have res1: "res1 = res @ map (entry_at ?V) (filter (kept_slot ?V) (takeWhile (live_slot ?V) ?row))"
    and ret: "returned = (\<not> list_all (live_slot ?V) ?row)"
    and f1: "faulted d d1"
    by simp_all
  have sl: "dir_slots (s # secs) = ?row @ dir_slots secs"
    by (simp add: dir_slots_def del: upt_rec_numeral)
  show ?case
  proof (cases returned)
    case True
    with ret obtain x where x: "x \<in> set ?row" "\<not> live_slot ?V x"
      by (auto simp add: list_all_iff simp del: upt_rec_numeral)
    have "takeWhile (live_slot ?V) (?row @ dir_slots secs) = takeWhile (live_slot ?V) ?row"
      using x by (rule takeWhile_append1)
    with True res1 f1 sl show ?thesis by (simp add: r del: upt_rec_numeral)
  next
    case False
    with ret have "\<And>x. x \<in> set ?row \<Longrightarrow> live_slot ?V x"
      by (auto simp add: list_all_iff simp del: upt_rec_numeral)
    then have t: "takeWhile (live_slot ?V) (?row @ dir_slots secs) = ?row @ takeWhile (live_slot ?V) (dir_slots secs)"
      by (rule takeWhile_append2)
    have "takeWhile (live_slot ?V) ?row = ?row"
      using False ret by (simp add: takeWhile_eq_all_conv list_all_iff del: upt_rec_numeral)
    with False res1 f1 sl t Cons [of d1 res1] faulted_view [OF f1] faulted_trans [OF f1]
    show ?thesis by (simp add: r del: upt_rec_numeral)
  qed
qed

lemma priv_enumEntries_val: "fst (priv_enumEntries d secs) = dir_entries (sec_view d) secs"
  by (simp add: priv_enumEntries_def enum_secs_val dir_entries_def)

lemma priv_enumEntries_faulted: "faulted d (snd (priv_enumEntries d secs))"
  by (simp add: priv_enumEntries_def enum_secs_val)

text \<open>A chain that ends is walked to its end.\<close>

lemma chain_secs_val:
  "fat_chain k (sec_view d) c = Some ch \<Longrightarrow>
   \<exists>d'. chain_secs d c secs = Some (secs @ map c2s ch, d') \<and> faulted d d'"
proof (induction k arbitrary: d c secs ch)
  case 0
  then show ?case by (subst chain_secs.simps) (auto split: if_splits)
next
  case (Suc k)
  show ?case
  proof (cases "2 \<le> c \<and> c < 0xFF8")
    case False
    with Suc(2) show ?thesis by (subst chain_secs.simps) auto
  next
    case True
    obtain n d1 where g: "getFAT d c = (n, d1)" by (cases "getFAT d c")
    have f1: "faulted d d1" using getFAT_faulted [of d c] g by simp
    have n: "n = fat_entry (sec_view d) c" using getFAT_val [of d c] g by simp
    from Suc(2) True obtain ch' where ch': "fat_chain k (sec_view d) n = Some ch'" "ch = c # ch'"
      by (auto simp add: n)
    from Suc(1) [of d1 n ch' "secs @ [c2s c]"] ch'(1) faulted_view [OF f1]
    obtain d' where "chain_secs d1 n (secs @ [c2s c]) = Some ((secs @ [c2s c]) @ map c2s ch', d')"
      "faulted d1 d'"
      by auto
    with True g ch'(2) f1 show ?thesis
      by (subst chain_secs.simps) (auto intro: faulted_trans)
  qed
qed

lemma chain_secs_faulted_aux:
  assumes "chain_secs d0 c0 secs0 = Some y0"
  shows "faulted d0 (snd y0)"
proof (rule chain_secs.raw_induct [where P = "\<lambda>d c secs y. faulted d (snd y)", OF _ assms])
  fix f d c secs and y :: "nat list \<times> disk"
  assume ih: "\<And>d c secs y. f d c secs = Some y \<Longrightarrow> faulted d (snd y)"
    and eq: "(if 2 \<le> c \<and> c < 0xFF8
              then case getFAT d c of (n, d1) \<Rightarrow> f d1 n (secs @ [c2s c])
              else Some (secs, d)) = Some y"
  show "faulted d (snd y)"
  proof (cases "2 \<le> c \<and> c < 0xFF8")
    case False
    with eq have "y = (secs, d)" by auto
    then show ?thesis by simp
  next
    case True
    obtain n d1 where g: "getFAT d c = (n, d1)" by (cases "getFAT d c")
    have f1: "faulted d d1" using getFAT_faulted [of d c] g by simp
    from eq True g have "f d1 n (secs @ [c2s c]) = Some y" by simp
    from ih [OF this] f1 show ?thesis by (rule faulted_trans [rotated])
  qed
qed

lemma chain_secs_faulted: "chain_secs d c secs = Some (r, d') \<Longrightarrow> faulted d d'"
  using chain_secs_faulted_aux [of d c secs "(r, d')"] by simp

lemma resolve_loop_faulted: "resolve_loop U d secs parts = Some (r, d') \<Longrightarrow> faulted d d'"
proof (induction parts arbitrary: d secs)
  case Nil
  then show ?case by simp
next
  case (Cons nm parts)
  obtain entries d1 where e: "priv_enumEntries d secs = (entries, d1)"
    by (cases "priv_enumEntries d secs")
  have f1: "faulted d d1" using priv_enumEntries_faulted [of d secs] e by simp
  show ?case
  proof (cases "find (\<lambda>e. ent_attr e AND 0x10 \<noteq> 0 \<and> U (ent_name e) = U nm) entries")
    case None
    with Cons(2) e f1 show ?thesis by simp
  next
    case (Some x)
    with Cons(2) e obtain secs1 d2 where c: "chain_secs d1 (ent_cluster x) [] = Some (secs1, d2)"
      by (auto split: option.splits)
    have f2: "faulted d d2" using chain_secs_faulted [OF c] f1 by (auto intro: faulted_trans)
    show ?thesis
    proof (cases "secs1 = []")
      case True
      with Cons(2) e Some c f2 show ?thesis by simp
    next
      case False
      with Cons(2) e Some c have "resolve_loop U d2 secs1 parts = Some (r, d')" by simp
      from Cons(1) [OF this] f2 show ?thesis by (rule faulted_trans [rotated])
    qed
  qed
qed

lemma resolve_loop_val:
  "dir_of_path U k (sec_view d) secs parts = Some r \<Longrightarrow>
   \<exists>d'. resolve_loop U d secs parts = Some (r, d') \<and> faulted d d'"
proof (induction parts arbitrary: d secs)
  case Nil
  then show ?case by simp
next
  case (Cons nm parts)
  let ?V = "sec_view d"
  obtain entries d1 where e: "priv_enumEntries d secs = (entries, d1)"
    by (cases "priv_enumEntries d secs")
  have f1: "faulted d d1" using priv_enumEntries_faulted [of d secs] e by simp
  have en: "entries = dir_entries ?V secs" using priv_enumEntries_val [of d secs] e by simp
  show ?case
  proof (cases "find_subdir U ?V secs nm")
    case None
    with Cons(2) e en f1 show ?thesis by (simp add: find_subdir_def)
  next
    case (Some x)
    with Cons(2) obtain ch where ch: "fat_chain k ?V (ent_cluster x) = Some ch"
      by (auto split: option.splits)
    from chain_secs_val [of k d1 "ent_cluster x" ch "[]"] ch faulted_view [OF f1]
    obtain d2 where c: "chain_secs d1 (ent_cluster x) [] = Some (map c2s ch, d2)" and f12: "faulted d1 d2"
      by auto
    have f2: "faulted d d2" using f1 f12 by (rule faulted_trans)
    show ?thesis
    proof (cases "ch = []")
      case True
      with Cons(2) Some ch e en c f2 show ?thesis by (simp add: find_subdir_def)
    next
      case False
      with Cons(2) Some ch have "dir_of_path U k (sec_view d2) (map c2s ch) parts = Some r"
        by (simp add: faulted_view [OF f2])
      from Cons(1) [OF this] obtain d' where "resolve_loop U d2 (map c2s ch) parts = Some (r, d')"
        "faulted d2 d'"
        by auto
      with False Some e en c f2 show ?thesis
        by (auto simp add: find_subdir_def intro: faulted_trans)
    qed
  qed
qed

lemma priv_resolveDirSectors_faulted:
  "priv_resolveDirSectors U d parts = Some (r, d') \<Longrightarrow> faulted d d'"
  by (auto simp add: priv_resolveDirSectors_def split: if_splits dest: resolve_loop_faulted)

lemma priv_resolveDirSectors_val:
  "dir_of_path U k (sec_view d) root_secs parts = Some r \<Longrightarrow>
   \<exists>d'. priv_resolveDirSectors U d parts = Some (r, d') \<and> faulted d d'"
  using resolve_loop_val [of U k d root_secs parts r]
  by (cases parts) (simp_all add: priv_resolveDirSectors_def)

lemma read_bytes_val:
  "fst (read_bytes d s is buf) = buf @ map (\<lambda>i. sec_view d s ! i) is
   \<and> faulted d (snd (read_bytes d s is buf))"
proof (induction "is" arbitrary: d buf)
  case Nil
  show ?case by simp
next
  case (Cons i "is")
  obtain b d1 where r: "r8 d s i = (b, d1)" by (cases "r8 d s i")
  have f1: "faulted d d1" using r8_faulted [of d s i] r by simp
  have b: "b = sec_view d s ! i" using r8_val [of d s i] r by simp
  show ?case
    using b Cons [of d1 "buf @ [b]"] faulted_view [OF f1] faulted_trans [OF f1] by (simp add: r)
qed

lemma read_chain_faulted_aux:
  assumes "read_chain d0 c0 rem0 buf0 = Some y0"
  shows "faulted d0 (snd y0)"
proof (rule read_chain.raw_induct [where P = "\<lambda>d c rem buf y. faulted d (snd y)", OF _ assms])
  fix f d c rem buf and y :: "nat list \<times> disk"
  assume ih: "\<And>d c rem buf y. f d c rem buf = Some y \<Longrightarrow> faulted d (snd y)"
    and eq: "(if 2 \<le> c \<and> c < 0xFF8
              then case read_bytes d (c2s c) [0..<min 512 rem] buf of
                   (buf1, d1) \<Rightarrow> case getFAT d1 c of (n, d2) \<Rightarrow> f d2 n (rem - min 512 rem) buf1
              else Some (buf, d)) = Some y"
  show "faulted d (snd y)"
  proof (cases "2 \<le> c \<and> c < 0xFF8")
    case False
    with eq have "y = (buf, d)" by auto
    then show ?thesis by simp
  next
    case True
    obtain buf1 d1 where b: "read_bytes d (c2s c) [0..<min 512 rem] buf = (buf1, d1)"
      by (cases "read_bytes d (c2s c) [0..<min 512 rem] buf")
    obtain n d2 where g: "getFAT d1 c = (n, d2)" by (cases "getFAT d1 c")
    have f1: "faulted d d1" using read_bytes_val [of d "c2s c" "[0..<min 512 rem]" buf] b by simp
    have f2: "faulted d d2" using getFAT_faulted [of d1 c] g f1 by (auto intro: faulted_trans)
    from eq True b g have "f d2 n (rem - min 512 rem) buf1 = Some y" by simp
    from ih [OF this] f2 show ?thesis by (rule faulted_trans [rotated])
  qed
qed

lemma read_chain_faulted: "read_chain d c rem buf = Some (r, d') \<Longrightarrow> faulted d d'"
  using read_chain_faulted_aux [of d c rem buf "(r, d')"] by simp

lemma read_chain_val:
  "fat_chain k (sec_view d) c = Some ch \<Longrightarrow>
   \<exists>d'. read_chain d c rem buf = Some (buf @ chain_bytes (sec_view d) ch rem, d') \<and> faulted d d'"
proof (induction k arbitrary: d c rem buf ch)
  case 0
  then show ?case by (subst read_chain.simps) (auto split: if_splits)
next
  case (Suc k)
  let ?V = "sec_view d"
  show ?case
  proof (cases "2 \<le> c \<and> c < 0xFF8")
    case False
    with Suc(2) show ?thesis by (subst read_chain.simps) auto
  next
    case True
    obtain buf1 d1 where b: "read_bytes d (c2s c) [0..<min 512 rem] buf = (buf1, d1)"
      by (cases "read_bytes d (c2s c) [0..<min 512 rem] buf")
    obtain n d2 where g: "getFAT d1 c = (n, d2)" by (cases "getFAT d1 c")
    have f1: "faulted d d1" using read_bytes_val [of d "c2s c" "[0..<min 512 rem]" buf] b by simp
    have f2: "faulted d d2" using getFAT_faulted [of d1 c] g f1 by (auto intro: faulted_trans)
    have b1: "buf1 = buf @ map (\<lambda>i. ?V (c2s c) ! i) [0..<min 512 rem]"
      using read_bytes_val [of d "c2s c" "[0..<min 512 rem]" buf] b by simp
    have n: "n = fat_entry ?V c" using getFAT_val [of d1 c] g faulted_view [OF f1] by simp
    from Suc(2) True obtain ch' where ch': "fat_chain k ?V n = Some ch'" "ch = c # ch'"
      by (auto simp add: n)
    from Suc(1) [of d2 n ch' "rem - min 512 rem" buf1] ch'(1) faulted_view [OF f2]
    obtain d' where "read_chain d2 n (rem - min 512 rem) buf1
        = Some (buf1 @ chain_bytes ?V ch' (rem - min 512 rem), d')" "faulted d2 d'"
      by auto
    with True b g ch'(2) b1 f2 show ?thesis
      by (subst read_chain.simps) (auto intro: faulted_trans)
  qed
qed

subsection \<open>readFile\<close>

lemma readFile_faulted: "readFile U d parts nm = Some (r, d') \<Longrightarrow> faulted d d'"
proof -
  assume a: "readFile U d parts nm = Some (r, d')"
  then obtain rs d1 where res: "priv_resolveDirSectors U d parts = Some (rs, d1)"
    by (auto simp add: readFile_def split: option.splits)
  have f1: "faulted d d1" by (rule priv_resolveDirSectors_faulted [OF res])
  show ?thesis
  proof (cases rs)
    case None
    with a res f1 show ?thesis by (simp add: readFile_def)
  next
    case (Some secs)
    obtain entries d2 where en: "priv_enumEntries d1 secs = (entries, d2)"
      by (cases "priv_enumEntries d1 secs")
    have f2: "faulted d d2"
      using priv_enumEntries_faulted [of d1 secs] en f1 by (auto intro: faulted_trans)
    show ?thesis
    proof (cases "find (\<lambda>e. \<not> (ent_attr e AND 0x10 \<noteq> 0) \<and> U (ent_name e) = U nm) entries")
      case None
      with a res Some en f2 show ?thesis by (simp add: readFile_def)
    next
      case (Some f)
      with a res \<open>rs = Some secs\<close> en obtain buf where
        rc: "read_chain d2 (ent_cluster f) (ent_size f) [] = Some (buf, d')"
        by (auto simp add: readFile_def split: option.splits)
      from read_chain_faulted [OF rc] f2 show ?thesis by (rule faulted_trans [rotated])
    qed
  qed
qed

lemma readFile_no_dir:
  assumes "dir_of_path U k (sec_view d) root_secs parts = Some None"
  shows "\<exists>d'. readFile U d parts nm = Some (None, d')"
  using priv_resolveDirSectors_val [OF assms] by (auto simp add: readFile_def)

lemma readFile_in_dir:
  assumes p: "dir_of_path U k (sec_view d) root_secs parts = Some (Some secs)"
  shows "(find_file U (sec_view d) secs nm = None \<longrightarrow> (\<exists>d'. readFile U d parts nm = Some (None, d')))
       \<and> (\<forall>f ch. find_file U (sec_view d) secs nm = Some f
                  \<and> fat_chain k (sec_view d) (ent_cluster f) = Some ch
            \<longrightarrow> (\<exists>d'. readFile U d parts nm
                         = Some (Some (chain_bytes (sec_view d) ch (ent_size f)), d')))"
proof -
  let ?V = "sec_view d"
  from priv_resolveDirSectors_val [OF p]
  obtain d1 where res: "priv_resolveDirSectors U d parts = Some (Some secs, d1)" and f1: "faulted d d1"
    by auto
  obtain entries d2 where en: "priv_enumEntries d1 secs = (entries, d2)"
    by (cases "priv_enumEntries d1 secs")
  have f2: "faulted d d2"
    using priv_enumEntries_faulted [of d1 secs] en f1 by (auto intro: faulted_trans)
  have ent: "entries = dir_entries ?V secs"
    using priv_enumEntries_val [of d1 secs] en faulted_view [OF f1] by simp
  show ?thesis
  proof (intro conjI allI impI)
    assume "find_file U ?V secs nm = None"
    with res en ent show "\<exists>d'. readFile U d parts nm = Some (None, d')"
      by (simp add: readFile_def find_file_def)
  next
    fix f ch
    assume a: "find_file U ?V secs nm = Some f \<and> fat_chain k ?V (ent_cluster f) = Some ch"
    from read_chain_val [of k d2 "ent_cluster f" ch "ent_size f" "[]"] a faulted_view [OF f2]
    obtain d' where "read_chain d2 (ent_cluster f) (ent_size f) []
        = Some (chain_bytes ?V ch (ent_size f), d')"
      by auto
    with a res en ent
    show "\<exists>d'. readFile U d parts nm = Some (Some (chain_bytes ?V ch (ent_size f)), d')"
      by (simp add: readFile_def find_file_def)
  qed
qed

lemma root_secs_value: "root_secs = [19, 20, 21, 22, 23, 24, 25, 26, 27, 28, 29, 30, 31, 32]"
  by (simp add: root_secs_def geometry_defs upt_values)

lemma sec_view_new:
  "sec_view (new_FAT12Disk st) n
     = (case st n of None \<Rightarrow> replicate 512 0
        | Some bin \<Rightarrow> if bin = [] then replicate 512 0 else load_sector bin)"
  by (simp add: sec_view_def priv_sec_def new_FAT12Disk_def Let_def split: option.splits)

lemma sec_view_blank: "sec_view blank_disk n = replicate 512 0"
  by (simp add: blank_disk_def sec_view_new)

lemma dir_slots_Cons: "dir_slots (s # secs) = (s, 0) # (s, 1) # map (Pair s) [2..<16] @ dir_slots secs"
proof -
  have "[0..<16] = 0 # 1 # [2..<16]" by (simp add: upt_conv_Cons)
  then show ?thesis by (simp add: dir_slots_def del: upt_rec_numeral)
qed

lemma dir_entries_none: "V s ! 0 = 0 \<Longrightarrow> dir_entries V (s # secs) = []"
  by (simp add: dir_entries_def dir_slots_Cons live_slot_def slot_byte_def del: upt_rec_numeral)

lemma dir_entries_one:
  "V s ! 0 \<noteq> 0 \<Longrightarrow> V s ! 0 \<noteq> 0xE5 \<Longrightarrow> V s ! 11 \<noteq> 0x0F \<Longrightarrow> V s ! 32 = 0 \<Longrightarrow>
   dir_entries V (s # secs) = [entry_at V (s, 0)]"
  by (simp add: dir_entries_def dir_slots_Cons live_slot_def kept_slot_def slot_byte_def
      del: upt_rec_numeral)

text \<open>A chain that runs into itself is walked for ever.\<close>

lemma chain_secs_loops_aux:
  assumes "chain_secs d0 c0 secs0 = Some y0"
  shows "\<not> (fat_entry (sec_view d0) c0 = c0 \<and> 2 \<le> c0 \<and> c0 < 0xFF8)"
proof (rule chain_secs.raw_induct
    [where P = "\<lambda>d c secs y. \<not> (fat_entry (sec_view d) c = c \<and> 2 \<le> c \<and> c < 0xFF8)", OF _ assms])
  fix f d c secs and y :: "nat list \<times> disk"
  assume ih: "\<And>d c secs y. f d c secs = Some y
                \<Longrightarrow> \<not> (fat_entry (sec_view d) c = c \<and> 2 \<le> c \<and> c < 0xFF8)"
    and eq: "(if 2 \<le> c \<and> c < 0xFF8
              then case getFAT d c of (n, d1) \<Rightarrow> f d1 n (secs @ [c2s c])
              else Some (secs, d)) = Some y"
  show "\<not> (fat_entry (sec_view d) c = c \<and> 2 \<le> c \<and> c < 0xFF8)"
  proof
    assume a: "fat_entry (sec_view d) c = c \<and> 2 \<le> c \<and> c < 0xFF8"
    obtain n d1 where g: "getFAT d c = (n, d1)" by (cases "getFAT d c")
    have f1: "faulted d d1" using getFAT_faulted [of d c] g by simp
    have n: "n = c" using getFAT_val [of d c] g a by simp
    from eq a g have "f d1 n (secs @ [c2s c]) = Some y" by simp
    from ih [OF this] a n faulted_view [OF f1] show False by simp
  qed
qed

lemma chain_secs_loops:
  "fat_entry (sec_view d) c = c \<Longrightarrow> 2 \<le> c \<Longrightarrow> c < 0xFF8 \<Longrightarrow> chain_secs d c secs = None"
  using chain_secs_loops_aux [of d c secs] by (cases "chain_secs d c secs") auto

lemma read_chain_loops_aux:
  assumes "read_chain d0 c0 rem0 buf0 = Some y0"
  shows "\<not> (fat_entry (sec_view d0) c0 = c0 \<and> 2 \<le> c0 \<and> c0 < 0xFF8)"
proof (rule read_chain.raw_induct
    [where P = "\<lambda>d c rem buf y. \<not> (fat_entry (sec_view d) c = c \<and> 2 \<le> c \<and> c < 0xFF8)", OF _ assms])
  fix f d c rem buf and y :: "nat list \<times> disk"
  assume ih: "\<And>d c rem buf y. f d c rem buf = Some y
                \<Longrightarrow> \<not> (fat_entry (sec_view d) c = c \<and> 2 \<le> c \<and> c < 0xFF8)"
    and eq: "(if 2 \<le> c \<and> c < 0xFF8
              then case read_bytes d (c2s c) [0..<min 512 rem] buf of
                   (buf1, d1) \<Rightarrow> case getFAT d1 c of (n, d2) \<Rightarrow> f d2 n (rem - min 512 rem) buf1
              else Some (buf, d)) = Some y"
  show "\<not> (fat_entry (sec_view d) c = c \<and> 2 \<le> c \<and> c < 0xFF8)"
  proof
    assume a: "fat_entry (sec_view d) c = c \<and> 2 \<le> c \<and> c < 0xFF8"
    obtain buf1 d1 where b: "read_bytes d (c2s c) [0..<min 512 rem] buf = (buf1, d1)"
      by (cases "read_bytes d (c2s c) [0..<min 512 rem] buf")
    obtain n d2 where g: "getFAT d1 c = (n, d2)" by (cases "getFAT d1 c")
    have f1: "faulted d d1" using read_bytes_val [of d "c2s c" "[0..<min 512 rem]" buf] b by simp
    have f2: "faulted d d2" using getFAT_faulted [of d1 c] g f1 by (auto intro: faulted_trans)
    have n: "n = c" using getFAT_val [of d1 c] g a faulted_view [OF f1] by simp
    from eq a b g have "f d2 n (rem - min 512 rem) buf1 = Some y" by simp
    from ih [OF this] a n faulted_view [OF f2] show False by simp
  qed
qed

lemma read_chain_loops:
  "fat_entry (sec_view d) c = c \<Longrightarrow> 2 \<le> c \<Longrightarrow> c < 0xFF8 \<Longrightarrow> read_chain d c rem buf = None"
  using read_chain_loops_aux [of d c rem buf] by (cases "read_chain d c rem buf") auto

text \<open>The four example volumes, sector by sector.\<close>

lemma looping_disk_view:
  "sec_view looping_disk 1 = load_sector [0xF0, 0xFF, 0xFF, 0x02, 0x00]"
  "sec_view looping_disk 19 = load_sector entry_X"
  "sec_view looping_dir_disk 1 = load_sector [0xF0, 0xFF, 0xFF, 0x02, 0x00]"
  "sec_view looping_dir_disk 19 = load_sector entry_D"
  "sec_view one_file_disk 1 = load_sector [0xF0, 0xFF, 0xFF, 0xFF, 0x0F]"
  "sec_view one_file_disk 19 = load_sector entry_X"
  "sec_view one_file_disk 33 = load_sector [0x41]"
  by (simp_all add: looping_disk_def looping_dir_disk_def one_file_disk_def sec_view_new
      entry_X_def entry_D_def)

lemma entry_X_at:
  assumes "V 19 = load_sector entry_X"
  shows "dir_entries V root_secs
       = [\<lparr>ent_first = 0x58, ent_name = [0x58], ent_attr = 0x20, ent_cluster = 2, ent_size = 1,
           ent_sec = 19, ent_slot = 0\<rparr>]"
proof -
  note b = assms load_sector_bytes
  have "dir_entries V root_secs = [entry_at V (19, 0)]"
    unfolding root_secs_value by (rule dir_entries_one) (simp_all add: b entry_X_def)
  moreover have "entry_at V (19, 0)
      = \<lparr>ent_first = 0x58, ent_name = [0x58], ent_attr = 0x20, ent_cluster = 2, ent_size = 1,
         ent_sec = 19, ent_slot = 0\<rparr>"
    by (simp add: entry_at_def slot_byte_def Let_def upt_values name_field_def b entry_X_def)
  ultimately show ?thesis by simp
qed

lemma entry_D_at:
  assumes "V 19 = load_sector entry_D"
  shows "dir_entries V root_secs
       = [\<lparr>ent_first = 0x44, ent_name = [0x44], ent_attr = 0x10, ent_cluster = 2, ent_size = 0,
           ent_sec = 19, ent_slot = 0\<rparr>]"
proof -
  note b = assms load_sector_bytes
  have "dir_entries V root_secs = [entry_at V (19, 0)]"
    unfolding root_secs_value by (rule dir_entries_one) (simp_all add: b entry_D_def)
  moreover have "entry_at V (19, 0)
      = \<lparr>ent_first = 0x44, ent_name = [0x44], ent_attr = 0x10, ent_cluster = 2, ent_size = 0,
         ent_sec = 19, ent_slot = 0\<rparr>"
    by (simp add: entry_at_def slot_byte_def Let_def upt_values name_field_def b entry_D_def)
  ultimately show ?thesis by simp
qed

lemma fat_entry_2:
  "V 1 = load_sector [0xF0, 0xFF, 0xFF, lo, hi] \<Longrightarrow> lo < 256 \<Longrightarrow> hi < 256
   \<Longrightarrow> fat_entry V 2 = (lo OR push_bit 8 hi) AND 0xFFF"
  by (simp add: fat_entry_def FAT1_START_def Let_def load_sector_bytes)

text \<open>
  Claim C10 as stated fails in two ways. On a new FAT12Disk over an empty localStorage,
  readFile([], 'X') returns null, and the cache, empty before, then holds sector 19 (the
  first sector of the root directory). And readFile does not always return: on
  looping_dir_disk the path ['D'] names a directory whose cluster chain runs into itself,
  and readFile(['D'], 'X') walks it for ever, although no file X exists; on looping_disk
  the file X exists and its own chain is walked for ever. This holds whatever the
  upper-case method does.
\<close>

theorem readFile_fills_cache_and_loops_on_cyclic_chain:
  "(\<forall>U. \<exists>d'. readFile U blank_disk [] [0x58] = Some (None, d')
            \<and> cache blank_disk 19 = None \<and> cache d' 19 = Some (replicate 512 0))
   \<and> (\<forall>U. readFile U looping_dir_disk [[0x44]] [0x58] = None)
   \<and> (\<forall>U. readFile U looping_disk [] [0x58] = None)"
proof (intro conjI allI)
  fix U :: upper
  show "\<exists>d'. readFile U blank_disk [] [0x58] = Some (None, d')
            \<and> cache blank_disk 19 = None \<and> cache d' 19 = Some (replicate 512 0)"
    by (simp add: readFile_def priv_resolveDirSectors_def root_secs_value priv_enumEntries_def
        upt_values r8_def priv_sec_def blank_disk_def new_FAT12Disk_def Let_def)
next
  fix U :: upper
  let ?d = looping_dir_disk
  obtain entries d1 where e: "priv_enumEntries ?d root_secs = (entries, d1)"
    by (cases "priv_enumEntries ?d root_secs")
  have f1: "faulted ?d d1" using priv_enumEntries_faulted [of ?d root_secs] e by simp
  have en: "entries = [\<lparr>ent_first = 0x44, ent_name = [0x44], ent_attr = 0x10, ent_cluster = 2,
                         ent_size = 0, ent_sec = 19, ent_slot = 0\<rparr>]"
    using priv_enumEntries_val [of ?d root_secs] e entry_D_at [of "sec_view looping_dir_disk", OF looping_disk_view(4)] by simp
  have "fat_entry (sec_view d1) 2 = 2"
    unfolding faulted_view [OF f1] by (simp add: fat_entry_2 [of "sec_view looping_dir_disk", OF looping_disk_view(3)])
  then have "chain_secs d1 2 [] = None" by (rule chain_secs_loops) simp_all
  then show "readFile U ?d [[0x44]] [0x58] = None"
    by (simp add: readFile_def priv_resolveDirSectors_def e en)
next
  fix U :: upper
  let ?d = looping_disk
  obtain entries d1 where e: "priv_enumEntries ?d root_secs = (entries, d1)"
    by (cases "priv_enumEntries ?d root_secs")
  have f1: "faulted ?d d1" using priv_enumEntries_faulted [of ?d root_secs] e by simp
  have en: "entries = [\<lparr>ent_first = 0x58, ent_name = [0x58], ent_attr = 0x20, ent_cluster = 2,
                         ent_size = 1, ent_sec = 19, ent_slot = 0\<rparr>]"
    using priv_enumEntries_val [of ?d root_secs] e entry_X_at [of "sec_view looping_disk", OF looping_disk_view(2)] by simp
  have "fat_entry (sec_view d1) 2 = 2"
    unfolding faulted_view [OF f1] by (simp add: fat_entry_2 [of "sec_view looping_disk", OF looping_disk_view(1)])
  then have "read_chain d1 2 1 [] = None" by (rule read_chain_loops) simp_all
  then show "readFile U ?d [] [0x58] = None"
    by (simp add: readFile_def priv_resolveDirSectors_def e en)
qed

text \<open>
  Claim C10, amended. readFile has no throw. Whenever it returns, the backing store, the
  dirty set and the content of every sector as _sec gives it are what they were; only the
  cache may have gained sectors loaded from the store. In terms of what the volume holds
  (dir_of_path, find_file, fat_chain, all functions of the sector contents): when the
  cluster chains of the directories on the path end (within k links), readFile returns
  null if some component of the path names no subdirectory, and returns null if the
  directory that the path names has no entry without the directory attribute whose name
  equals the given one in upper case; if it has one and the chain of that entry's start
  cluster ends, readFile returns the bytes of that chain, not null. No hypothesis on the
  chains is needed for a file missing from the root directory. U is the upper-case method.
\<close>

theorem readFile_null_when_missing_and_reads_only:
  "(\<forall>r d'. readFile U d parts nm = Some (r, d') \<longrightarrow> faulted d d')
   \<and> (dir_of_path U k (sec_view d) root_secs parts = Some None
        \<longrightarrow> (\<exists>d'. readFile U d parts nm = Some (None, d')))
   \<and> (\<forall>secs. dir_of_path U k (sec_view d) root_secs parts = Some (Some secs) \<longrightarrow>
         (find_file U (sec_view d) secs nm = None
            \<longrightarrow> (\<exists>d'. readFile U d parts nm = Some (None, d')))
         \<and> (\<forall>f ch. find_file U (sec_view d) secs nm = Some f
                    \<and> fat_chain k (sec_view d) (ent_cluster f) = Some ch
              \<longrightarrow> (\<exists>d'. readFile U d parts nm
                           = Some (Some (chain_bytes (sec_view d) ch (ent_size f)), d'))))
   \<and> (find_file U (sec_view d) root_secs nm = None
        \<longrightarrow> (\<exists>d'. readFile U d [] nm = Some (None, d')))"
proof (intro conjI allI impI)
  fix r d' assume "readFile U d parts nm = Some (r, d')"
  then show "faulted d d'" by (rule readFile_faulted)
next
  assume "dir_of_path U k (sec_view d) root_secs parts = Some None"
  then show "\<exists>d'. readFile U d parts nm = Some (None, d')" by (rule readFile_no_dir)
next
  fix secs
  assume p: "dir_of_path U k (sec_view d) root_secs parts = Some (Some secs)"
    and "find_file U (sec_view d) secs nm = None"
  with readFile_in_dir [OF p, of nm] show "\<exists>d'. readFile U d parts nm = Some (None, d')"
    by blast
next
  fix secs f ch
  assume p: "dir_of_path U k (sec_view d) root_secs parts = Some (Some secs)"
    and "find_file U (sec_view d) secs nm = Some f \<and> fat_chain k (sec_view d) (ent_cluster f) = Some ch"
  with readFile_in_dir [OF p, of nm]
  show "\<exists>d'. readFile U d parts nm = Some (Some (chain_bytes (sec_view d) ch (ent_size f)), d')"
    by blast
next
  assume n: "find_file U (sec_view d) root_secs nm = None"
  have p: "dir_of_path U 0 (sec_view d) root_secs [] = Some (Some root_secs)" by simp
  from readFile_in_dir [OF p, of nm] n show "\<exists>d'. readFile U d [] nm = Some (None, d')"
    by blast
qed

text \<open>
  The amended claim on three inputs, whatever the upper-case method is: a file missing
  from the empty root directory; a path whose first component is missing; and the file X
  of one_file_disk, one byte long, whose chain is the single cluster 2.
\<close>

theorem readFile_null_when_missing_and_reads_only_witness:
  "\<forall>U. (\<exists>d'. readFile U blank_disk [] [0x58] = Some (None, d') \<and> faulted blank_disk d')
      \<and> (\<exists>d'. readFile U blank_disk [[0x44]] [0x58] = Some (None, d') \<and> faulted blank_disk d')
      \<and> (\<exists>d'. readFile U one_file_disk [] [0x58] = Some (Some [0x41], d')
               \<and> faulted one_file_disk d')"
proof
  fix U :: upper
  let ?B = "sec_view blank_disk"
  let ?O = "sec_view one_file_disk"
  have eb: "dir_entries ?B root_secs = []"
    unfolding root_secs_value by (rule dir_entries_none) (simp add: sec_view_blank)
  have b1: "dir_of_path U 0 ?B root_secs [] = Some (Some root_secs)" by simp
  have b2: "find_file U ?B root_secs [0x58] = None" by (simp add: find_file_def eb)
  have b3: "dir_of_path U 0 ?B root_secs [[0x44]] = Some None" by (simp add: find_subdir_def eb)
  have o1: "dir_of_path U 1 ?O root_secs [] = Some (Some root_secs)" by simp
  have o2: "find_file U ?O root_secs [0x58]
      = Some \<lparr>ent_first = 0x58, ent_name = [0x58], ent_attr = 0x20, ent_cluster = 2, ent_size = 1,
              ent_sec = 19, ent_slot = 0\<rparr>"
    by (simp add: find_file_def entry_X_at [of "sec_view one_file_disk", OF looping_disk_view(6)])
  have o3: "fat_chain 1 ?O 2 = Some [2]"
    by (simp add: fat_entry_2 [of "sec_view one_file_disk", OF looping_disk_view(5)])
  have o4: "chain_bytes ?O [2] 1 = [0x41]"
    by (simp add: c2s_def geometry_defs looping_disk_view(7) load_sector_bytes)
  note t1 = readFile_null_when_missing_and_reads_only [of U blank_disk "[]" "[0x58]" 0]
  note t2 = readFile_null_when_missing_and_reads_only [of U blank_disk "[[0x44]]" "[0x58]" 0]
  note t3 = readFile_null_when_missing_and_reads_only [of U one_file_disk "[]" "[0x58]" 1]
  from t1 b1 b2 have 1: "\<exists>d'. readFile U blank_disk [] [0x58] = Some (None, d') \<and> faulted blank_disk d'"
    by blast
  from t2 b3 have 2: "\<exists>d'. readFile U blank_disk [[0x44]] [0x58] = Some (None, d') \<and> faulted blank_disk d'"
    by blast
  from t3 o1 o2 o3 have "\<exists>d'. readFile U one_file_disk [] [0x58]
        = Some (Some (chain_bytes ?O [2] 1), d') \<and> faulted one_file_disk d'"
    by (metis dirent.select_convs(4,5))
  with o4 have 3: "\<exists>d'. readFile U one_file_disk [] [0x58] = Some (Some [0x41], d')
               \<and> faulted one_file_disk d'"
    by simp
  from 1 2 3 show "(\<exists>d'. readFile U blank_disk [] [0x58] = Some (None, d') \<and> faulted blank_disk d')
      \<and> (\<exists>d'. readFile U blank_disk [[0x44]] [0x58] = Some (None, d') \<and> faulted blank_disk d')
      \<and> (\<exists>d'. readFile U one_file_disk [] [0x58] = Some (Some [0x41], d')
               \<and> faulted one_file_disk d')"
    by (simp only: simp_thms)
qed

end
